(* ===== verification/Prelude.thy ===== *)
theory Prelude
  imports Complex_Main "HOL-Library.AList" "HOL-Library.Word" "HOL-Library.Multiset"
    "HOL-Library.Monad_Syntax" "HOL-Library.Char_ord" "HOL-Library.List_Lexorder"
begin

text \<open>
  Go's values as the development represents them, and the lemmas on them that the components
  share.

  \<^item> A pointer, and any other value that can be \<^verbatim>\<open>nil\<close>, is an \<open>'a ptr\<close>.
  \<^item> A Go map is a \<open>gomap\<close>: \<open>NilP\<close> for the nil map, otherwise the list of its entries, each key
    at most once (\<open>gm_wf\<close>), in the order in which one \<^verbatim>\<open>range\<close> loop visits them. Go leaves that
    order open, so what is proved of an operation is stated through \<open>gm_get\<close>, which does not
    depend on it.
  \<^item> A computation that can panic (a nil dereference, a write to a nil map) returns an
    \<open>option\<close>: \<open>None\<close> is the panic, and \<open>do\<close> sequences computations.
  \<^item> \<^verbatim>\<open>int32\<close> values are \<open>32 word\<close>s, compared as two's complement.
  \<^item> \<^verbatim>\<open>slices.SortFunc\<close> is the insertion sort the Go runtime uses on slices of at most twelve
    elements. It is not guaranteed to be stable on longer ones, and no theorem relies on
    anything but that its result is an ordered permutation.
\<close>

section \<open>Collections of facts\<close>

named_theorems gm_simps \<open>lookups in Go maps after an update\<close>
named_theorems wf_intros \<open>well-formedness of the maps an operation returns\<close>

section \<open>Pointers, panics, loops\<close>

datatype 'a ptr = NilP | Ptr 'a

primrec deref :: "'a ptr \<Rightarrow> 'a option" where
  "deref NilP = None"
| "deref (Ptr x) = Some x"

definition is_nil :: "'a ptr \<Rightarrow> bool" where
  "is_nil p \<longleftrightarrow> (case p of NilP \<Rightarrow> True | Ptr _ \<Rightarrow> False)"

primrec opt_ptr :: "'a ptr option \<Rightarrow> 'a ptr" where
  "opt_ptr None = NilP"
| "opt_ptr (Some p) = p"

fun for_each :: "('a \<Rightarrow> 's \<Rightarrow> 's option) \<Rightarrow> 'a list \<Rightarrow> 's \<Rightarrow> 's option" where
  "for_each f [] s = Some s"
| "for_each f (x # xs) s = do { s' \<leftarrow> f x s; for_each f xs s' }"

section \<open>Go maps\<close>

type_synonym ('k, 'v) gomap = "('k \<times> 'v) list ptr"

primrec gm_entries :: "('k, 'v) gomap \<Rightarrow> ('k \<times> 'v) list" where
  "gm_entries NilP = []"
| "gm_entries (Ptr m) = m"

definition gm_get :: "('k, 'v) gomap \<Rightarrow> 'k \<Rightarrow> 'v option" where
  "gm_get m k = map_of (gm_entries m) k"

primrec gm_set :: "('k, 'v) gomap \<Rightarrow> 'k \<Rightarrow> 'v \<Rightarrow> ('k, 'v) gomap option" where
  "gm_set NilP k v = None"
| "gm_set (Ptr m) k v = Some (Ptr (AList.update k v m))"

primrec gm_delete :: "('k, 'v) gomap \<Rightarrow> 'k \<Rightarrow> ('k, 'v) gomap" where
  "gm_delete NilP k = NilP"
| "gm_delete (Ptr m) k = Ptr (AList.delete k m)"

definition gm_make :: "('k, 'v) gomap" where
  "gm_make = Ptr []"

definition gm_len :: "('k, 'v) gomap \<Rightarrow> nat" where
  "gm_len m = length (gm_entries m)"

definition gm_keys :: "('k, 'v) gomap \<Rightarrow> 'k list" where
  "gm_keys m = map fst (gm_entries m)"

definition gm_wf :: "('k, 'v) gomap \<Rightarrow> bool" where
  "gm_wf m \<longleftrightarrow> distinct (gm_keys m)"

definition gm_dom :: "('k, 'v) gomap \<Rightarrow> 'k set" where
  "gm_dom m = set (gm_keys m)"

section \<open>Addresses\<close>

text \<open>Where aliasing matters, a pointer is the address of a cell of a store: \<open>addr ptr\<close>.\<close>

type_synonym addr = nat

section \<open>Fixed-width integers\<close>

type_synonym int32 = "32 word"

definition i32_less :: "int32 \<Rightarrow> int32 \<Rightarrow> bool" where
  "i32_less a b \<longleftrightarrow> sint a < sint b"

section \<open>Sorting with a comparison function\<close>

fun ins_desc :: "('a \<Rightarrow> 'a \<Rightarrow> int) \<Rightarrow> 'a \<Rightarrow> 'a list \<Rightarrow> 'a list" where
  "ins_desc cmp x [] = [x]"
| "ins_desc cmp x (y # ys) = (if cmp x y < 0 then y # ins_desc cmp x ys else x # y # ys)"

definition SortFunc :: "('a \<Rightarrow> 'a \<Rightarrow> int) \<Rightarrow> 'a list \<Rightarrow> 'a list" where
  "SortFunc cmp xs = rev (fold (ins_desc cmp) xs [])"

definition cmp_Compare :: "string \<Rightarrow> string \<Rightarrow> int" where
  "cmp_Compare a b = (if a < b then -1 else if a = b then 0 else 1)"

section \<open>Decimal numerals\<close>

fun digits_of_nat :: "nat \<Rightarrow> string" where
  "digits_of_nat n =
     (if n < 10 then [char_of (n + 48)] else digits_of_nat (n div 10) @ [char_of (n mod 10 + 48)])"

declare digits_of_nat.simps [simp del]

fun strings_Join :: "string list \<Rightarrow> string \<Rightarrow> string" where
  "strings_Join [] sep = []"
| "strings_Join [x] sep = x"
| "strings_Join (x # y # ys) sep = x @ sep @ strings_Join (y # ys) sep"

section \<open>Lemmas on pointers and loops\<close>

lemma is_nil_simps [simp]: "is_nil NilP" "\<not> is_nil (Ptr x)"
  by (simp_all add: is_nil_def)

lemma is_nil_iff: "is_nil p \<longleftrightarrow> p = NilP"
  by (cases p) simp_all

lemma not_nil_obtain: "\<not> is_nil p \<longleftrightarrow> (\<exists>x. p = Ptr x)"
  by (cases p) auto

lemma deref_eq_Some [simp]: "deref p = Some x \<longleftrightarrow> p = Ptr x"
  by (cases p) auto

lemma deref_eq_None [simp]: "deref p = None \<longleftrightarrow> p = NilP"
  by (cases p) auto

lemma map_Ptr_exists: "(\<And>v. v \<in> set vs \<Longrightarrow> v \<noteq> NilP) \<Longrightarrow> \<exists>xs. vs = map Ptr xs"
  unfolding ex_map_conv by (metis ptr.exhaust)

lemma for_each_append:
  "for_each f (xs @ ys) s = do { s' \<leftarrow> for_each f xs s; for_each f ys s' }"
  by (induction xs arbitrary: s) (auto split: bind_splits)

text \<open>The loop rule: an invariant every iteration keeps, and under which no iteration panics.\<close>

lemma for_each_rule:
  assumes "I s"
    and "\<And>x s. x \<in> set xs \<Longrightarrow> I s \<Longrightarrow> \<exists>s'. f x s = Some s' \<and> I s'"
  shows "\<exists>s'. for_each f xs s = Some s' \<and> I s'"
  using assms
proof (induction xs arbitrary: s)
  case Nil
  then show ?case by simp
next
  case (Cons x xs)
  from Cons.prems obtain s1 where s1: "f x s = Some s1" "I s1"
    by force
  have "\<exists>s'. for_each f xs s1 = Some s' \<and> I s'"
    using Cons.prems(2) by (intro Cons.IH s1(2)) auto
  with s1(1) show ?case by simp
qed

lemma for_each_total:
  "(\<And>x s. x \<in> set xs \<Longrightarrow> f x s = Some (g x s)) \<Longrightarrow> for_each f xs s = Some (fold g xs s)"
  by (induction xs arbitrary: s) auto

section \<open>Lemmas on Go maps\<close>

lemma gm_get_nil [simp]: "gm_get NilP k = None"
  by (simp add: gm_get_def)

lemma gm_get_make [simp]: "gm_get gm_make k = None"
  by (simp add: gm_get_def gm_make_def)

lemma gm_wf_nil [simp]: "gm_wf NilP"
  by (simp add: gm_wf_def gm_keys_def)

lemma gm_wf_make [simp]: "gm_wf gm_make"
  by (simp add: gm_wf_def gm_keys_def gm_make_def)

lemma gm_make_not_nil [simp]: "gm_make \<noteq> NilP" "\<not> is_nil gm_make"
  by (simp_all add: gm_make_def)

lemma gm_dom_iff: "k \<in> gm_dom m \<longleftrightarrow> gm_get m k \<noteq> None"
  by (simp add: gm_dom_def gm_keys_def gm_get_def map_of_eq_None_iff)

lemma gm_dom_conv: "gm_dom m = dom (gm_get m)"
  by (auto simp: gm_dom_iff)

lemma gm_get_None_dom: "gm_get m k = None \<longleftrightarrow> k \<notin> gm_dom m"
  by (simp add: gm_dom_iff)

lemma finite_gm_dom [simp]: "finite (gm_dom m)"
  by (simp add: gm_dom_def)

lemma gm_set_eq_Some:
  "gm_set m k v = Some m' \<longleftrightarrow> (\<exists>es. m = Ptr es \<and> m' = Ptr (AList.update k v es))"
  by (cases m) auto

lemma gm_set_defined: "m \<noteq> NilP \<Longrightarrow> \<exists>m'. gm_set m k v = Some m'"
  by (cases m) auto

lemma gm_get_set [gm_simps]:
  "gm_set m k v = Some m' \<Longrightarrow> gm_get m' k' = (if k' = k then Some v else gm_get m k')"
  by (auto simp: gm_set_eq_Some gm_get_def update_conv')

lemma gm_dom_set [gm_simps]: "gm_set m k v = Some m' \<Longrightarrow> gm_dom m' = insert k (gm_dom m)"
  by (auto simp: gm_dom_iff gm_get_set split: if_splits)

lemma gm_set_not_nil: "gm_set m k v = Some m' \<Longrightarrow> m' \<noteq> NilP"
  by (auto simp: gm_set_eq_Some)

lemma gm_wf_set [wf_intros]: "gm_set m k v = Some m' \<Longrightarrow> gm_wf m \<Longrightarrow> gm_wf m'"
  by (auto simp: gm_set_eq_Some gm_wf_def gm_keys_def intro: distinct_update)

lemma gm_get_delete [gm_simps]: "gm_get (gm_delete m k) k' = (if k' = k then None else gm_get m k')"
  by (cases m) (auto simp: gm_get_def delete_conv')

lemma gm_dom_delete [gm_simps]: "gm_dom (gm_delete m k) = gm_dom m - {k}"
  by (auto simp: gm_dom_iff gm_get_delete split: if_splits)

lemma gm_wf_delete [wf_intros]: "gm_wf m \<Longrightarrow> gm_wf (gm_delete m k)"
  by (cases m) (auto simp: gm_wf_def gm_keys_def intro: distinct_delete)

lemma gm_delete_nil_iff [simp]: "gm_delete m k = NilP \<longleftrightarrow> m = NilP"
  by (cases m) auto

lemma gm_entries_get:
  "gm_wf m \<Longrightarrow> (k, v) \<in> set (gm_entries m) \<longleftrightarrow> gm_get m k = Some v"
  by (simp add: gm_wf_def gm_keys_def gm_get_def)

lemma gm_keys_dom [simp]: "set (gm_keys m) = gm_dom m"
  by (simp add: gm_dom_def)

lemma gm_get_Ptr [simp]: "gm_get (Ptr es) = map_of es"
  by (rule ext) (simp add: gm_get_def)

lemma gm_wf_Ptr: "gm_wf (Ptr es) \<longleftrightarrow> distinct (map fst es)"
  by (simp add: gm_wf_def gm_keys_def)

lemma gm_len_card: "gm_wf m \<Longrightarrow> gm_len m = card (gm_dom m)"
  using distinct_card [of "gm_keys m"] by (simp add: gm_wf_def gm_len_def gm_keys_def gm_dom_def)

text \<open>Copying a map entry by entry into a fresh map.\<close>

lemma fold_update_fresh:
  assumes "distinct (map fst es)" and "fst ` set es \<inter> fst ` set acc = {}"
  shows "fold (\<lambda>(k, v). AList.update k (f v)) es acc = acc @ map (\<lambda>(k, v). (k, f v)) es"
  using assms
proof (induction es arbitrary: acc)
  case Nil
  then show ?case by simp
next
  case (Cons e es)
  obtain k v where e: "e = (k, v)" by (cases e)
  have snoc: "k \<notin> fst ` set acc \<Longrightarrow> AList.update k w acc = acc @ [(k, w)]" for w
    by (induction acc) auto
  from Cons.prems e have "AList.update k (f v) acc = acc @ [(k, f v)]"
    by (intro snoc) auto
  moreover have "fst ` set es \<inter> fst ` set (acc @ [(k, f v)]) = {}"
    using Cons.prems e by auto
  ultimately show ?case
    using Cons.IH [of "acc @ [(k, f v)]"] Cons.prems(1) e by simp
qed

lemma fold_update_copy:
  "distinct (map fst es) \<Longrightarrow>
     fold (\<lambda>(k, v). AList.update k (f v)) es [] = map (\<lambda>(k, v). (k, f v)) es"
  by (simp add: fold_update_fresh)

lemma distinct_fold_update:
  "distinct (map fst acc) \<Longrightarrow> distinct (map fst (fold (\<lambda>(k, v). AList.update k (f v)) es acc))"
  by (induction es arbitrary: acc) (auto simp: distinct_update)

lemma fold_update_triv:
  "(\<And>k v. (k, v) \<in> set xs \<Longrightarrow> map_of es k = Some (f v)) \<Longrightarrow>
     fold (\<lambda>(k, v). AList.update k (f v)) xs es = es"
proof (induction xs)
  case (Cons x xs)
  obtain k v where x: "x = (k, v)" by (cases x)
  with Cons.prems have "AList.update k (f v) es = es" by (intro update_triv) simp
  with Cons x show ?case by simp
qed simp

lemma update_update: "AList.update k v (AList.update k w xs) = AList.update k v xs"
  by (induction xs) auto

lemma update_middle:
  "distinct (map fst (xs @ (n, p) # ys)) \<Longrightarrow> AList.update n p' (xs @ (n, p) # ys) = xs @ (n, p') # ys"
  by (induction xs) auto

lemma fold_update_self:
  "distinct (map fst (xs @ ys)) \<Longrightarrow>
     fold (\<lambda>(n, q). AList.update n (f q)) ys (xs @ ys) = xs @ map (\<lambda>(n, q). (n, f q)) ys"
proof (induction ys arbitrary: xs)
  case (Cons y ys)
  obtain n q where y: "y = (n, q)" by (cases y)
  with Cons.prems have "AList.update n (f q) (xs @ y # ys) = (xs @ [(n, f q)]) @ ys"
    using update_middle [of xs n q ys "f q"] by simp
  then show ?case using Cons.IH [of "xs @ [(n, f q)]"] Cons.prems y by simp
qed simp

text \<open>Mapping the values of a map after the value of one key has changed.\<close>

lemma map_update_cell:
  assumes "distinct (map fst es)" and "map_of es n = Some p"
    and "\<And>n' p'. map_of es n' = Some p' \<Longrightarrow> n' \<noteq> n \<Longrightarrow> f' p' = f p'"
  shows "map (\<lambda>(n, p). (n, f' p)) es = AList.update n (f' p) (map (\<lambda>(n, p). (n, f p)) es)"
  using assms
proof (induction es)
  case (Cons e es)
  obtain k v where e: "e = (k, v)" by (cases e)
  show ?case
  proof (cases "k = n")
    case True
    have "f' v' = f v'" if "(k', v') \<in> set es" for k' v'
    proof -
      have "k' \<noteq> n" "map_of es k' = Some v'" using that Cons.prems(1) True e by (auto simp: rev_image_eqI)
      then show ?thesis using Cons.prems(3) [of k' v'] True e by simp
    qed
    then have "map (\<lambda>(n, p). (n, f' p)) es = map (\<lambda>(n, p). (n, f p)) es" by auto
    then show ?thesis using True Cons.prems(2) e by simp
  next
    case False
    have "k \<notin> fst ` set es" using Cons.prems(1) e by simp
    then have "n' \<noteq> k" if "map_of es n' = Some p'" for n' p'
      using that by (auto dest!: map_of_SomeD simp: image_iff)
    then have "f' p' = f p'" if "map_of es n' = Some p'" "n' \<noteq> n" for n' p'
      using that Cons.prems(3) [of n' p'] e by auto
    with Cons.IH Cons.prems(1,2) False e have
      "map (\<lambda>(n, p). (n, f' p)) es = AList.update n (f' p) (map (\<lambda>(n, p). (n, f p)) es)" by auto
    then show ?thesis using False e Cons.prems(3) [of k v] by simp
  qed
qed simp

lemma map_of_map_values: "map_of (map (\<lambda>(k, v). (k, f v)) es) k = map_option f (map_of es k)"
  by (induction es) auto

lemma for_each_concat: "for_each (\<lambda>x. for_each f (g x)) xs = for_each f (concat (map g xs))"
proof (induction xs)
  case (Cons x xs)
  show ?case by (rule ext) (simp add: Cons.IH for_each_append)
qed (simp add: fun_eq_iff)

text \<open>
  A loop over the entries of one map that updates another map key by key: \<open>g\<close> gives the value
  to store for a key from its present value and the entry, or nothing.
\<close>

lemma for_each_merge:
  assumes "distinct (map fst es)" and "r \<noteq> NilP"
    and body: "\<And>k v r. f (k, v) r = (case g k (gm_get r k) v of None \<Rightarrow> Some r | Some w \<Rightarrow> gm_set r k w)"
  shows "\<exists>r'. for_each f es r = Some r' \<and> r' \<noteq> NilP \<and> (gm_wf r \<longrightarrow> gm_wf r') \<and>
    (\<forall>n. gm_get r' n = (case map_of es n of None \<Rightarrow> gm_get r n
        | Some v \<Rightarrow> (case g n (gm_get r n) v of None \<Rightarrow> gm_get r n | Some w \<Rightarrow> Some w)))"
  using assms(1,2)
proof (induction es arbitrary: r)
  case Nil
  then show ?case by simp
next
  case (Cons e es)
  obtain k v where e: "e = (k, v)" by (cases e)
  obtain r1 where r1: "f e r = Some r1" "r1 \<noteq> NilP" "gm_wf r \<longrightarrow> gm_wf r1"
    and get1: "\<forall>n. gm_get r1 n = (if n = k then (case g k (gm_get r k) v of None \<Rightarrow> gm_get r k | Some w \<Rightarrow> Some w)
      else gm_get r n)"
  proof (cases "g k (gm_get r k) v")
    case None
    then show ?thesis using that [of r] Cons.prems(2) e by (simp add: body)
  next
    case (Some w)
    obtain m' where m': "gm_set r k w = Some m'"
      using gm_set_defined [OF Cons.prems(2)] by blast
    show ?thesis
      by (rule that [of m'])
        (simp_all add: body e Some m' gm_set_not_nil [OF m'] gm_wf_set [OF m'] gm_get_set [OF m'])
  qed
  from Cons.IH [OF _ r1(2)] Cons.prems(1) obtain r' where r': "for_each f es r1 = Some r'"
      "r' \<noteq> NilP" "gm_wf r1 \<longrightarrow> gm_wf r'"
    and get': "\<forall>n. gm_get r' n = (case map_of es n of None \<Rightarrow> gm_get r1 n
        | Some v \<Rightarrow> (case g n (gm_get r1 n) v of None \<Rightarrow> gm_get r1 n | Some w \<Rightarrow> Some w))"
    by auto
  have fresh: "map_of es k = None"
    using Cons.prems(1) e by (simp add: map_of_eq_None_iff)
  have "gm_get r' n = (case map_of (e # es) n of None \<Rightarrow> gm_get r n
        | Some v \<Rightarrow> (case g n (gm_get r n) v of None \<Rightarrow> gm_get r n | Some w \<Rightarrow> Some w))" for n
    using get1 [rule_format, of n] get' [rule_format, of n] fresh e by (cases "n = k") (auto split: option.split)
  moreover have "for_each f (e # es) r = Some r'" "gm_wf r \<longrightarrow> gm_wf r'"
    using r1 r' by simp_all
  ultimately show ?case using r'(2) by blast
qed

lemma for_each_merge_map:
  assumes "gm_wf other" and "r \<noteq> NilP"
    and "\<And>k v r. f (k, v) r = (case g k (gm_get r k) v of None \<Rightarrow> Some r | Some w \<Rightarrow> gm_set r k w)"
  shows "\<exists>r'. for_each f (gm_entries other) r = Some r' \<and> r' \<noteq> NilP \<and> (gm_wf r \<longrightarrow> gm_wf r') \<and>
    (\<forall>n. gm_get r' n = (case gm_get other n of None \<Rightarrow> gm_get r n
        | Some v \<Rightarrow> (case g n (gm_get r n) v of None \<Rightarrow> gm_get r n | Some w \<Rightarrow> Some w)))"
  unfolding gm_get_def [of other]
  by (rule for_each_merge) (use assms in \<open>simp_all add: gm_wf_def gm_keys_def\<close>)

section \<open>Lemmas on sorting\<close>

lemma mset_ins_desc: "mset (ins_desc cmp x ys) = add_mset x (mset ys)"
  by (induction ys) auto

lemma mset_SortFunc [simp]: "mset (SortFunc cmp xs) = mset xs"
proof -
  have "mset (fold (ins_desc cmp) xs acc) = mset xs + mset acc" for acc
    by (induction xs arbitrary: acc) (auto simp: mset_ins_desc)
  then show ?thesis by (simp add: SortFunc_def)
qed

lemma set_SortFunc [simp]: "set (SortFunc cmp xs) = set xs"
  by (metis mset_SortFunc set_mset_mset)

lemma length_SortFunc [simp]: "length (SortFunc cmp xs) = length xs"
  by (metis mset_SortFunc size_mset)

lemma distinct_SortFunc [simp]: "distinct (SortFunc cmp xs) = distinct xs"
  by (metis mset_SortFunc mset_eq_imp_distinct_iff)

text \<open>
  When the comparison function is the sign of a total preorder \<open>le\<close>, the result is ordered by
  \<open>le\<close>.
\<close>

lemma sorted_SortFunc:
  assumes cmp: "\<And>x y. cmp x y < 0 \<longleftrightarrow> \<not> le y x"
    and total: "\<And>x y. le x y \<or> le y x"
    and trans: "\<And>x y z. le x y \<Longrightarrow> le y z \<Longrightarrow> le x z"
  shows "sorted_wrt le (SortFunc cmp xs)"
proof -
  have ins: "sorted_wrt (\<lambda>a b. le b a) ys \<Longrightarrow> sorted_wrt (\<lambda>a b. le b a) (ins_desc cmp x ys)" for x ys
  proof (induction ys)
    case Nil
    then show ?case by simp
  next
    case (Cons y ys)
    have set: "set (ins_desc cmp x ys) = insert x (set ys)"
      by (metis mset_ins_desc set_mset_add_mset_insert set_mset_mset)
    show ?case
    proof (cases "cmp x y < 0")
      case True
      with cmp total have "le x y" by blast
      with Cons True set show ?thesis by auto
    next
      case False
      with cmp have "le y x" by blast
      with Cons.prems False trans show ?thesis by auto
    qed
  qed
  have "sorted_wrt (\<lambda>a b. le b a) acc \<Longrightarrow> sorted_wrt (\<lambda>a b. le b a) (fold (ins_desc cmp) xs acc)" for acc
    by (induction xs arbitrary: acc) (auto intro: ins)
  then show ?thesis
    by (simp add: SortFunc_def sorted_wrt_rev)
qed

section \<open>Lemmas on fixed-width integers\<close>

lemma i32_less_irrefl [simp]: "\<not> i32_less a a"
  by (simp add: i32_less_def)

lemma i32_less_trans: "i32_less a b \<Longrightarrow> i32_less b c \<Longrightarrow> i32_less a c"
  by (simp add: i32_less_def)

lemma i32_less_total: "a \<noteq> b \<Longrightarrow> i32_less a b \<or> i32_less b a"
  by (metis i32_less_def linorder_neqE_linordered_idom signed_word_eqI)

lemma i32_eq: "(a :: int32) = b \<longleftrightarrow> sint a = sint b"
  by (auto intro: signed_word_eqI)

lemma i32_dec: "- (2 ^ 31) < sint (a :: int32) \<Longrightarrow> sint (a - 1) = sint a - 1"
proof -
  assume low: "- (2 ^ 31) < sint a"
  have "sint a < 2 ^ 31"
    using sint_lt [of a] by simp
  with low have "- (2 ^ 31) \<le> sint a - 1 \<and> sint a - 1 < 2 ^ 31" by simp
  then have "signed_take_bit 31 (sint a - 1) = sint a - 1"
    by (simp add: signed_take_bit_int_eq_self_iff)
  then show ?thesis
    by (simp add: sint_word_diff)
qed

end
