(* ===== verification/KubeApi.thy ===== *)
theory KubeApi
  imports Prelude
begin

text \<open>
  The objects of the Kubernetes API that the scheduler reads, with the fields it reads, and the
  functions it calls that are not part of the repository.

  Those functions (the arithmetic of \<^verbatim>\<open>resource.Quantity\<close>, the helpers on pods, label
  selectors, and the persistent map of \<^verbatim>\<open>kaschnit/immut\<close>) are the fields of the record
  \<open>kube\<close>, which every definition that calls one of them takes as its first argument. What is
  documented of them is stated as locales over that record; a theorem that needs a law assumes
  the locale of that law and no more.

  Type variables: \<open>'q\<close> is \<^verbatim>\<open>resource.Quantity\<close>, \<open>'s\<close> is \<^verbatim>\<open>labels.Selector\<close>, \<open>'m\<close> is
  \<^verbatim>\<open>immut.Map[types.UID, *corev1.Pod]\<close>.
\<close>

section \<open>API objects\<close>

type_synonym labels = "(string, string) gomap"
type_synonym 'q resource_list = "(string, 'q) gomap"

record 'q container =
  cont_name :: string
  cont_requests :: "'q resource_list"

record pod_condition =
  cond_type :: string
  cond_status :: string
  cond_reason :: string

record 'q pod =
  pod_name :: string
  pod_namespace :: string
  pod_uid :: string
  pod_labels :: labels
  pod_deletionTimestamp :: "int ptr"
  spec_nodeName :: string
  spec_schedulerName :: string
  spec_priorityClassName :: string
  spec_priority :: "int32 ptr"
  spec_preemptionPolicy :: "string ptr"
  spec_containers :: "'q container list"
  status_phase :: string
  status_conditions :: "pod_condition list"
  status_nominatedNodeName :: string
  status_startTime :: int

record 'q node =
  node_name :: string
  node_uid :: string
  node_allocatable :: "'q resource_list"

record label_requirement =
  req_key :: string
  req_operator :: string
  req_values :: "string list"

record label_selector =
  ls_matchLabels :: labels
  ls_matchExpressions :: "label_requirement list"

record pdb =
  pdb_namespace :: string
  pdb_selector :: "label_selector ptr"
  pdb_disruptionsAllowed :: int32
  pdb_disruptedPods :: "(string, int) gomap"

datatype 'q pod_info = PodInfo (GetPod: "'q pod")

section \<open>Functions outside the repository\<close>

record ('q, 's, 'm) kube =
  qty_Zero :: 'q
  qty_Add :: "'q \<Rightarrow> 'q \<Rightarrow> 'q"
  qty_Sub :: "'q \<Rightarrow> 'q \<Rightarrow> 'q"
  qty_Cmp :: "'q \<Rightarrow> 'q \<Rightarrow> int"
  qty_Equal :: "'q \<Rightarrow> 'q \<Rightarrow> bool"
  qty_DeepCopy :: "'q \<Rightarrow> 'q"
  qty_String :: "'q \<Rightarrow> string"
  NewQuantity :: "int \<Rightarrow> 'q"
  PodRequests :: "'q pod \<Rightarrow> 'q resource_list"
  PodPriority :: "'q pod \<Rightarrow> int32"
  MoreImportantPod :: "'q pod \<Rightarrow> 'q pod \<Rightarrow> bool"
  LabelSelectorAsSelector :: "label_selector ptr \<Rightarrow> 's ptr \<times> string option"
  sel_Matches :: "'s \<Rightarrow> labels \<Rightarrow> bool"
  sel_Empty :: "'s \<Rightarrow> bool"
  labels_Nothing :: 's
  imm_New :: 'm
  imm_Get :: "'m \<Rightarrow> string \<Rightarrow> 'q pod ptr option"
  imm_Set :: "'m \<Rightarrow> string \<Rightarrow> 'q pod ptr \<Rightarrow> 'm"
  imm_Delete :: "'m \<Rightarrow> string \<Rightarrow> 'm"
  imm_Values :: "'m \<Rightarrow> 'q pod ptr list"
  imm_Len :: "'m \<Rightarrow> nat"

section \<open>What is documented of them\<close>

text \<open>
  \<^verbatim>\<open>resource.Quantity\<close> is a fixed-point representation of a number, \<open>amount\<close>: addition and
  subtraction are exact, comparison compares the numbers, the zero value is 0.
\<close>

locale quantity =
  fixes K :: "('q, 's, 'm) kube" and amount :: "'q \<Rightarrow> rat"
  assumes amount_Zero: "amount (qty_Zero K) = 0"
    and amount_Add: "amount (qty_Add K a b) = amount a + amount b"
    and amount_Sub: "amount (qty_Sub K a b) = amount a - amount b"
    and Cmp_sgn: "qty_Cmp K a b =
      (if amount a < amount b then -1 else if amount a = amount b then 0 else 1)"
    and Equal_amount: "qty_Equal K a b \<longleftrightarrow> amount a = amount b"
    and DeepCopy_id: "qty_DeepCopy K a = a"
    and amount_NewQuantity: "amount (NewQuantity K n) = of_int n"
begin

lemma Cmp_less: "qty_Cmp K a b < 0 \<longleftrightarrow> amount a < amount b"
  by (simp add: Cmp_sgn)

lemma Cmp_greater: "qty_Cmp K a b > 0 \<longleftrightarrow> amount b < amount a"
  by (auto simp: Cmp_sgn)

lemmas amount_simps = amount_Zero amount_Add amount_Sub DeepCopy_id amount_NewQuantity
  Equal_amount Cmp_less Cmp_greater

end

text \<open>\<^verbatim>\<open>immut.Map\<close> is a finite map whose updates return a new map.\<close>

locale immut_map =
  fixes K :: "('q, 's, 'm) kube"
  assumes Get_New: "imm_Get K (imm_New K) u = None"
    and Get_Set: "imm_Get K (imm_Set K m u p) u' = (if u' = u then Some p else imm_Get K m u')"
    and Get_Delete: "imm_Get K (imm_Delete K m u) u' = (if u' = u then None else imm_Get K m u')"
    and set_Values: "set (imm_Values K m) = ran (imm_Get K m)"
    and finite_Get: "finite (dom (imm_Get K m))"
    and Len_card: "imm_Len K m = card (dom (imm_Get K m))"

text \<open>\<^verbatim>\<open>PodRequests\<close> returns a fresh, non-nil resource list.\<close>

locale pod_requests =
  fixes K :: "('q, 's, 'm) kube"
  assumes PodRequests_not_nil: "PodRequests K p \<noteq> NilP"
    and PodRequests_wf: "gm_wf (PodRequests K p)"

text \<open>
  \<^verbatim>\<open>MoreImportantPod\<close>: the pod of the higher priority, and of two of the same priority the one
  that started first.
\<close>

locale pod_importance =
  fixes K :: "('q, 's, 'm) kube" and start :: "'q pod \<Rightarrow> int"
  assumes MoreImportantPod_iff: "MoreImportantPod K a b \<longleftrightarrow>
      i32_less (PodPriority K b) (PodPriority K a) \<or>
      PodPriority K a = PodPriority K b \<and> start a < start b"

text \<open>
  A nil label selector selects nothing, an empty one everything, and a selector that converts
  without an error is a selector.
\<close>

locale label_selectors =
  fixes K :: "('q, 's, 'm) kube"
  assumes Nothing_Matches: "\<not> sel_Matches K (labels_Nothing K) ls"
    and AsSelector_nil: "LabelSelectorAsSelector K NilP = (Ptr (labels_Nothing K), None)"
    and AsSelector_not_nil: "snd (LabelSelectorAsSelector K s) = None \<Longrightarrow>
      fst (LabelSelectorAsSelector K s) \<noteq> NilP"
    and AsSelector_empty: "gm_entries (ls_matchLabels q) = [] \<Longrightarrow> ls_matchExpressions q = [] \<Longrightarrow>
      \<exists>e. LabelSelectorAsSelector K (Ptr q) = (Ptr e, None) \<and> (\<forall>ls. sel_Matches K e ls)"

locale kube_laws = quantity K amount + immut_map K + pod_requests K
  for K :: "('q, 's, 'm) kube" and amount :: "'q \<Rightarrow> rat"

end
