(* ===== verification/RefKube.thy ===== *)
theory RefKube
  imports KubeApi
begin

text \<open>
  A reference implementation of the functions outside the repository, on which the laws of
  \<^verbatim>\<open>KubeApi\<close> are shown to hold together: quantities are integers counting thousandths, a
  persistent map is an association list, a selector is evaluated by its label requirements. The
  examples of the development are evaluated over it.
\<close>

datatype ref_selector = RefNothing | RefSelector label_selector

type_synonym ref_map = "(string \<times> int pod ptr) list"
type_synonym ref_pod = "int pod"

definition ref_requirement :: "labels \<Rightarrow> label_requirement \<Rightarrow> bool" where
  "ref_requirement ls r =
     (let v = gm_get ls (req_key r) in
      if req_operator r = ''In'' then (case v of None \<Rightarrow> False | Some x \<Rightarrow> List.member (req_values r) x)
      else if req_operator r = ''NotIn'' then (case v of None \<Rightarrow> True | Some x \<Rightarrow> \<not> List.member (req_values r) x)
      else if req_operator r = ''Exists'' then v \<noteq> None
      else v = None)"

definition ref_operator :: "string \<Rightarrow> bool" where
  "ref_operator op \<longleftrightarrow> List.member [''In'', ''NotIn'', ''Exists'', ''DoesNotExist''] op"

fun ref_matches :: "ref_selector \<Rightarrow> labels \<Rightarrow> bool" where
  "ref_matches RefNothing ls = False"
| "ref_matches (RefSelector s) ls \<longleftrightarrow>
     list_all (\<lambda>(k, v). gm_get ls k = Some v) (gm_entries (ls_matchLabels s)) \<and>
     list_all (ref_requirement ls) (ls_matchExpressions s)"

fun ref_empty :: "ref_selector \<Rightarrow> bool" where
  "ref_empty RefNothing = False"
| "ref_empty (RefSelector s) \<longleftrightarrow>
     gm_entries (ls_matchLabels s) = [] \<and> ls_matchExpressions s = []"

fun ref_as_selector :: "label_selector ptr \<Rightarrow> ref_selector ptr \<times> string option" where
  "ref_as_selector NilP = (Ptr RefNothing, None)"
| "ref_as_selector (Ptr s) =
     (if list_all (\<lambda>r. ref_operator (req_operator r)) (ls_matchExpressions s)
      then (Ptr (RefSelector s), None) else (NilP, Some ''not a valid label selector operator''))"

fun ref_sum_requests :: "(string \<times> int) list \<Rightarrow> (string \<times> int) list \<Rightarrow> (string \<times> int) list" where
  "ref_sum_requests acc [] = acc"
| "ref_sum_requests acc ((n, q) # es) =
     ref_sum_requests (AList.update n (case map_of acc n of None \<Rightarrow> q | Some c \<Rightarrow> c + q) acc) es"

definition ref_pod_requests :: "int pod \<Rightarrow> int resource_list" where
  "ref_pod_requests p =
     Ptr (fold (\<lambda>c acc. ref_sum_requests acc (gm_entries (cont_requests c))) (spec_containers p) [])"

definition ref_priority :: "int pod \<Rightarrow> int32" where
  "ref_priority p = (case spec_priority p of NilP \<Rightarrow> 0 | Ptr v \<Rightarrow> v)"

definition ref_more_important :: "int pod \<Rightarrow> int pod \<Rightarrow> bool" where
  "ref_more_important a b \<longleftrightarrow> i32_less (ref_priority b) (ref_priority a) \<or>
     ref_priority a = ref_priority b \<and> status_startTime a < status_startTime b"

definition ref_cmp :: "int \<Rightarrow> int \<Rightarrow> int" where
  "ref_cmp a b = (if a < b then -1 else if a = b then 0 else 1)"

definition ref_qty_string :: "int \<Rightarrow> string" where
  "ref_qty_string q = (if q < 0 then ''-'' @ digits_of_nat (nat (- q)) else digits_of_nat (nat q)) @ ''m''"

definition ref_kube :: "(int, ref_selector, ref_map) kube" where
  "ref_kube = \<lparr>
     qty_Zero = 0, qty_Add = (+), qty_Sub = (-), qty_Cmp = ref_cmp, qty_Equal = (=),
     qty_DeepCopy = (\<lambda>q. q), qty_String = ref_qty_string, NewQuantity = (\<lambda>n. n * 1000),
     PodRequests = ref_pod_requests, PodPriority = ref_priority,
     MoreImportantPod = ref_more_important,
     LabelSelectorAsSelector = ref_as_selector, sel_Matches = ref_matches,
     sel_Empty = ref_empty, labels_Nothing = RefNothing,
     imm_New = [], imm_Get = map_of, imm_Set = (\<lambda>m u p. AList.update u p m),
     imm_Delete = (\<lambda>m u. AList.delete u m),
     imm_Values = (\<lambda>m. map snd (AList.clearjunk m)), imm_Len = (\<lambda>m. length (AList.clearjunk m))\<rparr>"

definition ref_amount :: "int \<Rightarrow> rat" where
  "ref_amount q = of_int q / 1000"

definition ref_pod :: "string \<Rightarrow> string \<Rightarrow> int32 \<Rightarrow> int \<Rightarrow> ref_pod" where
  "ref_pod name queue prio cpu = \<lparr>
     pod_name = name, pod_namespace = ''default'', pod_uid = name,
     pod_labels = Ptr [(''scheduling.kaschnit.github.io/queue'', queue)],
     pod_deletionTimestamp = NilP, spec_nodeName = '''', spec_schedulerName = '''',
     spec_priorityClassName = '''', spec_priority = Ptr prio, spec_preemptionPolicy = NilP,
     spec_containers = [\<lparr>cont_name = ''main'', cont_requests = Ptr [(''cpu'', cpu)]\<rparr>],
     status_phase = ''Pending'', status_conditions = [], status_nominatedNodeName = '''',
     status_startTime = 0\<rparr>"

section \<open>The laws hold of it\<close>

lemmas ref_defs = ref_kube_def ref_amount_def ref_cmp_def ref_priority_def ref_more_important_def
  ref_pod_requests_def ref_pod_def

lemma ref_kube_sel [simp]:
  "qty_Zero ref_kube = 0" "qty_Add ref_kube = (+)" "qty_Sub ref_kube = (-)"
  "qty_Cmp ref_kube = ref_cmp" "qty_Equal ref_kube = (=)" "qty_DeepCopy ref_kube = (\<lambda>q. q)"
  "NewQuantity ref_kube = (\<lambda>n. n * 1000)" "PodRequests ref_kube = ref_pod_requests"
  "PodPriority ref_kube = ref_priority" "MoreImportantPod ref_kube = ref_more_important"
  "LabelSelectorAsSelector ref_kube = ref_as_selector" "sel_Matches ref_kube = ref_matches"
  "sel_Empty ref_kube = ref_empty" "labels_Nothing ref_kube = RefNothing"
  "imm_New ref_kube = []" "imm_Get ref_kube = map_of"
  "imm_Set ref_kube = (\<lambda>m u p. AList.update u p m)"
  "imm_Delete ref_kube = (\<lambda>m u. AList.delete u m)"
  "imm_Values ref_kube = (\<lambda>m. map snd (AList.clearjunk m))"
  "imm_Len ref_kube = (\<lambda>m. length (AList.clearjunk m))"
  "qty_String ref_kube = ref_qty_string"
  by (simp_all add: ref_kube_def)

lemma distinct_ref_sum_requests:
  "distinct (map fst acc) \<Longrightarrow> distinct (map fst (ref_sum_requests acc es))"
  by (induction acc es rule: ref_sum_requests.induct) (auto simp: distinct_update)

lemma gm_wf_ref_pod_requests: "gm_wf (ref_pod_requests p)"
proof -
  have "distinct (map fst acc) \<Longrightarrow>
      distinct (map fst (fold (\<lambda>c acc. ref_sum_requests acc (gm_entries (cont_requests c))) cs acc))"
    for cs :: "int container list" and acc
    by (induction cs arbitrary: acc) (auto simp: distinct_ref_sum_requests)
  then show ?thesis by (simp add: ref_pod_requests_def gm_wf_Ptr)
qed

interpretation ref_quantity: quantity ref_kube ref_amount
  by unfold_locales (auto simp: ref_amount_def ref_cmp_def diff_divide_distrib add_divide_distrib
      divide_strict_right_mono)

interpretation ref_immut: immut_map ref_kube
proof
  fix m :: ref_map
  show "set (imm_Values ref_kube m) = ran (imm_Get ref_kube m)"
    using ran_distinct [OF distinct_clearjunk [of m]] by (simp add: map_of_clearjunk)
  show "imm_Len ref_kube m = card (dom (imm_Get ref_kube m))"
    using distinct_card [OF distinct_clearjunk [of m]] dom_clearjunk [of m]
    by (simp add: dom_map_of_conv_image_fst)
qed (auto simp: update_conv' delete_conv' finite_dom_map_of)

interpretation ref_requests: pod_requests ref_kube
  by unfold_locales (simp add: ref_pod_requests_def, simp add: gm_wf_ref_pod_requests)

interpretation ref_importance: pod_importance ref_kube status_startTime
  by unfold_locales (simp add: ref_more_important_def)

interpretation ref_selectors: label_selectors ref_kube
proof
  fix s :: label_selector
  assume "gm_entries (ls_matchLabels s) = []" and "ls_matchExpressions s = []"
  then have "ref_as_selector (Ptr s) = (Ptr (RefSelector s), None)"
    and "\<forall>ls. ref_matches (RefSelector s) ls" by simp_all
  then show "\<exists>e. LabelSelectorAsSelector ref_kube (Ptr s) = (Ptr e, None) \<and>
      (\<forall>ls. sel_Matches ref_kube e ls)" by auto
next
  fix s :: "label_selector ptr"
  assume "snd (LabelSelectorAsSelector ref_kube s) = None"
  then show "fst (LabelSelectorAsSelector ref_kube s) \<noteq> NilP"
    by (cases s) (auto split: if_splits)
qed auto

interpretation ref_laws: kube_laws ref_kube ref_amount
  by unfold_locales

end
