(* ===== verification/Resources.thy ===== *)
theory Resources
  imports RefKube
begin

text \<open>
  \<^verbatim>\<open>internal/alloc/resource.go\<close>: named resource quantities, their arithmetic and their
  comparisons.

  A \<open>resources\<close> value is a Go map from resource names to quantities. Methods that mutate their
  receiver return it; writing to a nil receiver panics. The abstraction is \<open>res_amount\<close>, the
  vector of amounts with 0 for the names that are absent: the lemmas say what each operation
  does to it. Logging, \<^verbatim>\<open>ToFrameworkResource\<close> (a conversion into a type of the scheduler
  framework) and the copy-on-write representation of large quantities are not modelled.
\<close>

type_synonym 'q resources = "(string, 'q) gomap"

definition ResourceNameCPU :: string where
  "ResourceNameCPU = ''cpu''"

definition ResourceNameMemory :: string where
  "ResourceNameMemory = ''memory''"

definition ResourceNamePods :: string where
  "ResourceNamePods = ''pods''"

text \<open>Reading a name that is absent gives the zero value of a quantity.\<close>

definition res_get :: "('q, 's, 'm) kube \<Rightarrow> 'q resources \<Rightarrow> string \<Rightarrow> 'q" where
  "res_get K r name = (case gm_get r name of None \<Rightarrow> qty_Zero K | Some q \<Rightarrow> q)"

definition res_or_make :: "'q resources \<Rightarrow> 'q resources" where
  "res_or_make r = (if is_nil r then gm_make else r)"

section \<open>Conversions\<close>

definition FromResourceList :: "('q, 's, 'm) kube \<Rightarrow> 'q resource_list \<Rightarrow> 'q resources" where
  "FromResourceList K rl =
     Ptr (fold (\<lambda>(name, qty). AList.update name (qty_DeepCopy K qty)) (gm_entries rl) [])"

definition FromPodReq :: "('q, 's, 'm) kube \<Rightarrow> 'q pod ptr \<Rightarrow> 'q resources option" where
  "FromPodReq K pod = (case pod of
     NilP \<Rightarrow> Some gm_make
   | Ptr p \<Rightarrow> do {
       rl \<leftarrow> gm_set (PodRequests K p) ResourceNamePods (NewQuantity K 1);
       Some (FromResourceList K rl) })"

definition FromNodeAllocatable :: "('q, 's, 'm) kube \<Rightarrow> 'q node ptr \<Rightarrow> 'q resources" where
  "FromNodeAllocatable K node = (case node of
     NilP \<Rightarrow> gm_make
   | Ptr n \<Rightarrow> FromResourceList K (node_allocatable n))"

definition Resources_Clone :: "('q, 's, 'm) kube \<Rightarrow> 'q resources \<Rightarrow> 'q resources" where
  "Resources_Clone K r = (case r of
     NilP \<Rightarrow> NilP
   | Ptr es \<Rightarrow> Ptr (fold (\<lambda>(name, qty). AList.update name (qty_DeepCopy K qty)) es []))"

definition Resources_ToResourceList :: "('q, 's, 'm) kube \<Rightarrow> 'q resources \<Rightarrow> 'q resource_list" where
  "Resources_ToResourceList K r = (case r of
     NilP \<Rightarrow> NilP
   | Ptr es \<Rightarrow> Ptr (fold (\<lambda>(name, qty). AList.update name (qty_DeepCopy K qty)) es []))"

text \<open>\<open>NewResource\<close> stands for the framework's constructor of the same name.\<close>

definition Resources_ToFrameworkResource :: "('q, 's, 'm) kube \<Rightarrow> ('q resource_list \<Rightarrow> 'r) \<Rightarrow> 'q resources \<Rightarrow> 'r ptr" where
  "Resources_ToFrameworkResource K NewResource r =
     (if is_nil r then NilP else Ptr (NewResource (Resources_ToResourceList K r)))"

section \<open>Mutating arithmetic\<close>

fun add_entry :: "('q, 's, 'm) kube \<Rightarrow> string \<times> 'q \<Rightarrow> 'q resources \<Rightarrow> 'q resources option" where
  "add_entry K (name, otherQty) r = (case gm_get r name of
     Some currentQty \<Rightarrow> gm_set r name (qty_Add K currentQty otherQty)
   | None \<Rightarrow> gm_set r name (qty_DeepCopy K otherQty))"

definition Resources_Add :: "('q, 's, 'm) kube \<Rightarrow> 'q resources \<Rightarrow> 'q resources \<Rightarrow> 'q resources option" where
  "Resources_Add K r other = (case other of
     NilP \<Rightarrow> Some r
   | Ptr es \<Rightarrow> for_each (add_entry K) es r)"

fun sub_entry :: "('q, 's, 'm) kube \<Rightarrow> string \<times> 'q \<Rightarrow> 'q resources \<Rightarrow> 'q resources option" where
  "sub_entry K (name, otherQty) r = (case gm_get r name of
     Some currentQty \<Rightarrow> gm_set r name (qty_Sub K currentQty otherQty)
   | None \<Rightarrow> gm_set r name (qty_DeepCopy K otherQty))"

definition Resources_Sub :: "('q, 's, 'm) kube \<Rightarrow> 'q resources \<Rightarrow> 'q resources \<Rightarrow> 'q resources option" where
  "Resources_Sub K r other = (case other of
     NilP \<Rightarrow> Some r
   | Ptr es \<Rightarrow> for_each (sub_entry K) es r)"

fun negate_entry :: "('q, 's, 'm) kube \<Rightarrow> string \<times> 'q \<Rightarrow> 'q resources \<Rightarrow> 'q resources option" where
  "negate_entry K (k, q) r = gm_set r k (qty_Sub K (qty_Zero K) q)"

definition Resources_Negate :: "('q, 's, 'm) kube \<Rightarrow> 'q resources \<Rightarrow> 'q resources option" where
  "Resources_Negate K r = for_each (negate_entry K) (gm_entries r) r"

definition Resources_SetIfNotPresent :: "'q resources \<Rightarrow> string \<Rightarrow> 'q \<Rightarrow> 'q resources option" where
  "Resources_SetIfNotPresent r name qty = (case gm_get r name of
     None \<Rightarrow> gm_set r name qty
   | Some _ \<Rightarrow> Some r)"

fun min_entry :: "('q, 's, 'm) kube \<Rightarrow> string \<times> 'q \<Rightarrow> 'q resources \<Rightarrow> 'q resources option" where
  "min_entry K (name, maxQty) r =
     (if qty_Cmp K maxQty (res_get K r name) < 0 then gm_set r name (qty_DeepCopy K maxQty) else Some r)"

definition Resources_SetMinExisting :: "('q, 's, 'm) kube \<Rightarrow> 'q resources \<Rightarrow> 'q resources \<Rightarrow> 'q resources option" where
  "Resources_SetMinExisting K r other = for_each (min_entry K) (gm_entries other) r"

section \<open>Non-mutating arithmetic\<close>

definition Resources_TakeMinExisting :: "('q, 's, 'm) kube \<Rightarrow> 'q resources \<Rightarrow> 'q resources \<Rightarrow> 'q resources option" where
  "Resources_TakeMinExisting K r other = Resources_SetMinExisting K (Resources_Clone K r) other"

definition Resources_Plus :: "('q, 's, 'm) kube \<Rightarrow> 'q resources \<Rightarrow> 'q resources \<Rightarrow> 'q resources option" where
  "Resources_Plus K r other =
     (if is_nil r then Some (Resources_Clone K other)
      else Resources_Add K (Resources_Clone K r) other)"

definition Resources_Minus :: "('q, 's, 'm) kube \<Rightarrow> 'q resources \<Rightarrow> 'q resources \<Rightarrow> 'q resources option" where
  "Resources_Minus K r other =
     (if is_nil r then Some (Resources_Clone K other)
      else Resources_Sub K (Resources_Clone K r) other)"

definition Resources_Negated :: "('q, 's, 'm) kube \<Rightarrow> 'q resources \<Rightarrow> 'q resources option" where
  "Resources_Negated K r = Resources_Negate K (Resources_Clone K r)"

section \<open>Comparisons\<close>

text \<open>
  \<^verbatim>\<open>getResNames\<close> collects the names of several resource groups into a set, a Go map with
  empty values. A loop that returns \<^verbatim>\<open>false\<close> at the first entry that fails is \<open>list_all\<close>, one
  that returns \<^verbatim>\<open>true\<close> at the first that succeeds is \<open>list_ex\<close>.
\<close>

definition getResNames :: "'q resources list \<Rightarrow> (string, unit) gomap" where
  "getResNames resources = Ptr (fold (\<lambda>res names. case res of
     NilP \<Rightarrow> names
   | Ptr es \<Rightarrow> fold (\<lambda>(name, _). AList.update name ()) es names) resources [])"

definition Resources_AllGreater :: "('q, 's, 'm) kube \<Rightarrow> 'q resources \<Rightarrow> 'q resources \<Rightarrow> bool" where
  "Resources_AllGreater K r other =
     (let r = res_or_make r; other = res_or_make other in
      list_all (\<lambda>name. \<not> qty_Cmp K (res_get K r name) (res_get K other name) < 0)
        (gm_keys (getResNames [r, other])))"

definition Resources_AllGreaterIntersecting :: "('q, 's, 'm) kube \<Rightarrow> 'q resources \<Rightarrow> 'q resources \<Rightarrow> bool" where
  "Resources_AllGreaterIntersecting K r other =
     (let r = res_or_make r; other = res_or_make other in
      list_all (\<lambda>(name, qty). case gm_get other name of
          None \<Rightarrow> True | Some otherQty \<Rightarrow> \<not> qty_Cmp K qty otherQty < 0) (gm_entries r))"

definition Resources_AnyGreaterIntersecting :: "('q, 's, 'm) kube \<Rightarrow> 'q resources \<Rightarrow> 'q resources \<Rightarrow> bool" where
  "Resources_AnyGreaterIntersecting K r other =
     (let r = res_or_make r; other = res_or_make other in
      list_ex (\<lambda>(name, qty). case gm_get other name of
          None \<Rightarrow> False | Some otherQty \<Rightarrow> qty_Cmp K qty otherQty > 0) (gm_entries r))"

definition Resources_AllLess :: "('q, 's, 'm) kube \<Rightarrow> 'q resources \<Rightarrow> 'q resources \<Rightarrow> bool" where
  "Resources_AllLess K r other =
     (let r = res_or_make r; other = res_or_make other in
      list_all (\<lambda>name. \<not> qty_Cmp K (res_get K r name) (res_get K other name) < 0)
        (gm_keys (getResNames [r, other])))"

definition Resources_AllLessIntersecting :: "('q, 's, 'm) kube \<Rightarrow> 'q resources \<Rightarrow> 'q resources \<Rightarrow> bool" where
  "Resources_AllLessIntersecting K r other =
     (let r = res_or_make r; other = res_or_make other in
      list_all (\<lambda>(name, qty). case gm_get other name of
          None \<Rightarrow> True | Some otherQty \<Rightarrow> \<not> qty_Cmp K qty otherQty > 0) (gm_entries r))"

definition Resources_AnyLessIntersecting :: "('q, 's, 'm) kube \<Rightarrow> 'q resources \<Rightarrow> 'q resources \<Rightarrow> bool" where
  "Resources_AnyLessIntersecting K r other =
     (let r = res_or_make r; other = res_or_make other in
      list_ex (\<lambda>(name, qty). case gm_get other name of
          None \<Rightarrow> False | Some otherQty \<Rightarrow> qty_Cmp K qty otherQty < 0) (gm_entries r))"

definition Resources_Equal :: "('q, 's, 'm) kube \<Rightarrow> 'q resources \<Rightarrow> 'q resources \<Rightarrow> bool" where
  "Resources_Equal K r other =
     (let r = res_or_make r; other = res_or_make other in
      list_all (\<lambda>name. case gm_get r name of
          None \<Rightarrow> False
        | Some qty1 \<Rightarrow> (case gm_get other name of
              None \<Rightarrow> False
            | Some qty2 \<Rightarrow> qty_Equal K qty1 qty2)) (gm_keys (getResNames [r, other])))"

definition Resources_EqualIntersecting :: "('q, 's, 'm) kube \<Rightarrow> 'q resources \<Rightarrow> 'q resources \<Rightarrow> bool" where
  "Resources_EqualIntersecting K r other =
     (let other = res_or_make other in
      list_all (\<lambda>(name, qty). case gm_get other name of
          None \<Rightarrow> True | Some otherQty \<Rightarrow> qty_Equal K qty otherQty) (gm_entries r))"

definition Resources_Equivalent :: "('q, 's, 'm) kube \<Rightarrow> 'q resources \<Rightarrow> 'q resources \<Rightarrow> bool" where
  "Resources_Equivalent K r other =
     (let r = res_or_make r; other = res_or_make other in
      list_all (\<lambda>name. qty_Equal K (res_get K r name) (res_get K other name))
        (gm_keys (getResNames [r, other])))"

section \<open>Printing\<close>

definition Resources_String :: "('q, 's, 'm) kube \<Rightarrow> 'q resources \<Rightarrow> string" where
  "Resources_String K r =
     (let names = SortFunc cmp_Compare (gm_keys r) in
      ''{'' @ strings_Join (map (\<lambda>name. name @ '': '' @ qty_String K (res_get K r name)) names) '', '' @ ''}'')"

section \<open>The vector of amounts\<close>

definition res_amount :: "('q \<Rightarrow> rat) \<Rightarrow> 'q resources \<Rightarrow> string \<Rightarrow> rat" where
  "res_amount amount r name = (case gm_get r name of None \<Rightarrow> 0 | Some q \<Rightarrow> amount q)"


text \<open>What a pod counts for: its requests, and one of the resource \<^verbatim>\<open>pods\<close>.\<close>

definition pod_req :: "('q, 's, 'm) kube \<Rightarrow> ('q \<Rightarrow> rat) \<Rightarrow> 'q pod \<Rightarrow> string \<Rightarrow> rat" where
  "pod_req K amount p n = (if n = ResourceNamePods then 1 else res_amount amount (PodRequests K p) n)"

definition pod_req_names :: "('q, 's, 'm) kube \<Rightarrow> 'q pod \<Rightarrow> string set" where
  "pod_req_names K p = insert ResourceNamePods (gm_dom (PodRequests K p))"

section \<open>Lemmas that hold of any quantity\<close>

lemma res_amount_nil [simp]: "res_amount amount NilP n = 0"
  by (simp add: res_amount_def)

lemma res_amount_make [simp]: "res_amount amount gm_make n = 0"
  by (simp add: res_amount_def)

lemma res_amount_absent: "n \<notin> gm_dom r \<Longrightarrow> res_amount amount r n = 0"
  by (simp add: res_amount_def gm_dom_iff)

lemma gm_get_or_make [simp]: "gm_get (res_or_make r) = gm_get r"
  by (cases r) (auto simp: res_or_make_def gm_make_def)

lemma gm_entries_or_make [simp]: "gm_entries (res_or_make r) = gm_entries r"
  by (cases r) (auto simp: res_or_make_def gm_make_def)

lemma gm_dom_or_make [simp]: "gm_dom (res_or_make r) = gm_dom r"
  by (auto simp: gm_dom_iff)

lemma res_get_or_make [simp]: "res_get K (res_or_make r) = res_get K r"
  by (rule ext) (simp add: res_get_def)

lemma res_amount_or_make [simp]: "res_amount amount (res_or_make r) = res_amount amount r"
  by (rule ext) (simp add: res_amount_def)

lemma gm_dom_getResNames: "gm_dom (getResNames rs) = (\<Union>r\<in>set rs. gm_dom r)"
proof -
  have inner: "fst ` set (fold (\<lambda>(name, _). AList.update name ()) es acc) = fst ` set es \<union> fst ` set acc"
    for es :: "(string \<times> 'a) list" and acc :: "(string \<times> unit) list"
  proof (induction es arbitrary: acc)
    case (Cons e es)
    show ?case by (cases e) (simp add: Cons.IH dom_update)
  qed simp
  have "fst ` set (fold (\<lambda>res names. case res of NilP \<Rightarrow> names
      | Ptr es \<Rightarrow> fold (\<lambda>(name, _). AList.update name ()) es names) rs acc)
      = (\<Union>r\<in>set rs. gm_dom r) \<union> fst ` set acc" for acc
  proof (induction rs arbitrary: acc)
    case Nil
    then show ?case by simp
  next
    case (Cons r rs)
    then show ?case
      by (cases r) (auto simp: inner gm_dom_def gm_keys_def)
  qed
  then show ?thesis
    by (simp add: getResNames_def gm_dom_def gm_keys_def)
qed

lemma list_all_ResNames:
  "list_all P (gm_keys (getResNames [res_or_make r, res_or_make other]))
    \<longleftrightarrow> (\<forall>n \<in> gm_dom r \<union> gm_dom other. P n)"
  by (simp add: list_all_iff gm_dom_getResNames)

lemma list_all_entries:
  "gm_wf r \<Longrightarrow> list_all P (gm_entries r) \<longleftrightarrow> (\<forall>n q. gm_get r n = Some q \<longrightarrow> P (n, q))"
  by (auto simp: list_all_iff gm_entries_get)

lemma list_ex_entries:
  "gm_wf r \<Longrightarrow> list_ex P (gm_entries r) \<longleftrightarrow> (\<exists>n q. gm_get r n = Some q \<and> P (n, q))"
  by (force simp: list_ex_iff gm_entries_get)

text \<open>The loops over the names both operands have.\<close>

lemma list_ex_common:
  "gm_wf r \<Longrightarrow> list_ex (\<lambda>(n, q). case gm_get other n of None \<Rightarrow> False | Some w \<Rightarrow> P q w) (gm_entries r)
    \<longleftrightarrow> (\<exists>n q w. gm_get r n = Some q \<and> gm_get other n = Some w \<and> P q w)"
  by (auto simp: list_ex_entries split: option.splits)

lemma list_all_common:
  "gm_wf r \<Longrightarrow> list_all (\<lambda>(n, q). case gm_get other n of None \<Rightarrow> True | Some w \<Rightarrow> P q w) (gm_entries r)
    \<longleftrightarrow> (\<forall>n q w. gm_get r n = Some q \<longrightarrow> gm_get other n = Some w \<longrightarrow> P q w)"
  by (simp add: list_all_entries split: option.splits) blast

lemma common_amounts:
  "(\<exists>n q. gm_get r n = Some q \<and> (\<exists>w. gm_get other n = Some w \<and> R (amount q) (amount w)))
    \<longleftrightarrow> (\<exists>n \<in> gm_dom r \<inter> gm_dom other. R (res_amount amount r n) (res_amount amount other n))"
  (is "?L \<longleftrightarrow> ?R")
proof
  assume ?L
  then obtain n q w where "gm_get r n = Some q" "gm_get other n = Some w" "R (amount q) (amount w)"
    by blast
  then show ?R by (intro bexI [of _ n]) (simp_all add: res_amount_def gm_dom_iff)
next
  assume ?R
  then obtain n where "n \<in> gm_dom r" "n \<in> gm_dom other"
      "R (res_amount amount r n) (res_amount amount other n)" by blast
  then show ?L by (intro exI [of _ n]) (auto simp: res_amount_def gm_dom_iff)
qed

lemma gm_wf_FromResourceList [wf_intros, simp]: "gm_wf (FromResourceList K rl)"
  by (simp add: FromResourceList_def gm_wf_Ptr distinct_fold_update)

lemma FromResourceList_not_nil [simp]: "FromResourceList K rl \<noteq> NilP"
  by (simp add: FromResourceList_def)

section \<open>Lemmas from the laws of quantities\<close>

context quantity
begin

lemma copy_entries:
  "distinct (map fst es) \<Longrightarrow>
     fold (\<lambda>(name, qty). AList.update name (qty_DeepCopy K qty)) es [] = es"
  by (subst fold_update_copy) (simp_all add: DeepCopy_id)

lemma Clone_eq: "gm_wf r \<Longrightarrow> Resources_Clone K r = r"
  by (cases r) (simp_all add: Resources_Clone_def gm_wf_Ptr copy_entries)

lemma ToResourceList_eq: "gm_wf r \<Longrightarrow> Resources_ToResourceList K r = r"
  by (cases r) (simp_all add: Resources_ToResourceList_def gm_wf_Ptr copy_entries)

lemma FromResourceList_eq: "gm_wf rl \<Longrightarrow> FromResourceList K rl = Ptr (gm_entries rl)"
  by (cases rl) (simp_all add: FromResourceList_def gm_wf_Ptr copy_entries)

lemma get_FromResourceList: "gm_wf rl \<Longrightarrow> gm_get (FromResourceList K rl) n = gm_get rl n"
  by (cases rl) (simp_all add: FromResourceList_eq)

lemma amount_res_get: "amount (res_get K r n) = res_amount amount r n"
  by (simp add: res_get_def res_amount_def amount_Zero split: option.split)

text \<open>Addition is the sum of the vectors, on the union of the names.\<close>

lemma Add_result:
  assumes "gm_wf other" and "r \<noteq> NilP"
  shows "\<exists>r'. Resources_Add K r other = Some r' \<and> r' \<noteq> NilP \<and> (gm_wf r \<longrightarrow> gm_wf r') \<and>
    gm_dom r' = gm_dom r \<union> gm_dom other \<and>
    (\<forall>n. res_amount amount r' n = res_amount amount r n + res_amount amount other n)"
proof -
  define g where "g = (\<lambda>(k :: string) cur q. Some (case cur of Some c \<Rightarrow> qty_Add K c q | None \<Rightarrow> q))"
  have add: "Resources_Add K r other = for_each (add_entry K) (gm_entries other) r"
    by (cases other) (simp_all add: Resources_Add_def)
  have body: "add_entry K (k, v) r =
      (case g k (gm_get r k) v of None \<Rightarrow> Some r | Some w \<Rightarrow> gm_set r k w)" for k v r
    by (simp add: g_def DeepCopy_id split: option.split)
  from for_each_merge_map [OF assms body] obtain r' where r': "for_each (add_entry K) (gm_entries other) r = Some r'" "r' \<noteq> NilP"
      "gm_wf r \<longrightarrow> gm_wf r'"
    and get: "\<forall>n. gm_get r' n = (case gm_get other n of None \<Rightarrow> gm_get r n
        | Some v \<Rightarrow> (case g n (gm_get r n) v of None \<Rightarrow> gm_get r n | Some w \<Rightarrow> Some w))"
    by blast
  have "res_amount amount r' n = res_amount amount r n + res_amount amount other n" for n
    by (simp add: res_amount_def get g_def amount_simps split: option.split)
  moreover have "gm_dom r' = gm_dom r \<union> gm_dom other"
    by (auto simp: gm_dom_iff get g_def split: option.splits)
  ultimately show ?thesis using r' add by auto
qed

text \<open>
  Subtraction is the difference of the vectors only on the names the receiver has; a name it
  lacks gets the other's amount itself.
\<close>

lemma Sub_result:
  assumes "gm_wf other" and "r \<noteq> NilP"
  shows "\<exists>r'. Resources_Sub K r other = Some r' \<and> r' \<noteq> NilP \<and> (gm_wf r \<longrightarrow> gm_wf r') \<and>
    gm_dom r' = gm_dom r \<union> gm_dom other \<and>
    (\<forall>n. res_amount amount r' n =
      (if n \<in> gm_dom r then res_amount amount r n - res_amount amount other n
       else res_amount amount other n))"
proof -
  define g where "g = (\<lambda>(k :: string) cur q. Some (case cur of Some c \<Rightarrow> qty_Sub K c q | None \<Rightarrow> q))"
  have sub: "Resources_Sub K r other = for_each (sub_entry K) (gm_entries other) r"
    by (cases other) (simp_all add: Resources_Sub_def)
  have body: "sub_entry K (k, v) r =
      (case g k (gm_get r k) v of None \<Rightarrow> Some r | Some w \<Rightarrow> gm_set r k w)" for k v r
    by (simp add: g_def DeepCopy_id split: option.split)
  from for_each_merge_map [OF assms body] obtain r' where r': "for_each (sub_entry K) (gm_entries other) r = Some r'" "r' \<noteq> NilP"
      "gm_wf r \<longrightarrow> gm_wf r'"
    and get: "\<forall>n. gm_get r' n = (case gm_get other n of None \<Rightarrow> gm_get r n
        | Some v \<Rightarrow> (case g n (gm_get r n) v of None \<Rightarrow> gm_get r n | Some w \<Rightarrow> Some w))"
    by blast
  have "res_amount amount r' n =
      (if n \<in> gm_dom r then res_amount amount r n - res_amount amount other n
       else res_amount amount other n)" for n
    by (simp add: res_amount_def get g_def amount_simps gm_dom_iff split: option.split)
  moreover have "gm_dom r' = gm_dom r \<union> gm_dom other"
    by (auto simp: gm_dom_iff get g_def split: option.splits)
  ultimately show ?thesis using r' sub by auto
qed

lemma Plus_result:
  assumes "gm_wf r" and "gm_wf other"
  shows "\<exists>r'. Resources_Plus K r other = Some r' \<and> gm_wf r' \<and>
    gm_dom r' = gm_dom r \<union> gm_dom other \<and>
    (\<forall>n. res_amount amount r' n = res_amount amount r n + res_amount amount other n)"
proof (cases r)
  case NilP
  then show ?thesis
    using assms by (simp add: Resources_Plus_def Clone_eq gm_dom_def gm_keys_def)
next
  case (Ptr es)
  then show ?thesis
    using Add_result [OF assms(2), of r] assms by (auto simp: Resources_Plus_def Clone_eq)
qed

lemma Minus_result:
  assumes "gm_wf r" and "gm_wf other"
  shows "\<exists>r'. Resources_Minus K r other = Some r' \<and> gm_wf r' \<and>
    gm_dom r' = gm_dom r \<union> gm_dom other \<and>
    (\<forall>n. res_amount amount r' n =
      (if n \<in> gm_dom r then res_amount amount r n - res_amount amount other n
       else res_amount amount other n))"
proof (cases r)
  case NilP
  then show ?thesis
    using assms by (simp add: Resources_Minus_def Clone_eq gm_dom_def gm_keys_def)
next
  case (Ptr es)
  then show ?thesis
    using Sub_result [OF assms(2), of r] assms by (auto simp: Resources_Minus_def Clone_eq)
qed

lemma Negated_result:
  assumes "gm_wf r"
  shows "\<exists>r'. Resources_Negated K r = Some r' \<and> gm_wf r' \<and> gm_dom r' = gm_dom r \<and>
    (\<forall>n. res_amount amount r' n = - res_amount amount r n)"
proof (cases r)
  case NilP
  then show ?thesis
    by (simp add: Resources_Negated_def Resources_Negate_def Clone_eq)
next
  case (Ptr es)
  define g where "g = (\<lambda>(k :: string) (cur :: 'q option) q. Some (qty_Sub K (qty_Zero K) q))"
  have body: "negate_entry K (k, v) r =
      (case g k (gm_get r k) v of None \<Rightarrow> Some r | Some w \<Rightarrow> gm_set r k w)" for k v r
    by (simp add: g_def)
  have "r \<noteq> NilP" using Ptr by simp
  from for_each_merge_map [OF assms this body]
  obtain r' where r': "for_each (negate_entry K) (gm_entries r) r = Some r'" "gm_wf r'"
    and get0: "\<forall>n. gm_get r' n = (case gm_get r n of None \<Rightarrow> gm_get r n
        | Some v \<Rightarrow> (case g n (gm_get r n) v of None \<Rightarrow> gm_get r n | Some w \<Rightarrow> Some w))"
    using assms by blast
  have get: "gm_get r' n = map_option (qty_Sub K (qty_Zero K)) (gm_get r n)" for n
    by (simp add: get0 g_def split: option.split)
  have "\<forall>n. res_amount amount r' n = - res_amount amount r n"
    by (simp add: res_amount_def get amount_simps split: option.split)
  moreover have "gm_dom r' = gm_dom r"
    by (auto simp: gm_dom_iff get)
  ultimately show ?thesis
    using r' assms by (simp add: Resources_Negated_def Resources_Negate_def Clone_eq)
qed

text \<open>
  \<^verbatim>\<open>TakeMinExisting\<close> takes the minimum on every name of the other operand; a name the receiver
  lacks counts as 0, so it appears in the result exactly when the other's amount is negative.
\<close>

lemma SetMinExisting_result:
  assumes "gm_wf other" and "r \<noteq> NilP"
  shows "\<exists>r'. Resources_SetMinExisting K r other = Some r' \<and> r' \<noteq> NilP \<and> (gm_wf r \<longrightarrow> gm_wf r') \<and>
    gm_dom r' = gm_dom r \<union> {n \<in> gm_dom other. res_amount amount other n < 0} \<and>
    (\<forall>n. res_amount amount r' n =
      (if n \<in> gm_dom other then min (res_amount amount r n) (res_amount amount other n)
       else res_amount amount r n))"
proof -
  define g where "g = (\<lambda>(k :: string) cur q.
    if qty_Cmp K q (case cur of None \<Rightarrow> qty_Zero K | Some c \<Rightarrow> c) < 0 then Some q else None)"
  have body: "min_entry K (k, v) r =
      (case g k (gm_get r k) v of None \<Rightarrow> Some r | Some w \<Rightarrow> gm_set r k w)" for k v r
    by (simp add: g_def DeepCopy_id res_get_def split: option.split)
  from for_each_merge_map [OF assms body] obtain r' where r': "for_each (min_entry K) (gm_entries other) r = Some r'" "r' \<noteq> NilP"
      "gm_wf r \<longrightarrow> gm_wf r'"
    and get: "\<forall>n. gm_get r' n = (case gm_get other n of None \<Rightarrow> gm_get r n
        | Some v \<Rightarrow> (case g n (gm_get r n) v of None \<Rightarrow> gm_get r n | Some w \<Rightarrow> Some w))"
    by blast
  have "res_amount amount r' n =
      (if n \<in> gm_dom other then min (res_amount amount r n) (res_amount amount other n)
       else res_amount amount r n)" for n
    by (simp add: res_amount_def get g_def amount_simps gm_dom_iff split: option.split)
  moreover have "gm_dom r' = gm_dom r \<union> {n \<in> gm_dom other. res_amount amount other n < 0}"
    by (auto simp: gm_dom_iff get g_def res_amount_def amount_simps split: option.splits if_splits)
  ultimately show ?thesis using r' by (auto simp: Resources_SetMinExisting_def)
qed

lemma TakeMinExisting_result:
  assumes "gm_wf r" and "gm_wf other" and "r \<noteq> NilP"
  shows "\<exists>r'. Resources_TakeMinExisting K r other = Some r' \<and> gm_wf r' \<and>
    gm_dom r' = gm_dom r \<union> {n \<in> gm_dom other. res_amount amount other n < 0} \<and>
    (\<forall>n. res_amount amount r' n =
      (if n \<in> gm_dom other then min (res_amount amount r n) (res_amount amount other n)
       else res_amount amount r n))"
  using SetMinExisting_result [OF assms(2,3)] assms(1)
  by (auto simp: Resources_TakeMinExisting_def Clone_eq)

text \<open>The comparisons, as quantifiers over the names.\<close>

lemma AllGreater_iff:
  "Resources_AllGreater K r other \<longleftrightarrow> (\<forall>n. res_amount amount other n \<le> res_amount amount r n)"
  by (auto simp: Resources_AllGreater_def list_all_ResNames amount_simps amount_res_get not_less)
    (metis UnCI order_refl res_amount_absent)

lemma AnyGreaterIntersecting_iff:
  "gm_wf r \<Longrightarrow> Resources_AnyGreaterIntersecting K r other \<longleftrightarrow>
     (\<exists>n \<in> gm_dom r \<inter> gm_dom other. res_amount amount other n < res_amount amount r n)"
  by (simp add: Resources_AnyGreaterIntersecting_def list_ex_common amount_simps
      common_amounts [where R = "\<lambda>a b. b < a"])

lemma AnyLessIntersecting_iff:
  "gm_wf r \<Longrightarrow> Resources_AnyLessIntersecting K r other \<longleftrightarrow>
     (\<exists>n \<in> gm_dom r \<inter> gm_dom other. res_amount amount r n < res_amount amount other n)"
  by (simp add: Resources_AnyLessIntersecting_def list_ex_common amount_simps
      common_amounts [where R = "\<lambda>a b. a < b"])

lemma AllGreaterIntersecting_iff:
  "gm_wf r \<Longrightarrow> Resources_AllGreaterIntersecting K r other \<longleftrightarrow> \<not> Resources_AnyLessIntersecting K r other"
  by (simp add: Resources_AllGreaterIntersecting_def Resources_AnyLessIntersecting_def
      list_ex_common list_all_common)

lemma AllLessIntersecting_iff:
  "gm_wf r \<Longrightarrow> Resources_AllLessIntersecting K r other \<longleftrightarrow> \<not> Resources_AnyGreaterIntersecting K r other"
  by (simp add: Resources_AllLessIntersecting_def Resources_AnyGreaterIntersecting_def
      list_ex_common list_all_common)

lemma Equivalent_iff:
  "Resources_Equivalent K r other \<longleftrightarrow> (\<forall>n. res_amount amount r n = res_amount amount other n)"
  by (auto simp: Resources_Equivalent_def list_all_ResNames amount_simps amount_res_get)
    (metis UnCI res_amount_absent)

lemma Equal_iff:
  "Resources_Equal K r other \<longleftrightarrow> gm_dom r = gm_dom other \<and> Resources_Equivalent K r other"
proof -
  have "Resources_Equal K r other \<longleftrightarrow>
      (\<forall>n \<in> gm_dom r \<union> gm_dom other. n \<in> gm_dom r \<and> n \<in> gm_dom other \<and>
        res_amount amount r n = res_amount amount other n)"
    unfolding Resources_Equal_def Let_def list_all_ResNames
    by (rule ball_cong) (simp_all add: Equal_amount res_amount_def gm_dom_iff split: option.split)
  also have "\<dots> \<longleftrightarrow> gm_dom r = gm_dom other \<and> (\<forall>n. res_amount amount r n = res_amount amount other n)"
    (is "?L \<longleftrightarrow> ?R")
  proof
    assume l: ?L
    then have d: "gm_dom r = gm_dom other" by blast
    have "res_amount amount r n = res_amount amount other n" for n
      using l d by (cases "n \<in> gm_dom r") (simp_all add: res_amount_absent)
    with d show ?R by blast
  qed simp
  finally show ?thesis by (simp add: Equivalent_iff)
qed

end


context kube_laws
begin

lemma FromPodReq_result:
  "\<exists>r. FromPodReq K (Ptr p) = Some r \<and> r \<noteq> NilP \<and> gm_wf r \<and> gm_dom r = pod_req_names K p \<and>
    (\<forall>n. res_amount amount r n = pod_req K amount p n)"
proof -
  obtain rl where rl: "gm_set (PodRequests K p) ResourceNamePods (NewQuantity K 1) = Some rl"
    using gm_set_defined [OF PodRequests_not_nil] by blast
  then have wf: "gm_wf rl" by (rule gm_wf_set) (rule PodRequests_wf)
  have "FromPodReq K (Ptr p) = Some (FromResourceList K rl)"
    by (simp add: FromPodReq_def rl)
  moreover have "gm_get (FromResourceList K rl) n = gm_get rl n" for n
    by (rule get_FromResourceList [OF wf])
  then have "gm_dom (FromResourceList K rl) = pod_req_names K p"
      "res_amount amount (FromResourceList K rl) n = pod_req K amount p n" for n
    using gm_dom_set [OF rl] gm_get_set [OF rl]
    by (auto simp: gm_dom_iff pod_req_names_def pod_req_def res_amount_def amount_simps
        split: option.splits)
  ultimately show ?thesis by simp
qed

end

section \<open>Properties\<close>

text \<open>
  C38. \<^verbatim>\<open>Plus\<close> never panics and returns the sum: on every resource name the amount is the sum of
  the two amounts (an absent name, and a nil group, counting as 0), and the names of the result
  are the names of both.
\<close>

theorem Plus_is_vector_sum:
  assumes "quantity K amount" and "gm_wf r" and "gm_wf other"
  shows "\<exists>r'. Resources_Plus K r other = Some r' \<and> gm_wf r' \<and>
    gm_dom r' = gm_dom r \<union> gm_dom other \<and>
    (\<forall>n. res_amount amount r' n = res_amount amount r n + res_amount amount other n)"
  using quantity.Plus_result [OF assms] .

theorem Plus_is_vector_sum_witness:
  "\<exists>r'. Resources_Plus ref_kube (Ptr [(''cpu'', 1)]) (Ptr [(''cpu'', 5), (''memory'', 3000)]) = Some r' \<and>
    res_amount ref_amount r' ''cpu'' = 6 / 1000 \<and> res_amount ref_amount r' ''memory'' = 3"
proof -
  have wf: "gm_wf (Ptr [(''cpu'', 1 :: int)])" "gm_wf (Ptr [(''cpu'', 5 :: int), (''memory'', 3000)])"
    by (simp_all add: gm_wf_Ptr)
  show ?thesis
    using Plus_is_vector_sum [OF ref_quantity.quantity_axioms wf]
    by (elim exE conjE, intro exI conjI)
      (assumption, simp_all add: gm_dom_def gm_keys_def res_amount_def ref_amount_def)
qed

text \<open>
  \<^verbatim>\<open>TakeMinExisting\<close>, which the published effective maximum is computed with, takes the
  smaller amount on every resource the other group names and keeps the receiver's amount on the
  rest; a resource only the other group names appears exactly when its amount is negative.
\<close>

theorem TakeMinExisting_is_min:
  assumes "quantity K amount" and "gm_wf r" and "gm_wf other" and "r \<noteq> NilP"
  shows "\<exists>r'. Resources_TakeMinExisting K r other = Some r' \<and> gm_wf r' \<and>
    gm_dom r' = gm_dom r \<union> {n \<in> gm_dom other. res_amount amount other n < 0} \<and>
    (\<forall>n. res_amount amount r' n =
      (if n \<in> gm_dom other then min (res_amount amount r n) (res_amount amount other n)
       else res_amount amount r n))"
  using quantity.TakeMinExisting_result [OF assms] .

theorem TakeMinExisting_is_min_witness:
  "\<exists>r'. Resources_TakeMinExisting ref_kube (Ptr [(''cpu'', 4000), (''memory'', 9000)]) (Ptr [(''cpu'', 1000)]) = Some r' \<and>
    res_amount ref_amount r' ''cpu'' = 1 \<and> res_amount ref_amount r' ''memory'' = 9"
proof -
  have wf: "gm_wf (Ptr [(''cpu'', 4000 :: int), (''memory'', 9000)])" "gm_wf (Ptr [(''cpu'', 1000 :: int)])"
    by (simp_all add: gm_wf_Ptr)
  show ?thesis
    using TakeMinExisting_is_min [OF ref_quantity.quantity_axioms wf ptr.distinct(2)]
    by (elim exE conjE, intro exI conjI)
      (assumption, simp_all add: gm_dom_def gm_keys_def res_amount_def ref_amount_def)
qed

text \<open>
  C39. \<^verbatim>\<open>Equal\<close> holds exactly of groups with the same resource names and the same amounts, while
  \<^verbatim>\<open>Equivalent\<close> only compares amounts, an absent name counting as 0.
\<close>

theorem Equal_and_Equivalent:
  assumes "quantity K amount"
  shows "(Resources_Equal K r other \<longleftrightarrow> gm_dom r = gm_dom other \<and>
      (\<forall>n. res_amount amount r n = res_amount amount other n)) \<and>
    (Resources_Equivalent K r other \<longleftrightarrow> (\<forall>n. res_amount amount r n = res_amount amount other n))"
  using quantity.Equal_iff [OF assms, of r other] quantity.Equivalent_iff [OF assms, of r other] by simp

theorem Equal_and_Equivalent_witness:
  "\<not> Resources_Equal ref_kube (Ptr [(''cpu'', 0)]) NilP \<and> Resources_Equivalent ref_kube (Ptr [(''cpu'', 0)]) NilP"
  using Equal_and_Equivalent [OF ref_quantity.quantity_axioms, of "Ptr [(''cpu'', 0)]" NilP]
  by (simp add: gm_dom_def gm_keys_def res_amount_def ref_amount_def)

text \<open>
  \<^verbatim>\<open>Minus\<close> subtracts only on the resources the receiver names. On a resource only the other
  group names, the result has the other group's amount, not its negation; on a nil receiver the
  result is the other group.
\<close>

theorem Minus_adds_absent_names:
  assumes "quantity K amount" and "gm_wf r" and "gm_wf other"
  shows "\<exists>r'. Resources_Minus K r other = Some r' \<and>
    (\<forall>n. res_amount amount r' n =
      (if n \<in> gm_dom r then res_amount amount r n - res_amount amount other n
       else res_amount amount other n))"
  using quantity.Minus_result [OF assms] by blast

theorem Minus_adds_absent_names_witness:
  "\<exists>r'. Resources_Minus ref_kube (Ptr [(''cpu'', 3000)]) (Ptr [(''cpu'', 1000), (''memory'', 5000)]) = Some r' \<and>
    res_amount ref_amount r' ''cpu'' = 2 \<and> res_amount ref_amount r' ''memory'' = 5"
proof -
  have wf: "gm_wf (Ptr [(''cpu'', 3000 :: int)])" "gm_wf (Ptr [(''cpu'', 1000 :: int), (''memory'', 5000)])"
    by (simp_all add: gm_wf_Ptr)
  show ?thesis
    using Minus_adds_absent_names [OF ref_quantity.quantity_axioms wf]
    by (elim exE conjE, intro exI conjI)
      (assumption, simp_all add: gm_dom_def gm_keys_def res_amount_def ref_amount_def)
qed

text \<open>
  \<^verbatim>\<open>AllLess\<close> does not say that all amounts are less: it is the same test as \<^verbatim>\<open>AllGreater\<close>, and
  holds exactly when the receiver has at least the other's amount of every resource.
\<close>

theorem AllLess_is_AllGreater:
  assumes "quantity K amount"
  shows "Resources_AllLess K r other = Resources_AllGreater K r other \<and>
    (Resources_AllLess K r other \<longleftrightarrow> (\<forall>n. res_amount amount other n \<le> res_amount amount r n))"
  using quantity.AllGreater_iff [OF assms, of r other]
  by (simp add: Resources_AllLess_def Resources_AllGreater_def)

theorem AllLess_is_AllGreater_witness:
  "\<not> Resources_AllLess ref_kube (Ptr [(''cpu'', 1000)]) (Ptr [(''cpu'', 2000)])"
proof -
  have "\<not> (\<forall>n. res_amount ref_amount (Ptr [(''cpu'', 2000)]) n \<le> res_amount ref_amount (Ptr [(''cpu'', 1000)]) n)"
    by (auto intro!: exI [of _ "''cpu''"] simp: res_amount_def ref_amount_def)
  then show ?thesis
    using AllLess_is_AllGreater [OF ref_quantity.quantity_axioms, of "Ptr [(''cpu'', 1000)]" "Ptr [(''cpu'', 2000)]"]
    by blast
qed

end
