(* ===== verification/QueueApi.thy ===== *)
theory QueueApi
  imports Resources
begin

text \<open>
  \<^verbatim>\<open>apis/scheduling\<close>: the \<^verbatim>\<open>Queue\<close> custom resource, the label that assigns a pod to a queue, and
  the objects an informer may hand to an event handler.
\<close>

definition GroupName :: string where
  "GroupName = ''scheduling.kaschnit.github.io''"

definition LabelKeyQueue :: string where
  "LabelKeyQueue = GroupName @ ''/queue''"

record 'q quota_spec =
  qs_max :: "'q resource_list"

record preemption_rule_spec =
  prs_fromPods :: "label_selector ptr"
  prs_toPods :: "label_selector ptr"

record preemption_spec =
  ps_preempts :: preemption_rule_spec
  ps_preemptedBy :: preemption_rule_spec

record 'q queue_spec =
  spec_quota :: "'q quota_spec"
  spec_preemption :: preemption_spec

record 'q quota_status =
  qst_effectiveMax :: "'q resource_list"
  qst_used :: "'q resource_list"

record 'q queue_obj =
  qo_name :: string
  qo_labels :: labels
  qo_spec :: "'q queue_spec"
  qo_status :: "'q quota_status"

definition empty_selector :: label_selector where
  "empty_selector = \<lparr>ls_matchLabels = NilP, ls_matchExpressions = []\<rparr>"

definition PreemptionEverything :: preemption_rule_spec where
  "PreemptionEverything = \<lparr>prs_fromPods = Ptr empty_selector, prs_toPods = Ptr empty_selector\<rparr>"

definition PreemptionNothing :: preemption_rule_spec where
  "PreemptionNothing = \<lparr>prs_fromPods = NilP, prs_toPods = NilP\<rparr>"

text \<open>
  An event handler takes a value of type \<^verbatim>\<open>any\<close>: a pointer to an object of one of the types it
  may assert, or the tombstone \<^verbatim>\<open>cache.DeletedFinalStateUnknown\<close>, which carries the last known
  object. A failed type assertion yields the nil pointer.
\<close>

datatype 'q any_obj =
    AnyNode "'q node ptr"
  | AnyPod "'q pod ptr"
  | AnyQueue "'q queue_obj ptr"
  | DeletedFinalStateUnknown "'q any_obj"
  | AnyOther

fun as_node :: "'q any_obj \<Rightarrow> 'q node ptr" where
  "as_node (AnyNode n) = n"
| "as_node _ = NilP"

fun as_pod :: "'q any_obj \<Rightarrow> 'q pod ptr" where
  "as_pod (AnyPod p) = p"
| "as_pod _ = NilP"

fun as_queue :: "'q any_obj \<Rightarrow> 'q queue_obj ptr" where
  "as_queue (AnyQueue q) = q"
| "as_queue _ = NilP"

lemma LabelKeyQueue_eq: "LabelKeyQueue = ''scheduling.kaschnit.github.io/queue''"
  by (simp add: LabelKeyQueue_def GroupName_def)

end
