(* ===== verification/Pods.thy ===== *)
theory Pods
  imports QueueApi
begin

text \<open>
  \<^verbatim>\<open>internal/pods\<close>: building pods, comparing them by importance, and the predicates on a pod's
  phase, conditions and preemption policy.

  Pod phases, condition types and preemption policies are strings in the API, so that an unknown
  value takes the branch the code gives it. The comparison and \<^verbatim>\<open>HasCondition\<close> dereference their
  pods; they are defined on pods, and a caller that may hold a nil pointer dereferences it
  first.
\<close>

section \<open>builder.go\<close>

type_synonym 'q pod_option = "'q pod \<Rightarrow> 'q pod"

definition zero_pod :: "'q pod" where
  "zero_pod = \<lparr>pod_name = '''', pod_namespace = '''', pod_uid = '''', pod_labels = NilP,
     pod_deletionTimestamp = NilP, spec_nodeName = '''', spec_schedulerName = '''',
     spec_priorityClassName = '''', spec_priority = NilP, spec_preemptionPolicy = NilP,
     spec_containers = [], status_phase = '''', status_conditions = [],
     status_nominatedNodeName = '''', status_startTime = 0\<rparr>"

definition pods_New :: "string \<Rightarrow> 'q pod_option list \<Rightarrow> 'q pod" where
  "pods_New name opts = fold (\<lambda>opt p. opt p) opts (zero_pod\<lparr>pod_name := name\<rparr>)"

definition WithName :: "string \<Rightarrow> 'q pod_option" where
  "WithName name = (\<lambda>p. p\<lparr>pod_name := name\<rparr>)"

definition WithNamespace :: "string \<Rightarrow> 'q pod_option" where
  "WithNamespace namespace = (\<lambda>p. p\<lparr>pod_namespace := namespace\<rparr>)"

definition WithSchedulerName :: "string \<Rightarrow> 'q pod_option" where
  "WithSchedulerName schedulerName = (\<lambda>p. p\<lparr>spec_schedulerName := schedulerName\<rparr>)"

definition AddContainer :: "'q container list \<Rightarrow> 'q pod_option" where
  "AddContainer containers = (\<lambda>p. p\<lparr>spec_containers := spec_containers p @ containers\<rparr>)"

definition WithQueue :: "string \<Rightarrow> 'q pod_option" where
  "WithQueue queueName = (\<lambda>p.
     let labels = (if is_nil (pod_labels p) then [] else gm_entries (pod_labels p)) in
     p\<lparr>pod_labels := Ptr (AList.update LabelKeyQueue queueName labels)\<rparr>)"

definition WithPriorityClass :: "string \<Rightarrow> 'q pod_option" where
  "WithPriorityClass priorityClassName = (\<lambda>p. p\<lparr>spec_priorityClassName := priorityClassName\<rparr>)"

section \<open>compare.go\<close>

definition CompareImportanceDesc :: "('q, 's, 'm) kube \<Rightarrow> 'q pod \<Rightarrow> 'q pod \<Rightarrow> int" where
  "CompareImportanceDesc K a b =
     (if MoreImportantPod K a b then -1 else if MoreImportantPod K b a then 1 else 0)"

section \<open>conditions.go\<close>

definition HasCondition :: "'q pod \<Rightarrow> string \<Rightarrow> string \<Rightarrow> string \<Rightarrow> bool" where
  "HasCondition pod typ status reason =
     list_ex (\<lambda>c. cond_type c = typ \<and> cond_status c = status \<and> cond_reason c = reason)
       (status_conditions pod)"

section \<open>pod\_states.go\<close>

definition IsTerminalPhase :: "string \<Rightarrow> bool" where
  "IsTerminalPhase phase \<longleftrightarrow> phase = ''Succeeded'' \<or> phase = ''Failed''"

definition IsTerminal :: "'q pod ptr \<Rightarrow> bool" where
  "IsTerminal pod = (case pod of NilP \<Rightarrow> True | Ptr p \<Rightarrow> IsTerminalPhase (status_phase p))"

definition IsNonTerminalPhase :: "string \<Rightarrow> bool" where
  "IsNonTerminalPhase phase \<longleftrightarrow> phase = ''Pending'' \<or> phase = ''Running''"

definition IsNonTerminal :: "'q pod ptr \<Rightarrow> bool" where
  "IsNonTerminal pod = (case pod of NilP \<Rightarrow> False | Ptr p \<Rightarrow> IsNonTerminalPhase (status_phase p))"

section \<open>preemption.go\<close>

definition PolicyAllowsPreemption :: "'q pod ptr \<Rightarrow> bool" where
  "PolicyAllowsPreemption pod = (case pod of
     NilP \<Rightarrow> False
   | Ptr p \<Rightarrow> (case spec_preemptionPolicy p of
       NilP \<Rightarrow> True
     | Ptr policy \<Rightarrow>
         if policy = ''PreemptLowerPriority'' then True
         else if policy = ''Never'' then False
         else if policy = '''' then True
         else False))"

definition TerminatingByPreemption :: "'q pod \<Rightarrow> bool" where
  "TerminatingByPreemption pod =
     (if is_nil (pod_deletionTimestamp pod) then False
      else HasCondition pod ''DisruptionTarget'' ''True'' ''PreemptionByScheduler'')"

section \<open>Lemmas\<close>

lemma pod_labels_WithQueue:
  "gm_get (pod_labels (WithQueue q p)) k = (if k = LabelKeyQueue then Some q else gm_get (pod_labels p) k)"
  by (cases "pod_labels p") (simp_all add: WithQueue_def update_conv')

lemma terminal_phases_disjoint: "IsTerminalPhase ph \<Longrightarrow> \<not> IsNonTerminalPhase ph"
  by (auto simp: IsTerminalPhase_def IsNonTerminalPhase_def)

context pod_importance
begin

lemma CompareImportanceDesc_neg: "CompareImportanceDesc K a b < 0 \<longleftrightarrow> MoreImportantPod K a b"
  by (simp add: CompareImportanceDesc_def)

lemma MoreImportantPod_asym: "MoreImportantPod K a b \<Longrightarrow> \<not> MoreImportantPod K b a"
  by (auto simp: MoreImportantPod_iff i32_less_def)

lemma not_MoreImportantPod_trans:
  "\<not> MoreImportantPod K b a \<Longrightarrow> \<not> MoreImportantPod K c b \<Longrightarrow> \<not> MoreImportantPod K c a"
  unfolding MoreImportantPod_iff i32_less_def i32_eq by linarith

lemma sorted_by_importance:
  "sorted_wrt (\<lambda>a b. \<not> MoreImportantPod K b a) (SortFunc (CompareImportanceDesc K) ps)"
proof (rule sorted_SortFunc)
  show "CompareImportanceDesc K x y < 0 \<longleftrightarrow> \<not> \<not> MoreImportantPod K x y" for x y
    by (simp add: CompareImportanceDesc_neg)
  show "\<not> MoreImportantPod K y x \<or> \<not> MoreImportantPod K x y" for x y
    using MoreImportantPod_asym by blast
qed (rule not_MoreImportantPod_trans)

lemma sorted_by_priority:
  "sorted_wrt (\<lambda>a b. sint (PodPriority K b) \<le> sint (PodPriority K a)) (SortFunc (CompareImportanceDesc K) ps)"
  by (rule sorted_wrt_mono_rel [OF _ sorted_by_importance])
    (auto simp: MoreImportantPod_iff i32_less_def)

end

section \<open>Properties\<close>

text \<open>
  Sorting pods with \<^verbatim>\<open>CompareImportanceDesc\<close> gives a permutation of them in which no pod stands
  before a more important one, so their priorities never increase along the list.
\<close>

theorem sort_by_importance:
  assumes "pod_importance K start"
  shows "mset (SortFunc (CompareImportanceDesc K) ps) = mset ps \<and>
    sorted_wrt (\<lambda>a b. \<not> MoreImportantPod K b a \<and> sint (PodPriority K b) \<le> sint (PodPriority K a))
      (SortFunc (CompareImportanceDesc K) ps)"
  using pod_importance.sorted_by_importance [OF assms, of ps] pod_importance.sorted_by_priority [OF assms, of ps]
  by (simp add: sorted_wrt_iff_nth_less)

theorem sort_by_importance_witness:
  "sorted_wrt (\<lambda>a b. \<not> MoreImportantPod ref_kube b a \<and> sint (PodPriority ref_kube b) \<le> sint (PodPriority ref_kube a))
    (SortFunc (CompareImportanceDesc ref_kube) [ref_pod ''p1'' ''a'' 1 500, ref_pod ''p2'' ''a'' 50 500])"
  using sort_by_importance [OF ref_importance.pod_importance_axioms] by blast

end
