(* ===== verification/Ledger.thy ===== *)
theory Ledger
  imports Prelude
begin

text \<open>
  The contract that \<^verbatim>\<open>Quota\<close> and \<^verbatim>\<open>NodeAggregator\<close> share: a set of tracked keys and a total.
  Adding an item whose key is not tracked adds its weight to the total, deleting one whose key
  is tracked subtracts the weight of the item \<^emph>\<open>as it is handed in\<close>, and everything else is a
  no-op. Subtraction is exact only on resource names the total already has, so the law of \<open>del\<close>
  asks that the item's names be among them.

  The client lemmas show what follows for a history of operations: as long as a key stands for
  the same weight in every operation, no operation fails and the total is the sum of the weights
  of the tracked keys.
\<close>

datatype 'i ledger_op = LAdd 'i | LDel 'i

fun ledger_item :: "'i ledger_op \<Rightarrow> 'i" where
  "ledger_item (LAdd i) = i"
| "ledger_item (LDel i) = i"

fun ledger_run :: "('i \<Rightarrow> 's \<Rightarrow> 's option) \<Rightarrow> ('i \<Rightarrow> 's \<Rightarrow> 's option) \<Rightarrow> 'i ledger_op list \<Rightarrow> 's \<Rightarrow> 's option" where
  "ledger_run add del [] s = Some s"
| "ledger_run add del (LAdd i # xs) s = do { s' \<leftarrow> add i s; ledger_run add del xs s' }"
| "ledger_run add del (LDel i # xs) s = do { s' \<leftarrow> del i s; ledger_run add del xs s' }"

fun ledger_keys :: "('i \<Rightarrow> 'k) \<Rightarrow> 'i ledger_op list \<Rightarrow> 'k set \<Rightarrow> 'k set" where
  "ledger_keys key [] ks = ks"
| "ledger_keys key (LAdd i # xs) ks = ledger_keys key xs (insert (key i) ks)"
| "ledger_keys key (LDel i # xs) ks = ledger_keys key xs (ks - {key i})"

text \<open>
  \<open>balanced ks ns tot w wn\<close>: the total is the sum of the weights \<open>w\<close> of the keys \<open>ks\<close>, and the
  names \<open>ns\<close> include the names \<open>wn\<close> of every key.
\<close>

definition balanced :: "'k set \<Rightarrow> string set \<Rightarrow> (string \<Rightarrow> rat) \<Rightarrow> ('k \<Rightarrow> string \<Rightarrow> rat) \<Rightarrow> ('k \<Rightarrow> string set) \<Rightarrow> bool" where
  "balanced ks ns tot w wn \<longleftrightarrow> (\<forall>k \<in> ks. wn k \<subseteq> ns) \<and> (\<forall>n. tot n = (\<Sum>k \<in> ks. w k n))"

lemma balanced_empty: "balanced {} ns (\<lambda>n. 0) w wn"
  by (simp add: balanced_def)

lemma balanced_insert:
  assumes "balanced ks ns tot w wn" and "finite ks" and "k \<notin> ks"
    and "\<forall>n. tot' n = tot n + w k n"
  shows "balanced (insert k ks) (ns \<union> wn k) tot' w wn"
  using assms by (auto simp: balanced_def)

lemma balanced_remove:
  assumes "balanced ks ns tot w wn" and "finite ks" and "k \<in> ks"
    and "\<forall>n. tot' n = tot n - w k n"
  shows "balanced (ks - {k}) ns tot' w wn"
  using assms by (auto simp: balanced_def sum.remove)

locale ledger =
  fixes invar :: "'s \<Rightarrow> bool"
    and tracked :: "'s \<Rightarrow> 'k set"
    and names :: "'s \<Rightarrow> string set"
    and tot :: "'s \<Rightarrow> string \<Rightarrow> rat"
    and add :: "'i \<Rightarrow> 's \<Rightarrow> 's option"
    and del :: "'i \<Rightarrow> 's \<Rightarrow> 's option"
    and key :: "'i \<Rightarrow> 'k"
    and weight :: "'i \<Rightarrow> string \<Rightarrow> rat"
    and weight_names :: "'i \<Rightarrow> string set"
  assumes finite_tracked: "invar s \<Longrightarrow> finite (tracked s)"
    and add_tracked: "invar s \<Longrightarrow> key i \<in> tracked s \<Longrightarrow> add i s = Some s"
    and add_new: "invar s \<Longrightarrow> key i \<notin> tracked s \<Longrightarrow>
      \<exists>s'. add i s = Some s' \<and> invar s' \<and> tracked s' = insert (key i) (tracked s) \<and>
        names s' = names s \<union> weight_names i \<and> (\<forall>n. tot s' n = tot s n + weight i n)"
    and del_untracked: "invar s \<Longrightarrow> key i \<notin> tracked s \<Longrightarrow> del i s = Some s"
    and del_tracked: "invar s \<Longrightarrow> key i \<in> tracked s \<Longrightarrow> weight_names i \<subseteq> names s \<Longrightarrow>
      \<exists>s'. del i s = Some s' \<and> invar s' \<and> tracked s' = tracked s - {key i} \<and>
        names s' = names s \<and> (\<forall>n. tot s' n = tot s n - weight i n)"
begin

lemma add_balanced:
  assumes "invar s" and "balanced (tracked s) (names s) (tot s) w wn"
    and "weight i = w (key i)" and "weight_names i = wn (key i)"
  shows "\<exists>s'. add i s = Some s' \<and> invar s' \<and> tracked s' = insert (key i) (tracked s) \<and>
    balanced (tracked s') (names s') (tot s') w wn"
proof (cases "key i \<in> tracked s")
  case True
  with assms show ?thesis by (simp add: add_tracked insert_absorb)
next
  case False
  from add_new [OF assms(1) this] obtain s' where s': "add i s = Some s'" "invar s'"
      "tracked s' = insert (key i) (tracked s)" "names s' = names s \<union> weight_names i"
      "\<forall>n. tot s' n = tot s n + weight i n" by blast
  then have "balanced (tracked s') (names s') (tot s') w wn"
    using balanced_insert [OF assms(2) finite_tracked [OF assms(1)] False, of "tot s'"] assms(3,4)
    by simp
  with s' show ?thesis by blast
qed

lemma del_balanced:
  assumes "invar s" and "balanced (tracked s) (names s) (tot s) w wn"
    and "weight i = w (key i)" and "weight_names i = wn (key i)"
  shows "\<exists>s'. del i s = Some s' \<and> invar s' \<and> tracked s' = tracked s - {key i} \<and>
    balanced (tracked s') (names s') (tot s') w wn"
proof (cases "key i \<in> tracked s")
  case False
  with assms show ?thesis by (simp add: del_untracked)
next
  case True
  with assms(2,4) have "weight_names i \<subseteq> names s" by (auto simp: balanced_def)
  from del_tracked [OF assms(1) True this] obtain s' where s': "del i s = Some s'" "invar s'"
      "tracked s' = tracked s - {key i}" "names s' = names s"
      "\<forall>n. tot s' n = tot s n - weight i n" by blast
  then have "balanced (tracked s') (names s') (tot s') w wn"
    using balanced_remove [OF assms(2) finite_tracked [OF assms(1)] True, of "tot s'"] assms(3)
    by simp
  with s' show ?thesis by blast
qed

lemma run_balanced:
  assumes "invar s" and "balanced (tracked s) (names s) (tot s) w wn"
    and "\<forall>x \<in> set xs. weight (ledger_item x) = w (key (ledger_item x)) \<and>
      weight_names (ledger_item x) = wn (key (ledger_item x))"
  shows "\<exists>s'. ledger_run add del xs s = Some s' \<and> invar s' \<and>
    tracked s' = ledger_keys key xs (tracked s) \<and> balanced (tracked s') (names s') (tot s') w wn"
  using assms
proof (induction xs arbitrary: s)
  case Nil
  then show ?case by simp
next
  case (Cons x xs)
  show ?case
  proof (cases x)
    case (LAdd i)
    obtain s1 where s1: "add i s = Some s1" "invar s1" "tracked s1 = insert (key i) (tracked s)"
        "balanced (tracked s1) (names s1) (tot s1) w wn"
      using add_balanced [OF Cons.prems(1,2), of i] Cons.prems(3) LAdd by auto
    with Cons.IH [OF s1(2,4)] Cons.prems(3) LAdd show ?thesis by auto
  next
    case (LDel i)
    obtain s1 where s1: "del i s = Some s1" "invar s1" "tracked s1 = tracked s - {key i}"
        "balanced (tracked s1) (names s1) (tot s1) w wn"
      using del_balanced [OF Cons.prems(1,2), of i] Cons.prems(3) LDel by auto
    with Cons.IH [OF s1(2,4)] Cons.prems(3) LDel show ?thesis by auto
  qed
qed

text \<open>Deleting an item just added restores the tracked keys and the totals.\<close>

lemma add_then_del:
  assumes "invar s" and "key i \<notin> tracked s"
  shows "\<exists>s1 s2. add i s = Some s1 \<and> del i s1 = Some s2 \<and> invar s2 \<and>
    tracked s2 = tracked s \<and> (\<forall>n. tot s2 n = tot s n)"
proof -
  from add_new [OF assms] obtain s1 where s1: "add i s = Some s1" "invar s1"
      "tracked s1 = insert (key i) (tracked s)" "names s1 = names s \<union> weight_names i"
      "\<forall>n. tot s1 n = tot s n + weight i n" by blast
  then have "key i \<in> tracked s1" "weight_names i \<subseteq> names s1" by auto
  from del_tracked [OF s1(2) this] s1 assms(2) show ?thesis by auto
qed

text \<open>
  Updating by deleting and adding the \<^emph>\<open>new\<close> item leaves the total as it was, whatever the weight
  the key was added with.
\<close>

lemma del_then_add_tracked:
  assumes "invar s" and "key i \<in> tracked s" and "weight_names i \<subseteq> names s"
  shows "\<exists>s1 s2. del i s = Some s1 \<and> add i s1 = Some s2 \<and> invar s2 \<and>
    tracked s2 = tracked s \<and> names s2 = names s \<and> (\<forall>n. tot s2 n = tot s n)"
proof -
  from del_tracked [OF assms] obtain s1 where s1: "del i s = Some s1" "invar s1"
      "tracked s1 = tracked s - {key i}" "names s1 = names s"
      "\<forall>n. tot s1 n = tot s n - weight i n" by blast
  then have "key i \<notin> tracked s1" by simp
  from add_new [OF s1(2) this] s1 assms(2,3) show ?thesis by (auto simp: insert_absorb)
qed

end

end
