(* ===== verification/Quota.thy ===== *)
theory Quota
  imports Pods Ledger
begin

text \<open>
  \<^verbatim>\<open>internal/queue/quota.go\<close>: the resources a queue may use and those its pods use.

  A \<^verbatim>\<open>*Quota\<close> is a \<open>quota ptr\<close>; every method accepts the nil pointer. Each method holds the
  quota's lock, so it is one atomic step. \<^verbatim>\<open>Max\<close> and \<^verbatim>\<open>Used\<close> return the live map of the source;
  here they return its value at the time of the call (\<open>h_Quota_Max\<close> and \<open>h_Quota_Used\<close> of \<^verbatim>\<open>Store\<close> return the pointer).
\<close>

record ('q, 'm) quota =
  quota_max :: "'q resources"
  quota_used :: "'q resources"
  quota_podsByID :: 'm

definition NewQuota :: "('q, 's, 'm) kube \<Rightarrow> 'q resources \<Rightarrow> ('q, 'm) quota ptr" where
  "NewQuota K mx = Ptr \<lparr>quota_max = mx, quota_used = gm_make, quota_podsByID = imm_New K\<rparr>"

section \<open>Counting pods\<close>

text \<open>The bodies of the loops of \<^verbatim>\<open>AddPodIfNotPresent\<close> and \<^verbatim>\<open>DeletePodIfPresent\<close>.\<close>

definition quota_add_pod :: "('q, 's, 'm) kube \<Rightarrow> 'q pod ptr \<Rightarrow> ('q, 'm) quota \<Rightarrow> ('q, 'm) quota option" where
  "quota_add_pod K pod q = (case pod of
     NilP \<Rightarrow> Some q
   | Ptr p \<Rightarrow> (case imm_Get K (quota_podsByID q) (pod_uid p) of
       Some _ \<Rightarrow> Some q
     | None \<Rightarrow> do {
         req \<leftarrow> FromPodReq K pod;
         used \<leftarrow> Resources_Add K (quota_used q) req;
         Some (q\<lparr>quota_podsByID := imm_Set K (quota_podsByID q) (pod_uid p) pod, quota_used := used\<rparr>) }))"

definition quota_del_pod :: "('q, 's, 'm) kube \<Rightarrow> 'q pod ptr \<Rightarrow> ('q, 'm) quota \<Rightarrow> ('q, 'm) quota option" where
  "quota_del_pod K pod q = (case pod of
     NilP \<Rightarrow> Some q
   | Ptr p \<Rightarrow> (case imm_Get K (quota_podsByID q) (pod_uid p) of
       None \<Rightarrow> Some q
     | Some _ \<Rightarrow> do {
         req \<leftarrow> FromPodReq K pod;
         used \<leftarrow> Resources_Sub K (quota_used q) req;
         Some (q\<lparr>quota_podsByID := imm_Delete K (quota_podsByID q) (pod_uid p), quota_used := used\<rparr>) }))"

definition Quota_AddPodIfNotPresent :: "('q, 's, 'm) kube \<Rightarrow> ('q, 'm) quota ptr \<Rightarrow> 'q pod ptr list \<Rightarrow> ('q, 'm) quota ptr option" where
  "Quota_AddPodIfNotPresent K q pods = (case q of
     NilP \<Rightarrow> Some NilP
   | Ptr qv \<Rightarrow> if pods = [] then Some q else do { q' \<leftarrow> for_each (quota_add_pod K) pods qv; Some (Ptr q') })"

definition Quota_DeletePodIfPresent :: "('q, 's, 'm) kube \<Rightarrow> ('q, 'm) quota ptr \<Rightarrow> 'q pod ptr list \<Rightarrow> ('q, 'm) quota ptr option" where
  "Quota_DeletePodIfPresent K q pods = (case q of
     NilP \<Rightarrow> Some NilP
   | Ptr qv \<Rightarrow> if pods = [] then Some q else do { q' \<leftarrow> for_each (quota_del_pod K) pods qv; Some (Ptr q') })"

definition Quota_DeletePodsFunc :: "('q, 's, 'm) kube \<Rightarrow> ('q, 'm) quota ptr \<Rightarrow> ('q pod ptr \<Rightarrow> bool) ptr \<Rightarrow> ('q, 'm) quota ptr option" where
  "Quota_DeletePodsFunc K q predicate = (case q of
     NilP \<Rightarrow> Some NilP
   | Ptr qv \<Rightarrow> (case predicate of
       NilP \<Rightarrow> Some q
     | Ptr pred \<Rightarrow> Quota_DeletePodIfPresent K q (filter pred (imm_Values K (quota_podsByID qv)))))"

section \<open>Reading and configuring\<close>

definition Quota_Max :: "('q, 'm) quota ptr \<Rightarrow> 'q resources" where
  "Quota_Max q = (case q of NilP \<Rightarrow> NilP | Ptr qv \<Rightarrow> quota_max qv)"

definition Quota_SetMax :: "('q, 'm) quota ptr \<Rightarrow> 'q resources \<Rightarrow> ('q, 'm) quota ptr" where
  "Quota_SetMax q mx = (case q of NilP \<Rightarrow> NilP | Ptr qv \<Rightarrow> Ptr (qv\<lparr>quota_max := mx\<rparr>))"

definition Quota_Used :: "('q, 'm) quota ptr \<Rightarrow> 'q resources" where
  "Quota_Used q = (case q of NilP \<Rightarrow> NilP | Ptr qv \<Rightarrow> quota_used qv)"

definition Quota_ContainsPod :: "('q, 's, 'm) kube \<Rightarrow> ('q, 'm) quota ptr \<Rightarrow> 'q pod ptr \<Rightarrow> bool option" where
  "Quota_ContainsPod K q pod = (case q of
     NilP \<Rightarrow> Some False
   | Ptr qv \<Rightarrow> do { p \<leftarrow> deref pod; Some (imm_Get K (quota_podsByID qv) (pod_uid p) \<noteq> None) })"

definition Quota_WouldPutOverMax :: "('q, 's, 'm) kube \<Rightarrow> ('q, 'm) quota ptr \<Rightarrow> 'q resources \<Rightarrow> bool option" where
  "Quota_WouldPutOverMax K q request = (case q of
     NilP \<Rightarrow> Some False
   | Ptr qv \<Rightarrow> do {
       r \<leftarrow> Resources_Plus K (quota_used qv) request;
       Some (Resources_AnyGreaterIntersecting K r (quota_max qv)) })"

definition Quota_Clone :: "('q, 's, 'm) kube \<Rightarrow> ('q, 'm) quota ptr \<Rightarrow> ('q, 'm) quota ptr" where
  "Quota_Clone K q = (case q of
     NilP \<Rightarrow> NilP
   | Ptr qv \<Rightarrow> Ptr \<lparr>quota_max = Resources_Clone K (quota_max qv),
       quota_used = Resources_Clone K (quota_used qv), quota_podsByID = quota_podsByID qv\<rparr>)"

section \<open>Printing\<close>

definition maxPodSamples :: nat where
  "maxPodSamples = 3"

fun pod_samples :: "nat \<Rightarrow> 'q pod ptr list \<Rightarrow> string list" where
  "pod_samples room [] = []"
| "pod_samples 0 (pod # pods) = []"
| "pod_samples (Suc room) (NilP # pods) = pod_samples (Suc room) pods"
| "pod_samples (Suc room) (Ptr p # pods) = (pod_namespace p @ ''/'' @ pod_name p) # pod_samples room pods"

definition stringNoLock :: "('q, 's, 'm) kube \<Rightarrow> ('q, 'm) quota ptr \<Rightarrow> string" where
  "stringNoLock K q = (case q of
     NilP \<Rightarrow> ''<nil>''
   | Ptr qv \<Rightarrow>
       let podSamples = pod_samples maxPodSamples (imm_Values K (quota_podsByID qv));
           len = imm_Len K (quota_podsByID qv);
           podsSummary =
             (if len = 0 then ''[]''
              else if len \<le> maxPodSamples then ''['' @ strings_Join podSamples '', '' @ '']''
              else ''['' @ strings_Join podSamples '', '' @ '', ... (+'' @
                digits_of_nat (len - maxPodSamples) @ '' more)]'')
       in ''{Max: '' @ Resources_String K (quota_max qv) @ '', Used: '' @
          Resources_String K (quota_used qv) @ '', Pods: '' @ podsSummary @ ''}'')"

definition Quota_String :: "('q, 's, 'm) kube \<Rightarrow> ('q, 'm) quota ptr \<Rightarrow> string" where
  "Quota_String K q = stringNoLock K (Quota_Clone K q)"

section \<open>Invariant and abstraction\<close>

definition quota_tracked :: "('q, 's, 'm) kube \<Rightarrow> ('q, 'm) quota \<Rightarrow> string set" where
  "quota_tracked K q = dom (imm_Get K (quota_podsByID q))"

definition quota_invar :: "('q, 's, 'm) kube \<Rightarrow> ('q, 'm) quota \<Rightarrow> bool" where
  "quota_invar K q \<longleftrightarrow> quota_used q \<noteq> NilP \<and> gm_wf (quota_used q) \<and> gm_wf (quota_max q) \<and>
     (\<forall>u p. imm_Get K (quota_podsByID q) u = Some p \<longrightarrow> (\<exists>pod. p = Ptr pod \<and> pod_uid pod = u))"

text \<open>
  Usage does not exceed the maximum, on the resources that both name. These are the resources
  \<^verbatim>\<open>WouldPutOverMax\<close> compares.
\<close>

definition quota_within :: "('q \<Rightarrow> rat) \<Rightarrow> ('q, 'm) quota \<Rightarrow> bool" where
  "quota_within amount q \<longleftrightarrow> (\<forall>n \<in> gm_dom (quota_used q) \<inter> gm_dom (quota_max q).
     res_amount amount (quota_used q) n \<le> res_amount amount (quota_max q) n)"

text \<open>
  The weight of a pod identifier when the pods of that identifier always have the requests
  \<open>reqs\<close> gives for it.
\<close>

definition uid_req :: "('q \<Rightarrow> rat) \<Rightarrow> (string \<Rightarrow> 'q resource_list) \<Rightarrow> string \<Rightarrow> string \<Rightarrow> rat" where
  "uid_req amount reqs u n = (if n = ResourceNamePods then 1 else res_amount amount (reqs u) n)"

definition uid_req_names :: "(string \<Rightarrow> 'q resource_list) \<Rightarrow> string \<Rightarrow> string set" where
  "uid_req_names reqs u = insert ResourceNamePods (gm_dom (reqs u))"

definition pod_ok :: "('q, 's, 'm) kube \<Rightarrow> (string \<Rightarrow> 'q resource_list) \<Rightarrow> 'q pod \<Rightarrow> bool" where
  "pod_ok K reqs p \<longleftrightarrow> PodRequests K p = reqs (pod_uid p)"

definition quota_balanced :: "('q, 's, 'm) kube \<Rightarrow> ('q \<Rightarrow> rat) \<Rightarrow> (string \<Rightarrow> 'q resource_list) \<Rightarrow> ('q, 'm) quota \<Rightarrow> bool" where
  "quota_balanced K amount reqs q \<longleftrightarrow> quota_invar K q \<and>
     balanced (quota_tracked K q) (gm_dom (quota_used q)) (res_amount amount (quota_used q))
       (uid_req amount reqs) (uid_req_names reqs) \<and>
     (\<forall>u p. imm_Get K (quota_podsByID q) u = Some (Ptr p) \<longrightarrow> pod_ok K reqs p)"

section \<open>The quota is a ledger\<close>

lemma pod_ok_weights:
  "pod_ok K reqs p \<Longrightarrow> pod_req K amount p = uid_req amount reqs (pod_uid p)"
  "pod_ok K reqs p \<Longrightarrow> pod_req_names K p = uid_req_names reqs (pod_uid p)"
  by (auto simp: pod_ok_def pod_req_def uid_req_def pod_req_names_def uid_req_names_def)

lemma quota_add_pod_nil [simp]: "quota_add_pod K NilP q = Some q"
  by (simp add: quota_add_pod_def)

lemma quota_del_pod_nil [simp]: "quota_del_pod K NilP q = Some q"
  by (simp add: quota_del_pod_def)

context kube_laws
begin

lemma quota_add_pod_new:
  assumes "quota_invar K q" and "pod_uid p \<notin> quota_tracked K q"
  shows "\<exists>q'. quota_add_pod K (Ptr p) q = Some q' \<and> quota_invar K q' \<and> quota_max q' = quota_max q \<and>
    quota_tracked K q' = insert (pod_uid p) (quota_tracked K q) \<and>
    gm_dom (quota_used q') = gm_dom (quota_used q) \<union> pod_req_names K p \<and>
    (\<forall>n. res_amount amount (quota_used q') n = res_amount amount (quota_used q) n + pod_req K amount p n)"
proof -
  obtain req where req: "FromPodReq K (Ptr p) = Some req" "gm_wf req" "gm_dom req = pod_req_names K p"
      "\<forall>n. res_amount amount req n = pod_req K amount p n"
    using FromPodReq_result by blast
  obtain used where used: "Resources_Add K (quota_used q) req = Some used" "used \<noteq> NilP" "gm_wf used"
      "gm_dom used = gm_dom (quota_used q) \<union> gm_dom req"
      "\<forall>n. res_amount amount used n = res_amount amount (quota_used q) n + res_amount amount req n"
    using Add_result [OF req(2), of "quota_used q"] assms(1) by (auto simp: quota_invar_def)
  from assms(2) req used have "quota_add_pod K (Ptr p) q =
      Some (q\<lparr>quota_podsByID := imm_Set K (quota_podsByID q) (pod_uid p) (Ptr p), quota_used := used\<rparr>)"
    by (auto simp: quota_add_pod_def quota_tracked_def domIff)
  with assms(1) req used show ?thesis
    by (auto simp: quota_invar_def quota_tracked_def Get_Set split: if_splits)
qed

lemma quota_del_pod_tracked:
  assumes "quota_invar K q" and "pod_uid p \<in> quota_tracked K q" and "pod_req_names K p \<subseteq> gm_dom (quota_used q)"
  shows "\<exists>q'. quota_del_pod K (Ptr p) q = Some q' \<and> quota_invar K q' \<and> quota_max q' = quota_max q \<and>
    quota_tracked K q' = quota_tracked K q - {pod_uid p} \<and> gm_dom (quota_used q') = gm_dom (quota_used q) \<and>
    (\<forall>n. res_amount amount (quota_used q') n = res_amount amount (quota_used q) n - pod_req K amount p n)"
proof -
  obtain req where req: "FromPodReq K (Ptr p) = Some req" "gm_wf req" "gm_dom req = pod_req_names K p"
      "\<forall>n. res_amount amount req n = pod_req K amount p n"
    using FromPodReq_result by blast
  obtain used where used: "Resources_Sub K (quota_used q) req = Some used" "used \<noteq> NilP" "gm_wf used"
      "gm_dom used = gm_dom (quota_used q) \<union> gm_dom req"
      "\<forall>n. res_amount amount used n = (if n \<in> gm_dom (quota_used q)
        then res_amount amount (quota_used q) n - res_amount amount req n else res_amount amount req n)"
    using Sub_result [OF req(2), of "quota_used q"] assms(1) by (auto simp: quota_invar_def)
  have amt: "res_amount amount used n = res_amount amount (quota_used q) n - pod_req K amount p n" for n
    using used(5) req(3,4) assms(3) res_amount_absent [of n req amount]
      res_amount_absent [of n "quota_used q" amount] by (cases "n \<in> gm_dom (quota_used q)") auto
  from assms(2) req used have "quota_del_pod K (Ptr p) q =
      Some (q\<lparr>quota_podsByID := imm_Delete K (quota_podsByID q) (pod_uid p), quota_used := used\<rparr>)"
    by (auto simp: quota_del_pod_def quota_tracked_def)
  with assms req used amt show ?thesis
    by (auto simp: quota_invar_def quota_tracked_def Get_Delete split: if_splits)
qed

end

sublocale kube_laws \<subseteq> quota_ledger: ledger "quota_invar K" "quota_tracked K" "\<lambda>q. gm_dom (quota_used q)"
  "\<lambda>q. res_amount amount (quota_used q)" "\<lambda>p. quota_add_pod K (Ptr p)" "\<lambda>p. quota_del_pod K (Ptr p)"
  pod_uid "pod_req K amount" "pod_req_names K"
proof unfold_locales
  fix q :: "('q, 'm) quota" and p :: "'q pod"
  assume inv: "quota_invar K q"
  show "finite (quota_tracked K q)" by (simp add: quota_tracked_def finite_Get)
  show "quota_add_pod K (Ptr p) q = Some q" if "pod_uid p \<in> quota_tracked K q"
    using that by (auto simp: quota_add_pod_def quota_tracked_def)
  show "quota_del_pod K (Ptr p) q = Some q" if "pod_uid p \<notin> quota_tracked K q"
    using that by (auto simp: quota_del_pod_def quota_tracked_def domIff split: option.split)
qed (use quota_add_pod_new quota_del_pod_tracked in blast)+


section \<open>Histories of additions and deletions\<close>

lemma quota_add_pod_max: "quota_add_pod K pod q = Some q' \<Longrightarrow> quota_max q' = quota_max q"
  by (auto simp: quota_add_pod_def split: ptr.splits option.splits bind_splits)

lemma quota_del_pod_max: "quota_del_pod K pod q = Some q' \<Longrightarrow> quota_max q' = quota_max q"
  by (auto simp: quota_del_pod_def split: ptr.splits option.splits bind_splits)

lemma quota_balanced_invar: "quota_balanced K amount reqs q \<Longrightarrow> quota_invar K q"
  by (simp add: quota_balanced_def)

lemma quota_balanced_used:
  "quota_balanced K amount reqs q \<Longrightarrow>
     res_amount amount (quota_used q) n = (\<Sum>u \<in> quota_tracked K q. uid_req amount reqs u n)"
  by (simp add: quota_balanced_def balanced_def)

lemma quota_add_pod_stored:
  assumes "quota_add_pod K (Ptr p) q = Some q'" and "immut_map K"
  shows "imm_Get K (quota_podsByID q') u = (if u = pod_uid p \<and> imm_Get K (quota_podsByID q) u = None
    then Some (Ptr p) else imm_Get K (quota_podsByID q) u)"
  using assms(1) immut_map.Get_Set [OF assms(2)]
  by (auto simp: quota_add_pod_def split: option.splits bind_splits)

lemma quota_del_pod_stored:
  assumes "quota_del_pod K (Ptr p) q = Some q'" and "immut_map K"
  shows "imm_Get K (quota_podsByID q') u = (if u = pod_uid p then None else imm_Get K (quota_podsByID q) u)"
  using assms(1) immut_map.Get_Delete [OF assms(2)]
  by (auto simp: quota_del_pod_def split: option.splits bind_splits)

context kube_laws
begin

lemma NewQuota_balanced:
  "gm_wf mx \<Longrightarrow> \<exists>q. NewQuota K mx = Ptr q \<and> quota_balanced K amount reqs q \<and> quota_max q = mx \<and> quota_tracked K q = {}"
  by (simp add: NewQuota_def quota_balanced_def quota_invar_def quota_tracked_def Get_New dom_def balanced_def)

lemma quota_add_balanced:
  assumes "quota_balanced K amount reqs q" and "pod_ok K reqs p"
  shows "\<exists>q'. quota_add_pod K (Ptr p) q = Some q' \<and> quota_balanced K amount reqs q' \<and>
    quota_max q' = quota_max q \<and> quota_tracked K q' = insert (pod_uid p) (quota_tracked K q)"
proof -
  from quota_ledger.add_balanced [of q "uid_req amount reqs" "uid_req_names reqs" p] assms
  obtain q' where q': "quota_add_pod K (Ptr p) q = Some q'" "quota_invar K q'"
      "quota_tracked K q' = insert (pod_uid p) (quota_tracked K q)"
      "balanced (quota_tracked K q') (gm_dom (quota_used q')) (res_amount amount (quota_used q'))
        (uid_req amount reqs) (uid_req_names reqs)"
    by (auto simp: quota_balanced_def pod_ok_weights)
  have "pod_ok K reqs r" if "imm_Get K (quota_podsByID q') u = Some (Ptr r)" for u r
    using that quota_add_pod_stored [OF q'(1) immut_map_axioms, of u] assms
    by (auto simp: quota_balanced_def split: if_splits)
  with q' quota_add_pod_max [OF q'(1)] show ?thesis by (auto simp: quota_balanced_def)
qed

lemma quota_del_balanced:
  assumes "quota_balanced K amount reqs q" and "pod_ok K reqs p"
  shows "\<exists>q'. quota_del_pod K (Ptr p) q = Some q' \<and> quota_balanced K amount reqs q' \<and>
    quota_max q' = quota_max q \<and> quota_tracked K q' = quota_tracked K q - {pod_uid p}"
proof -
  from quota_ledger.del_balanced [of q "uid_req amount reqs" "uid_req_names reqs" p] assms
  obtain q' where q': "quota_del_pod K (Ptr p) q = Some q'" "quota_invar K q'"
      "quota_tracked K q' = quota_tracked K q - {pod_uid p}"
      "balanced (quota_tracked K q') (gm_dom (quota_used q')) (res_amount amount (quota_used q'))
        (uid_req amount reqs) (uid_req_names reqs)"
    by (auto simp: quota_balanced_def pod_ok_weights)
  have "pod_ok K reqs r" if "imm_Get K (quota_podsByID q') u = Some (Ptr r)" for u r
    using that quota_del_pod_stored [OF q'(1) immut_map_axioms, of u] assms
    by (auto simp: quota_balanced_def split: if_splits)
  with q' quota_del_pod_max [OF q'(1)] show ?thesis by (auto simp: quota_balanced_def)
qed

lemma Quota_Add_balanced:
  assumes "quota_balanced K amount reqs q" and "\<forall>p \<in> set ps. pod_ok K reqs p"
  shows "\<exists>q'. Quota_AddPodIfNotPresent K (Ptr q) (map Ptr ps) = Some (Ptr q') \<and>
    quota_balanced K amount reqs q' \<and> quota_max q' = quota_max q \<and>
    quota_tracked K q' = quota_tracked K q \<union> pod_uid ` set ps"
proof -
  have "\<exists>q'. for_each (quota_add_pod K) (map Ptr ps) q = Some q' \<and>
    quota_balanced K amount reqs q' \<and> quota_max q' = quota_max q \<and>
    quota_tracked K q' = quota_tracked K q \<union> pod_uid ` set ps"
    using assms
  proof (induction ps arbitrary: q)
    case (Cons p ps)
    from quota_add_balanced [OF Cons.prems(1), of p] Cons.prems(2) obtain q1 where
      q1: "quota_add_pod K (Ptr p) q = Some q1" "quota_balanced K amount reqs q1"
        "quota_max q1 = quota_max q" "quota_tracked K q1 = insert (pod_uid p) (quota_tracked K q)"
      by auto
    from Cons.IH [OF q1(2)] Cons.prems(2) q1 show ?case by auto
  qed simp
  then show ?thesis by (auto simp: Quota_AddPodIfNotPresent_def)
qed

lemma Quota_Delete_balanced:
  assumes "quota_balanced K amount reqs q" and "\<forall>p \<in> set ps. pod_ok K reqs p"
  shows "\<exists>q'. Quota_DeletePodIfPresent K (Ptr q) (map Ptr ps) = Some (Ptr q') \<and>
    quota_balanced K amount reqs q' \<and> quota_max q' = quota_max q \<and>
    quota_tracked K q' = quota_tracked K q - pod_uid ` set ps"
proof -
  have "\<exists>q'. for_each (quota_del_pod K) (map Ptr ps) q = Some q' \<and>
    quota_balanced K amount reqs q' \<and> quota_max q' = quota_max q \<and>
    quota_tracked K q' = quota_tracked K q - pod_uid ` set ps"
    using assms
  proof (induction ps arbitrary: q)
    case (Cons p ps)
    from quota_del_balanced [OF Cons.prems(1), of p] Cons.prems(2) obtain q1 where
      q1: "quota_del_pod K (Ptr p) q = Some q1" "quota_balanced K amount reqs q1"
        "quota_max q1 = quota_max q" "quota_tracked K q1 = quota_tracked K q - {pod_uid p}"
      by auto
    from Cons.IH [OF q1(2)] Cons.prems(2) q1 show ?case by auto
  qed simp
  then show ?thesis by (auto simp: Quota_DeletePodIfPresent_def)
qed

lemma quota_run_balanced:
  assumes "quota_balanced K amount reqs q" and "\<forall>x \<in> set xs. pod_ok K reqs (ledger_item x)"
  shows "\<exists>q'. ledger_run (\<lambda>p. quota_add_pod K (Ptr p)) (\<lambda>p. quota_del_pod K (Ptr p)) xs q = Some q' \<and>
    quota_tracked K q' = ledger_keys pod_uid xs (quota_tracked K q) \<and>
    (\<forall>n. res_amount amount (quota_used q') n = (\<Sum>u \<in> quota_tracked K q'. uid_req amount reqs u n))"
  using quota_ledger.run_balanced [of q "uid_req amount reqs" "uid_req_names reqs" xs] assms
  by (auto simp: quota_balanced_def pod_ok_weights balanced_def)

lemma stored_pods:
  assumes "quota_balanced K amount reqs q" and "v \<in> set (imm_Values K (quota_podsByID q))"
  shows "\<exists>p. v = Ptr p \<and> pod_ok K reqs p \<and> imm_Get K (quota_podsByID q) (pod_uid p) = Some (Ptr p)"
  using assms set_Values by (fastforce simp: quota_balanced_def quota_invar_def ran_def)

lemma Quota_DeletePodsFunc_balanced:
  assumes bal: "quota_balanced K amount reqs q"
  shows "\<exists>q'. Quota_DeletePodsFunc K (Ptr q) (Ptr pred) = Some (Ptr q') \<and>
    quota_balanced K amount reqs q' \<and> quota_max q' = quota_max q \<and>
    quota_tracked K q' = {u \<in> quota_tracked K q. \<forall>p. imm_Get K (quota_podsByID q) u = Some p \<longrightarrow> \<not> pred p}"
proof -
  let ?vs = "filter pred (imm_Values K (quota_podsByID q))"
  obtain ps where vs: "?vs = map Ptr ps"
    using map_Ptr_exists [of ?vs] stored_pods [OF bal] by fastforce
  have "Ptr p \<in> set ?vs" if "p \<in> set ps" for p using that by (simp only: vs) simp
  then have "\<forall>p \<in> set ps. pod_ok K reqs p"
    using stored_pods [OF bal] by fastforce
  from Quota_Delete_balanced [OF bal this] obtain q' where
    q': "Quota_DeletePodIfPresent K (Ptr q) (map Ptr ps) = Some (Ptr q')" "quota_balanced K amount reqs q'"
      "quota_max q' = quota_max q" "quota_tracked K q' = quota_tracked K q - pod_uid ` set ps" by blast
  have "pod_uid ` set ps = {u. \<exists>p. imm_Get K (quota_podsByID q) u = Some p \<and> pred p}"
  proof -
    have "p \<in> set ps \<longleftrightarrow> pred (Ptr p) \<and> imm_Get K (quota_podsByID q) (pod_uid p) = Some (Ptr p)" for p
    proof -
      have "p \<in> set ps \<longleftrightarrow> Ptr p \<in> set ?vs" by (simp only: vs) auto
      then show ?thesis
        using stored_pods [OF bal, of "Ptr p"] set_Values [of "quota_podsByID q"]
        by (auto simp: ran_def)
    qed
    then show ?thesis
      using bal by (auto simp: quota_balanced_def quota_invar_def image_iff) metis
  qed
  then have "quota_tracked K q' = {u \<in> quota_tracked K q. \<forall>p. imm_Get K (quota_podsByID q) u = Some p \<longrightarrow> \<not> pred p}"
    using q'(4) by auto
  with q' vs show ?thesis by (auto simp: Quota_DeletePodsFunc_def)
qed

section \<open>The maximum\<close>

lemma WouldPutOverMax_result:
  assumes "quota_invar K q" and "gm_wf request"
  shows "Quota_WouldPutOverMax K (Ptr q) request =
    Some (\<exists>n \<in> (gm_dom (quota_used q) \<union> gm_dom request) \<inter> gm_dom (quota_max q).
      res_amount amount (quota_max q) n < res_amount amount (quota_used q) n + res_amount amount request n)"
proof -
  from assms Plus_result [of "quota_used q" request] obtain r where
    "Resources_Plus K (quota_used q) request = Some r" "gm_wf r"
    "gm_dom r = gm_dom (quota_used q) \<union> gm_dom request"
    "\<forall>n. res_amount amount r n = res_amount amount (quota_used q) n + res_amount amount request n"
    by (auto simp: quota_invar_def)
  then show ?thesis
    by (simp add: Quota_WouldPutOverMax_def AnyGreaterIntersecting_iff)
qed

text \<open>For a pod that is not counted yet, the check says exactly whether counting it exceeds the maximum.\<close>

lemma WouldPutOverMax_exact:
  assumes "quota_invar K q" and "pod_uid p \<notin> quota_tracked K q"
  shows "\<exists>req q'. FromPodReq K (Ptr p) = Some req \<and>
    Quota_AddPodIfNotPresent K (Ptr q) [Ptr p] = Some (Ptr q') \<and>
    Quota_WouldPutOverMax K (Ptr q) req = Some (\<not> quota_within amount q')"
proof -
  obtain req where req: "FromPodReq K (Ptr p) = Some req" "gm_wf req" "gm_dom req = pod_req_names K p"
      "\<forall>n. res_amount amount req n = pod_req K amount p n"
    using FromPodReq_result by blast
  from quota_add_pod_new [OF assms] obtain q' where q': "quota_add_pod K (Ptr p) q = Some q'"
      "quota_max q' = quota_max q" "gm_dom (quota_used q') = gm_dom (quota_used q) \<union> pod_req_names K p"
      "\<forall>n. res_amount amount (quota_used q') n = res_amount amount (quota_used q) n + pod_req K amount p n"
    by blast
  have "Quota_WouldPutOverMax K (Ptr q) req = Some (\<not> quota_within amount q')"
    using WouldPutOverMax_result [OF assms(1) req(2)] req q' by (auto simp: quota_within_def not_le)
  moreover have "Quota_AddPodIfNotPresent K (Ptr q) [Ptr p] = Some (Ptr q')"
    by (simp add: Quota_AddPodIfNotPresent_def q')
  ultimately show ?thesis using req(1) by blast
qed

lemma Quota_Clone_eq: "quota_invar K q \<Longrightarrow> Quota_Clone K (Ptr q) = Ptr q"
  by (simp add: Quota_Clone_def quota_invar_def Clone_eq)

end

section \<open>Properties\<close>

lemma Quota_ops_single:
  "Quota_AddPodIfNotPresent K (Ptr q) [Ptr p] = map_option Ptr (quota_add_pod K (Ptr p) q)"
  "Quota_DeletePodIfPresent K (Ptr q) [Ptr p] = map_option Ptr (quota_del_pod K (Ptr p) q)"
  by (simp_all add: Quota_AddPodIfNotPresent_def Quota_DeletePodIfPresent_def map_option_case
      split: bind_split option.split)

lemma quota_run_Ptr:
  "ledger_run (\<lambda>p q. Quota_AddPodIfNotPresent K q [Ptr p]) (\<lambda>p q. Quota_DeletePodIfPresent K q [Ptr p]) xs (Ptr q) =
     map_option Ptr (ledger_run (\<lambda>p. quota_add_pod K (Ptr p)) (\<lambda>p. quota_del_pod K (Ptr p)) xs q)"
proof (induction xs arbitrary: q)
  case (Cons x xs)
  then show ?case by (cases x) (simp_all add: Quota_ops_single map_option_case split: bind_split option.split)
qed simp

text \<open>
  C17. For every history of additions and deletions of pods, in any order and with repetitions, in
  which each pod always shows the same requests for its identifier, a new quota ends up counting exactly the
  pods whose last operation was an addition, and its usage of every resource is the sum of their
  requests, each pod counting once as a pod. Without that proviso it is false: \<^verbatim>\<open>DeletePodIfPresent\<close>
  subtracts the requests its argument shows, not those that were added.
\<close>

theorem quota_history:
  assumes "kube_laws K amount" and "gm_wf mx" and "\<forall>x \<in> set xs. pod_ok K reqs (ledger_item x)"
  shows "\<exists>q. ledger_run (\<lambda>p q. Quota_AddPodIfNotPresent K q [Ptr p]) (\<lambda>p q. Quota_DeletePodIfPresent K q [Ptr p])
      xs (NewQuota K mx) = Some (Ptr q) \<and>
    quota_tracked K q = ledger_keys pod_uid xs {} \<and>
    (\<forall>n. res_amount amount (Quota_Used (Ptr q)) n = (\<Sum>u \<in> ledger_keys pod_uid xs {}. uid_req amount reqs u n))"
proof -
  obtain q0 where q0: "NewQuota K mx = Ptr q0" "quota_balanced K amount reqs q0" "quota_tracked K q0 = {}"
    using kube_laws.NewQuota_balanced [OF assms(1,2)] by blast
  with kube_laws.quota_run_balanced [OF assms(1) q0(2) assms(3)] show ?thesis
    by (auto simp: quota_run_Ptr Quota_Used_def)
qed

theorem quota_history_witness:
  "\<exists>q. ledger_run (\<lambda>p q. Quota_AddPodIfNotPresent ref_kube q [Ptr p]) (\<lambda>p q. Quota_DeletePodIfPresent ref_kube q [Ptr p])
      [LAdd (ref_pod ''p1'' ''a'' 1 500), LAdd (ref_pod ''p2'' ''a'' 1 500), LDel (ref_pod ''p1'' ''a'' 1 500)]
      (NewQuota ref_kube gm_make) = Some (Ptr q) \<and>
    quota_tracked ref_kube q = {''p2''} \<and>
    (\<forall>n. res_amount ref_amount (Quota_Used (Ptr q)) n = uid_req ref_amount (\<lambda>u. Ptr [(''cpu'', 500)]) ''p2'' n)"
proof -
  let ?xs = "[LAdd (ref_pod ''p1'' ''a'' 1 500), LAdd (ref_pod ''p2'' ''a'' 1 500), LDel (ref_pod ''p1'' ''a'' 1 500)]"
  have keys: "ledger_keys pod_uid ?xs {} = {''p2''}" by (auto simp: ref_pod_def)
  have "\<forall>x \<in> set ?xs. pod_ok ref_kube (\<lambda>u. Ptr [(''cpu'', 500)]) (ledger_item x)"
    by (simp add: pod_ok_def ref_pod_requests_def ref_pod_def)
  from quota_history [OF ref_laws.kube_laws_axioms _ this, of gm_make] show ?thesis
    unfolding keys by simp
qed

text \<open>
  C19. For a pod the quota does not count yet, \<^verbatim>\<open>WouldPutOverMax\<close> on the pod's request answers
  exactly whether the quota would be exceeded after \<^verbatim>\<open>AddPodIfNotPresent\<close>: usage above the
  maximum on some resource that both name. Neither call panics.
\<close>

theorem quota_check_exact:
  assumes "kube_laws K amount" and "quota_invar K q" and "pod_uid p \<notin> quota_tracked K q"
  shows "\<exists>req q'. FromPodReq K (Ptr p) = Some req \<and>
    Quota_AddPodIfNotPresent K (Ptr q) [Ptr p] = Some (Ptr q') \<and>
    Quota_WouldPutOverMax K (Ptr q) req = Some (\<not> quota_within amount q')"
  by (rule kube_laws.WouldPutOverMax_exact [OF assms])

theorem quota_check_exact_witness:
  "\<exists>req q'. FromPodReq ref_kube (Ptr (ref_pod ''p'' ''a'' 1 2000)) = Some req \<and>
    Quota_AddPodIfNotPresent ref_kube (Ptr \<lparr>quota_max = Ptr [(''cpu'', 1500)], quota_used = gm_make,
      quota_podsByID = []\<rparr>) [Ptr (ref_pod ''p'' ''a'' 1 2000)] = Some (Ptr q') \<and>
    Quota_WouldPutOverMax ref_kube (Ptr \<lparr>quota_max = Ptr [(''cpu'', 1500)], quota_used = gm_make,
      quota_podsByID = []\<rparr>) req = Some (\<not> quota_within ref_amount q')"
  by (rule quota_check_exact [OF ref_laws.kube_laws_axioms])
    (simp_all add: quota_invar_def quota_tracked_def gm_wf_Ptr)

text \<open>
  C35. \<^verbatim>\<open>DeletePodsFunc\<close> stops counting exactly the pods the predicate selects, keeps the maximum,
  and leaves the usage equal to the sum over the pods that stay.
\<close>

theorem DeletePodsFunc_selects:
  assumes "kube_laws K amount" and "quota_balanced K amount reqs q"
  shows "\<exists>q'. Quota_DeletePodsFunc K (Ptr q) (Ptr pred) = Some (Ptr q') \<and> quota_max q' = quota_max q \<and>
    quota_tracked K q' = {u \<in> quota_tracked K q. \<forall>p. imm_Get K (quota_podsByID q) u = Some p \<longrightarrow> \<not> pred p} \<and>
    (\<forall>n. res_amount amount (quota_used q') n = (\<Sum>u \<in> quota_tracked K q'. uid_req amount reqs u n))"
  using kube_laws.Quota_DeletePodsFunc_balanced [OF assms] quota_balanced_used by blast

theorem DeletePodsFunc_selects_witness:
  "\<exists>q'. Quota_DeletePodsFunc ref_kube (Ptr \<lparr>quota_max = NilP, quota_used = Ptr [(''cpu'', 500), (''pods'', 1000)],
      quota_podsByID = [(''p'', Ptr (ref_pod ''p'' ''a'' 1 500))]\<rparr>) (Ptr (\<lambda>p. True)) = Some (Ptr q') \<and>
    quota_tracked ref_kube q' = {} \<and> (\<forall>n. res_amount ref_amount (quota_used q') n = 0)"
proof -
  let ?q = "\<lparr>quota_max = NilP, quota_used = Ptr [(''cpu'', 500 :: int), (''pods'', 1000)],
    quota_podsByID = [(''p'', Ptr (ref_pod ''p'' ''a'' 1 500))]\<rparr>"
  have "quota_balanced ref_kube ref_amount (\<lambda>u. Ptr [(''cpu'', 500)]) ?q"
    by (auto simp: quota_balanced_def quota_invar_def quota_tracked_def gm_wf_Ptr balanced_def gm_dom_def gm_keys_def
        uid_req_def uid_req_names_def res_amount_def ref_amount_def ResourceNamePods_def pod_ok_def
        ref_pod_requests_def ref_pod_def split: if_splits)
  from DeletePodsFunc_selects [OF ref_laws.kube_laws_axioms this, of "\<lambda>p. True"] show ?thesis
    by (elim exE conjE, intro exI conjI) (assumption, auto simp: quota_tracked_def)
qed

end
