(* ===== verification/Preemption.thy ===== *)
theory Preemption
  imports Pods
begin

text \<open>
  \<^verbatim>\<open>internal/match\<close> and the configuration part of \<^verbatim>\<open>internal/queue/preemption.go\<close>: label matchers
  and the preemption rules of a queue, built from the rules of its specification.

  A \<^verbatim>\<open>LabelMatcher\<close> is an interface value, so it may be nil; calling \<^verbatim>\<open>Matches\<close> on a nil one
  panics. Errors of several conversions are joined; the model keeps the list of their messages.
\<close>

section \<open>label\_matcher.go\<close>

definition Nothing :: "('q, 's, 'm) kube \<Rightarrow> 's ptr \<Rightarrow> bool" where
  "Nothing K matcher \<longleftrightarrow> matcher = Ptr (labels_Nothing K)"

definition LabelSelectorAsMatcherOrNothing :: "('q, 's, 'm) kube \<Rightarrow> label_selector ptr \<Rightarrow> 's ptr \<times> string option" where
  "LabelSelectorAsMatcherOrNothing K selector =
     (case LabelSelectorAsSelector K selector of (matcher, err) \<Rightarrow>
        (if is_nil matcher \<or> err \<noteq> None then Ptr (labels_Nothing K) else matcher, err))"

definition Matches :: "('q, 's, 'm) kube \<Rightarrow> 's ptr \<Rightarrow> labels \<Rightarrow> bool option" where
  "Matches K matcher ls = do { sel \<leftarrow> deref matcher; Some (sel_Matches K sel ls) }"

section \<open>Preemption rules\<close>

record 's preemption_rule =
  pr_FromPods :: "'s ptr"
  pr_ToPods :: "'s ptr"

record 's preemption_config =
  pc_Preempts :: "'s preemption_rule"
  pc_PreemptedBy :: "'s preemption_rule"

definition zero_config :: "'s preemption_config" where
  "zero_config = \<lparr>pc_Preempts = \<lparr>pr_FromPods = NilP, pr_ToPods = NilP\<rparr>,
     pc_PreemptedBy = \<lparr>pr_FromPods = NilP, pr_ToPods = NilP\<rparr>\<rparr>"

definition CanPreempt :: "'s preemption_rule \<Rightarrow> bool" where
  "CanPreempt rule \<longleftrightarrow> \<not> is_nil (pr_FromPods rule) \<and> \<not> is_nil (pr_ToPods rule)"

definition CanBePreempted :: "'s preemption_rule \<Rightarrow> bool" where
  "CanBePreempted rule \<longleftrightarrow> \<not> is_nil (pr_FromPods rule) \<and> \<not> is_nil (pr_ToPods rule)"

definition errs_join :: "string list \<Rightarrow> string option \<Rightarrow> string list" where
  "errs_join errs err = (case err of None \<Rightarrow> errs | Some e \<Rightarrow> errs @ [e])"

definition makePreemptionRuleFromSpecRule :: "('q, 's, 'm) kube \<Rightarrow> preemption_rule_spec \<Rightarrow> 's preemption_rule \<times> string list" where
  "makePreemptionRuleFromSpecRule K rule =
     (case LabelSelectorAsMatcherOrNothing K (prs_fromPods rule) of (fromPods, err1) \<Rightarrow>
      case LabelSelectorAsMatcherOrNothing K (prs_toPods rule) of (toPods, err2) \<Rightarrow>
        (\<lparr>pr_FromPods = fromPods, pr_ToPods = toPods\<rparr>, errs_join (errs_join [] err1) err2))"

definition NewPreemptionConfigFromSpec :: "('q, 's, 'm) kube \<Rightarrow> preemption_spec \<Rightarrow> 's preemption_config \<times> string list" where
  "NewPreemptionConfigFromSpec K spec =
     (case makePreemptionRuleFromSpecRule K (ps_preempts spec) of (preempts, errs1) \<Rightarrow>
      case makePreemptionRuleFromSpecRule K (ps_preemptedBy spec) of (preemptedBy, errs2) \<Rightarrow>
        (\<lparr>pc_Preempts = preempts, pc_PreemptedBy = preemptedBy\<rparr>, errs1 @ errs2))"

section \<open>Lemmas\<close>

lemma Matches_Ptr [simp]: "Matches K (Ptr s) ls = Some (sel_Matches K s ls)"
  by (simp add: Matches_def)

lemma MatcherOrNothing_not_nil: "fst (LabelSelectorAsMatcherOrNothing K s) \<noteq> NilP"
  by (auto simp: LabelSelectorAsMatcherOrNothing_def is_nil_iff split: prod.splits)

lemma MatcherOrNothing_error:
  "snd (LabelSelectorAsSelector K s) \<noteq> None \<Longrightarrow>
     LabelSelectorAsMatcherOrNothing K s = (Ptr (labels_Nothing K), snd (LabelSelectorAsSelector K s))"
  by (auto simp: LabelSelectorAsMatcherOrNothing_def split: prod.splits)

lemma makeRule_sel [simp]:
  "pr_FromPods (fst (makePreemptionRuleFromSpecRule K r)) = fst (LabelSelectorAsMatcherOrNothing K (prs_fromPods r))"
  "pr_ToPods (fst (makePreemptionRuleFromSpecRule K r)) = fst (LabelSelectorAsMatcherOrNothing K (prs_toPods r))"
  by (simp_all add: makePreemptionRuleFromSpecRule_def split: prod.split)

lemma NewPreemptionConfig_sel [simp]:
  "pc_Preempts (fst (NewPreemptionConfigFromSpec K sp)) = fst (makePreemptionRuleFromSpecRule K (ps_preempts sp))"
  "pc_PreemptedBy (fst (NewPreemptionConfigFromSpec K sp)) = fst (makePreemptionRuleFromSpecRule K (ps_preemptedBy sp))"
  by (simp_all add: NewPreemptionConfigFromSpec_def split: prod.split)

text \<open>
  Every rule built from a specification has both matchers, so the nil checks \<^verbatim>\<open>CanPreempt\<close> and
  \<^verbatim>\<open>CanBePreempted\<close> only exclude queues that were never configured.
\<close>

lemma makeRule_configured:
  "CanPreempt (fst (makePreemptionRuleFromSpecRule K r))"
  "CanBePreempted (fst (makePreemptionRuleFromSpecRule K r))"
  by (simp_all add: CanPreempt_def CanBePreempted_def is_nil_iff MatcherOrNothing_not_nil)

context label_selectors
begin

lemma MatcherOrNothing_nil: "LabelSelectorAsMatcherOrNothing K NilP = (Ptr (labels_Nothing K), None)"
  by (simp add: LabelSelectorAsMatcherOrNothing_def AsSelector_nil)

lemma MatcherOrNothing_empty:
  "\<exists>e. LabelSelectorAsMatcherOrNothing K (Ptr empty_selector) = (Ptr e, None) \<and> (\<forall>ls. sel_Matches K e ls)"
  using AsSelector_empty [of empty_selector]
  by (auto simp: LabelSelectorAsMatcherOrNothing_def empty_selector_def)

text \<open>An invalid or omitted selector in a rule matches no pod; it fails closed.\<close>

lemma MatcherOrNothing_fails_closed:
  assumes "s = NilP \<or> snd (LabelSelectorAsSelector K s) \<noteq> None"
  shows "Matches K (fst (LabelSelectorAsMatcherOrNothing K s)) ls = Some False"
  using assms MatcherOrNothing_nil MatcherOrNothing_error [of K s] by (auto simp: Nothing_Matches)

end

section \<open>Properties\<close>

text \<open>A selector that matches nothing: omitted, or with an error in it.\<close>

definition unusable :: "('q, 's, 'm) kube \<Rightarrow> label_selector ptr \<Rightarrow> bool" where
  "unusable K s \<longleftrightarrow> s = NilP \<or> snd (LabelSelectorAsSelector K s) \<noteq> None"

text \<open>
  C34. A rule built from a specification has both its matchers, and each is that of its own selector.
  On either side, \<^verbatim>\<open>fromPods\<close> or \<^verbatim>\<open>toPods\<close>, a selector that is omitted or does not convert fails closed:
  the matcher never panics and matches no pod, whatever the selector of the other side; a selector that
  converts matches the pods it selects. An error is reported exactly when one of the two does not convert.
\<close>

theorem invalid_selector_fails_closed:
  assumes "label_selectors K" and "makePreemptionRuleFromSpecRule K rule = (r, errs)"
  shows "CanPreempt r \<and> CanBePreempted r \<and>
    (unusable K (prs_fromPods rule) \<longrightarrow> Matches K (pr_FromPods r) ls = Some False) \<and>
    (unusable K (prs_toPods rule) \<longrightarrow> Matches K (pr_ToPods r) ls = Some False) \<and>
    (\<forall>sel. LabelSelectorAsSelector K (prs_fromPods rule) = (Ptr sel, None) \<longrightarrow> Matches K (pr_FromPods r) ls = Some (sel_Matches K sel ls)) \<and>
    (\<forall>sel. LabelSelectorAsSelector K (prs_toPods rule) = (Ptr sel, None) \<longrightarrow> Matches K (pr_ToPods r) ls = Some (sel_Matches K sel ls)) \<and>
    (errs = [] \<longleftrightarrow> snd (LabelSelectorAsSelector K (prs_fromPods rule)) = None \<and> snd (LabelSelectorAsSelector K (prs_toPods rule)) = None)"
proof -
  have r: "r = fst (makePreemptionRuleFromSpecRule K rule)" using assms(2) by simp
  have "Matches K (fst (LabelSelectorAsMatcherOrNothing K s)) ls = Some False" if "unusable K s" for s
    using label_selectors.MatcherOrNothing_fails_closed [OF assms(1)] that by (simp add: unusable_def)
  moreover have "LabelSelectorAsMatcherOrNothing K s = (Ptr sel, None)" if "LabelSelectorAsSelector K s = (Ptr sel, None)" for s sel
    using that by (simp add: LabelSelectorAsMatcherOrNothing_def)
  moreover have "snd (LabelSelectorAsSelector K s) = snd (LabelSelectorAsMatcherOrNothing K s)" for s
    by (auto simp: LabelSelectorAsMatcherOrNothing_def split: prod.splits option.splits)
  then have "errs = [] \<longleftrightarrow> snd (LabelSelectorAsSelector K (prs_fromPods rule)) = None \<and> snd (LabelSelectorAsSelector K (prs_toPods rule)) = None"
    using assms(2) by (auto simp: makePreemptionRuleFromSpecRule_def errs_join_def split: prod.splits option.splits)
  ultimately show ?thesis unfolding r by (simp add: makeRule_configured)
qed

theorem invalid_selector_fails_closed_witness:
  "\<exists>r errs. makePreemptionRuleFromSpecRule ref_kube
      \<lparr>prs_fromPods = Ptr empty_selector,
       prs_toPods = Ptr \<lparr>ls_matchLabels = NilP, ls_matchExpressions = [\<lparr>req_key = ''a'', req_operator = ''Near'', req_values = []\<rparr>]\<rparr>\<rparr> = (r, errs) \<and>
    CanPreempt r \<and> CanBePreempted r \<and> Matches ref_kube (pr_FromPods r) (Ptr [(''a'', ''b'')]) = Some True \<and>
    Matches ref_kube (pr_ToPods r) (Ptr [(''a'', ''b'')]) = Some False \<and> errs \<noteq> []"
proof -
  let ?bad = "Ptr \<lparr>ls_matchLabels = NilP, ls_matchExpressions = [\<lparr>req_key = ''a'', req_operator = ''Near'', req_values = []\<rparr>]\<rparr>"
  let ?rule = "\<lparr>prs_fromPods = Ptr empty_selector, prs_toPods = ?bad\<rparr>"
  obtain r errs where r: "makePreemptionRuleFromSpecRule ref_kube ?rule = (r, errs)" by (cases "makePreemptionRuleFromSpecRule ref_kube ?rule")
  have bad: "snd (LabelSelectorAsSelector ref_kube ?bad) \<noteq> None" by (simp add: ref_operator_def)
  obtain sel where sel: "LabelSelectorAsSelector ref_kube (Ptr empty_selector) = (Ptr sel, None)" "sel_Matches ref_kube sel (Ptr [(''a'', ''b'')])"
    using ref_selectors.AsSelector_empty [of empty_selector] by (auto simp: empty_selector_def)
  note all = invalid_selector_fails_closed [OF ref_selectors.label_selectors_axioms r, of "Ptr [(''a'', ''b'')]", unfolded unusable_def preemption_rule_spec.select_convs]
  have "CanPreempt r \<and> CanBePreempted r \<and> Matches ref_kube (pr_FromPods r) (Ptr [(''a'', ''b'')]) = Some True \<and>
    Matches ref_kube (pr_ToPods r) (Ptr [(''a'', ''b'')]) = Some False \<and> errs \<noteq> []"
    using all bad sel by metis
  with r show ?thesis by blast
qed

end
