(* ===== verification/Queues.thy ===== *)
theory Queues
  imports Quota Preemption
begin

text \<open>
  \<^verbatim>\<open>internal/queue/queue.go\<close>: a queue with its quota, labels and preemption configuration.

  A \<^verbatim>\<open>*Queue\<close> is a \<open>queue ptr\<close> and a \<^verbatim>\<open>QueueOption\<close> a function on it. The labels field is an
  interface value, so it has a nil of its own besides the nil map. Queue and quota each have a
  lock; every method is one atomic step.
\<close>

record ('q, 's, 'm) queue =
  queue_name :: string
  queue_quota :: "('q, 'm) quota ptr"
  queue_labels :: "labels ptr"
  queue_preemptionCfg :: "'s preemption_config"

type_synonym ('q, 's, 'm) queue_option = "('q, 's, 'm) queue ptr \<Rightarrow> ('q, 's, 'm) queue ptr"

section \<open>Options\<close>

definition WithQuotaMax :: "'q resources \<Rightarrow> ('q, 's, 'm) queue_option" where
  "WithQuotaMax mx = (\<lambda>q. case q of
     NilP \<Rightarrow> NilP
   | Ptr qv \<Rightarrow> Ptr (qv\<lparr>queue_quota := Quota_SetMax (queue_quota qv) mx\<rparr>))"

definition WithLabels :: "labels ptr \<Rightarrow> ('q, 's, 'm) queue_option" where
  "WithLabels lbls = (\<lambda>q. case q of
     NilP \<Rightarrow> NilP
   | Ptr qv \<Rightarrow> Ptr (qv\<lparr>queue_labels := (if is_nil lbls then Ptr gm_make else lbls)\<rparr>))"

definition WithPreemptionConfig :: "'s preemption_config \<Rightarrow> ('q, 's, 'm) queue_option" where
  "WithPreemptionConfig config = (\<lambda>q. case q of
     NilP \<Rightarrow> NilP
   | Ptr qv \<Rightarrow> Ptr (qv\<lparr>queue_preemptionCfg := config\<rparr>))"

definition Queue_ApplyOpts :: "('q, 's, 'm) queue ptr \<Rightarrow> ('q, 's, 'm) queue_option list \<Rightarrow> ('q, 's, 'm) queue ptr" where
  "Queue_ApplyOpts q opts = (if is_nil q then q else fold (\<lambda>opt q. opt q) opts q)"

definition Queue_New :: "('q, 's, 'm) kube \<Rightarrow> string \<Rightarrow> ('q, 's, 'm) queue_option list \<Rightarrow> ('q, 's, 'm) queue ptr" where
  "Queue_New K name opts = Queue_ApplyOpts
     (Ptr \<lparr>queue_name = name, queue_quota = NewQuota K NilP, queue_labels = Ptr gm_make,
        queue_preemptionCfg = zero_config\<rparr>) opts"

section \<open>Reading\<close>

definition Queue_Name :: "('q, 's, 'm) queue ptr \<Rightarrow> string" where
  "Queue_Name q = (case q of NilP \<Rightarrow> '''' | Ptr qv \<Rightarrow> queue_name qv)"

definition Queue_Quota :: "('q, 's, 'm) queue ptr \<Rightarrow> ('q, 'm) quota ptr" where
  "Queue_Quota q = (case q of NilP \<Rightarrow> NilP | Ptr qv \<Rightarrow> queue_quota qv)"

definition Queue_PreemptionConfig :: "('q, 's, 'm) queue ptr \<Rightarrow> 's preemption_config" where
  "Queue_PreemptionConfig q = (case q of NilP \<Rightarrow> zero_config | Ptr qv \<Rightarrow> queue_preemptionCfg qv)"

definition Queue_Labels :: "('q, 's, 'm) queue ptr \<Rightarrow> labels ptr" where
  "Queue_Labels q = (case q of
     NilP \<Rightarrow> NilP
   | Ptr qv \<Rightarrow> if is_nil (queue_labels qv) then Ptr gm_make else queue_labels qv)"

definition label_value :: "labels \<Rightarrow> string \<Rightarrow> string" where
  "label_value ls k = (case gm_get ls k of None \<Rightarrow> '''' | Some v \<Rightarrow> v)"

definition CanPodBePreemptedByOthers :: "('q, 's, 'm) kube \<Rightarrow> ('q, 's, 'm) queue ptr \<Rightarrow> 'q pod ptr \<Rightarrow> bool option" where
  "CanPodBePreemptedByOthers K q pod = (case q of
     NilP \<Rightarrow> Some False
   | Ptr qv \<Rightarrow> (case pod of
       NilP \<Rightarrow> Some False
     | Ptr p \<Rightarrow>
         if label_value (pod_labels p) LabelKeyQueue \<noteq> queue_name qv then Some False
         else if \<not> CanBePreempted (pc_PreemptedBy (queue_preemptionCfg qv)) then Some False
         else Matches K (pr_ToPods (pc_PreemptedBy (queue_preemptionCfg qv))) (pod_labels p)))"

definition Queue_Clone :: "('q, 's, 'm) kube \<Rightarrow> ('q, 's, 'm) queue ptr \<Rightarrow> ('q, 's, 'm) queue ptr" where
  "Queue_Clone K q = (case q of
     NilP \<Rightarrow> NilP
   | Ptr qv \<Rightarrow> Ptr \<lparr>queue_name = queue_name qv, queue_quota = Quota_Clone K (queue_quota qv),
       queue_labels = queue_labels qv, queue_preemptionCfg = queue_preemptionCfg qv\<rparr>)"

section \<open>Invariant\<close>

definition queue_invar :: "('q, 's, 'm) kube \<Rightarrow> string \<Rightarrow> ('q, 's, 'm) queue \<Rightarrow> bool" where
  "queue_invar K n q \<longleftrightarrow> queue_name q = n \<and> (\<exists>quota. queue_quota q = Ptr quota \<and> quota_invar K quota)"

definition queue_balanced :: "('q, 's, 'm) kube \<Rightarrow> ('q \<Rightarrow> rat) \<Rightarrow> (string \<Rightarrow> 'q resource_list) \<Rightarrow> string \<Rightarrow> ('q, 's, 'm) queue \<Rightarrow> bool" where
  "queue_balanced K amount reqs n q \<longleftrightarrow> queue_name q = n \<and>
     (\<exists>quota. queue_quota q = Ptr quota \<and> quota_balanced K amount reqs quota)"

text \<open>
  Options as the synchronizer builds them: a maximum that is a Go map, labels, a configuration.
  They change neither the name of a queue nor the pods it counts.
\<close>

definition spec_opts :: "'q resources \<Rightarrow> labels ptr \<Rightarrow> 's preemption_config \<Rightarrow> ('q, 's, 'm) queue_option list" where
  "spec_opts mx lbls cfg = [WithQuotaMax mx, WithLabels lbls, WithPreemptionConfig cfg]"

section \<open>Lemmas\<close>

lemma queue_sel [simp]:
  "Queue_Name (Ptr q) = queue_name q" "Queue_Quota (Ptr q) = queue_quota q"
  "Queue_PreemptionConfig (Ptr q) = queue_preemptionCfg q"
  "Queue_Name NilP = ''''" "Queue_Quota NilP = NilP" "Queue_PreemptionConfig NilP = zero_config"
  by (simp_all add: Queue_Name_def Queue_Quota_def Queue_PreemptionConfig_def)

lemma queue_balanced_invar: "queue_balanced K amount reqs n q \<Longrightarrow> queue_invar K n q"
  by (auto simp: queue_balanced_def queue_invar_def quota_balanced_def)

lemma ApplyOpts_spec:
  "Queue_ApplyOpts (Ptr q) (spec_opts mx lbls cfg) =
     Ptr (q\<lparr>queue_quota := Quota_SetMax (queue_quota q) mx,
       queue_labels := (if is_nil lbls then Ptr gm_make else lbls), queue_preemptionCfg := cfg\<rparr>)"
  by (simp add: Queue_ApplyOpts_def spec_opts_def WithQuotaMax_def WithLabels_def WithPreemptionConfig_def)

lemma New_spec:
  "Queue_New K name (spec_opts mx lbls cfg) =
     Ptr \<lparr>queue_name = name,
       queue_quota = Ptr \<lparr>quota_max = mx, quota_used = gm_make, quota_podsByID = imm_New K\<rparr>,
       queue_labels = (if is_nil lbls then Ptr gm_make else lbls), queue_preemptionCfg = cfg\<rparr>"
  by (simp add: Queue_New_def ApplyOpts_spec NewQuota_def Quota_SetMax_def)

lemma SetMax_balanced:
  "quota_balanced K amount reqs quota \<Longrightarrow> gm_wf mx \<Longrightarrow> quota_balanced K amount reqs (quota\<lparr>quota_max := mx\<rparr>)"
  by (auto simp: quota_balanced_def quota_invar_def quota_tracked_def)

lemma ApplyOpts_balanced:
  assumes "queue_balanced K amount reqs n q" and "gm_wf mx"
  shows "\<exists>q'. Queue_ApplyOpts (Ptr q) (spec_opts mx lbls cfg) = Ptr q' \<and> queue_balanced K amount reqs n q'"
  using assms by (auto simp: ApplyOpts_spec queue_balanced_def Quota_SetMax_def SetMax_balanced)

context kube_laws
begin

lemma Queue_Clone_eq: "queue_invar K n q \<Longrightarrow> Queue_Clone K (Ptr q) = Ptr q"
  by (auto simp: Queue_Clone_def queue_invar_def Quota_Clone_eq)

lemma New_balanced:
  "gm_wf mx \<Longrightarrow> \<exists>q. Queue_New K n (spec_opts mx lbls cfg) = Ptr q \<and> queue_balanced K amount reqs n q"
  using NewQuota_balanced [of mx reqs] by (auto simp: New_spec queue_balanced_def NewQuota_def)

end

end
