(* ===== verification/Manager.thy ===== *)
theory Manager
  imports Queues
begin

text \<open>
  \<^verbatim>\<open>internal/queue/manager.go\<close>: the queues by name, and counting a pod in the queue its label
  names.

  The manager's map holds pointers to queues that other code keeps and mutates. Within one
  manager a queue is reached only through its name, so a mutation of the queue a pointer denotes
  is an update of the map at that name; the theories \<open>Store\<close>, \<open>StoreRefine\<close> and \<open>Concurrency\<close>
  justify this for the pointers and the locks of the code. \<^verbatim>\<open>QueueIter\<close> runs over a clone and is the
  list of its queues.
\<close>

record ('q, 's, 'm) manager =
  mgr_queueByName :: "(string, ('q, 's, 'm) queue ptr) gomap"

datatype mgr_error = ErrAddPodToQuota string | ErrRemovePodFromQuota string

definition NewManager :: "('q, 's, 'm) manager" where
  "NewManager = \<lparr>mgr_queueByName = gm_make\<rparr>"

section \<open>Queues\<close>

definition Manager_GetByName :: "('q, 's, 'm) manager \<Rightarrow> string \<Rightarrow> ('q, 's, 'm) queue ptr" where
  "Manager_GetByName qm name = opt_ptr (gm_get (mgr_queueByName qm) name)"

definition Manager_Get :: "('q, 's, 'm) manager \<Rightarrow> 'q pod ptr \<Rightarrow> ('q, 's, 'm) queue ptr" where
  "Manager_Get qm pod = (case pod of
     NilP \<Rightarrow> NilP
   | Ptr p \<Rightarrow> (case gm_get (pod_labels p) LabelKeyQueue of
       None \<Rightarrow> NilP
     | Some name \<Rightarrow> Manager_GetByName qm name))"

definition mgr_store :: "string \<Rightarrow> ('q, 's, 'm) queue ptr \<Rightarrow> ('q, 's, 'm) manager \<Rightarrow> ('q, 's, 'm) manager option" where
  "mgr_store name q qm = do {
     m \<leftarrow> gm_set (mgr_queueByName qm) name q;
     Some (qm\<lparr>mgr_queueByName := m\<rparr>) }"

definition Manager_Put :: "('q, 's, 'm) kube \<Rightarrow> string \<Rightarrow> ('q, 's, 'm) queue_option list \<Rightarrow> ('q, 's, 'm) manager \<Rightarrow> ('q, 's, 'm) manager option" where
  "Manager_Put K name opts qm = mgr_store name (Queue_New K name opts) qm"

definition Manager_Update :: "('q, 's, 'm) kube \<Rightarrow> string \<Rightarrow> ('q, 's, 'm) queue_option list \<Rightarrow> ('q, 's, 'm) manager \<Rightarrow> ('q, 's, 'm) manager option" where
  "Manager_Update K name opts qm =
     (if opts = [] then Some qm
      else case Manager_GetByName qm name of
        NilP \<Rightarrow> mgr_store name (Queue_New K name opts) qm
      | Ptr q \<Rightarrow> mgr_store name (Queue_ApplyOpts (Ptr q) opts) qm)"

definition Manager_Delete :: "string \<Rightarrow> ('q, 's, 'm) manager \<Rightarrow> ('q, 's, 'm) manager" where
  "Manager_Delete name qm = qm\<lparr>mgr_queueByName := gm_delete (mgr_queueByName qm) name\<rparr>"

definition Manager_Clone :: "('q, 's, 'm) kube \<Rightarrow> ('q, 's, 'm) manager \<Rightarrow> ('q, 's, 'm) manager" where
  "Manager_Clone K qm = \<lparr>mgr_queueByName = (case mgr_queueByName qm of
     NilP \<Rightarrow> NilP
   | Ptr es \<Rightarrow> Ptr (fold (\<lambda>(name, queue). AList.update name (Queue_Clone K queue)) es es))\<rparr>"

definition Manager_QueueIter :: "('q, 's, 'm) kube \<Rightarrow> ('q, 's, 'm) manager \<Rightarrow> ('q, 's, 'm) queue ptr list" where
  "Manager_QueueIter K qm = map snd (gm_entries (mgr_queueByName (Manager_Clone K qm)))"

section \<open>Pods\<close>

definition Manager_AddPodIfNotPresent :: "('q, 's, 'm) kube \<Rightarrow> 'q pod ptr \<Rightarrow> ('q, 's, 'm) manager \<Rightarrow> (('q, 's, 'm) manager \<times> mgr_error option) option" where
  "Manager_AddPodIfNotPresent K pod qm = (case pod of
     NilP \<Rightarrow> Some (qm, None)
   | Ptr p \<Rightarrow> (case gm_get (pod_labels p) LabelKeyQueue of
       None \<Rightarrow> Some (qm, None)
     | Some queueName \<Rightarrow> (case Manager_GetByName qm queueName of
         NilP \<Rightarrow> Some (qm, Some (ErrAddPodToQuota queueName))
       | Ptr q \<Rightarrow> do {
           quota \<leftarrow> Quota_AddPodIfNotPresent K (queue_quota q) [pod];
           qm' \<leftarrow> mgr_store queueName (Ptr (q\<lparr>queue_quota := quota\<rparr>)) qm;
           Some (qm', None) })))"

definition Manager_DeletePodIfPresent :: "('q, 's, 'm) kube \<Rightarrow> 'q pod ptr \<Rightarrow> ('q, 's, 'm) manager \<Rightarrow> (('q, 's, 'm) manager \<times> mgr_error option) option" where
  "Manager_DeletePodIfPresent K pod qm = (case pod of
     NilP \<Rightarrow> Some (qm, None)
   | Ptr p \<Rightarrow> (case gm_get (pod_labels p) LabelKeyQueue of
       None \<Rightarrow> Some (qm, None)
     | Some queueName \<Rightarrow> (case Manager_GetByName qm queueName of
         NilP \<Rightarrow> Some (qm, Some (ErrRemovePodFromQuota queueName))
       | Ptr q \<Rightarrow> do {
           quota \<leftarrow> Quota_DeletePodIfPresent K (queue_quota q) [pod];
           qm' \<leftarrow> mgr_store queueName (Ptr (q\<lparr>queue_quota := quota\<rparr>)) qm;
           Some (qm', None) })))"

section \<open>Invariant\<close>

definition mgr_balanced :: "('q, 's, 'm) kube \<Rightarrow> ('q \<Rightarrow> rat) \<Rightarrow> (string \<Rightarrow> 'q resource_list) \<Rightarrow> ('q, 's, 'm) manager \<Rightarrow> bool" where
  "mgr_balanced K amount reqs qm \<longleftrightarrow> mgr_queueByName qm \<noteq> NilP \<and> gm_wf (mgr_queueByName qm) \<and>
     (\<forall>n qp. gm_get (mgr_queueByName qm) n = Some qp \<longrightarrow>
        (\<exists>q. qp = Ptr q \<and> queue_balanced K amount reqs n q))"

text \<open>The pods a queue counts, by identifier; none for a queue that does not exist.\<close>

definition mgr_tracked :: "('q, 's, 'm) kube \<Rightarrow> ('q, 's, 'm) manager \<Rightarrow> string \<Rightarrow> string set" where
  "mgr_tracked K qm n = (case Manager_GetByName qm n of
     NilP \<Rightarrow> {}
   | Ptr q \<Rightarrow> (case queue_quota q of NilP \<Rightarrow> {} | Ptr quota \<Rightarrow> quota_tracked K quota))"

definition mgr_used :: "('q \<Rightarrow> rat) \<Rightarrow> ('q, 's, 'm) manager \<Rightarrow> string \<Rightarrow> string \<Rightarrow> rat" where
  "mgr_used amount qm n r = res_amount amount (Quota_Used (Queue_Quota (Manager_GetByName qm n))) r"

text \<open>The queue a specification creates, and what it makes of an existing queue.\<close>

fun fresh_queue :: "('q, 's, 'm) kube \<Rightarrow> string \<Rightarrow> 'q resources \<times> labels ptr \<times> 's preemption_config \<Rightarrow> ('q, 's, 'm) queue" where
  "fresh_queue K n (mx, lbls, cfg) = \<lparr>queue_name = n,
     queue_quota = Ptr \<lparr>quota_max = mx, quota_used = gm_make, quota_podsByID = imm_New K\<rparr>,
     queue_labels = (if is_nil lbls then Ptr gm_make else lbls), queue_preemptionCfg = cfg\<rparr>"

fun respec_queue :: "'q resources \<times> labels ptr \<times> 's preemption_config \<Rightarrow> ('q, 's, 'm) queue \<Rightarrow> ('q, 's, 'm) queue" where
  "respec_queue (mx, lbls, cfg) q = q\<lparr>queue_quota := Quota_SetMax (queue_quota q) mx,
     queue_labels := (if is_nil lbls then Ptr gm_make else lbls), queue_preemptionCfg := cfg\<rparr>"

text \<open>
  Counting a pod touches only the queue its label names: there the pod is added to, or removed
  from, the counted pods, and the queue's maximum, labels and configuration stay.
\<close>

definition pod_queue :: "'q pod \<Rightarrow> string option" where
  "pod_queue p = gm_get (pod_labels p) LabelKeyQueue"

definition queue_frame :: "('q, 's, 'm) manager \<Rightarrow> ('q, 's, 'm) manager \<Rightarrow> bool" where
  "queue_frame qm qm' \<longleftrightarrow> (\<forall>n. is_nil (Manager_GetByName qm n) = is_nil (Manager_GetByName qm' n) \<and>
     Queue_PreemptionConfig (Manager_GetByName qm n) = Queue_PreemptionConfig (Manager_GetByName qm' n) \<and>
     Quota_Max (Queue_Quota (Manager_GetByName qm n)) = Quota_Max (Queue_Quota (Manager_GetByName qm' n)))"

text \<open>
  The pods of a set and a request fit under a maximum: on every resource the maximum names, the
  requests add up to no more.
\<close>

definition fits_max :: "('q \<Rightarrow> rat) \<Rightarrow> (string \<Rightarrow> 'q resource_list) \<Rightarrow> 'q resources \<Rightarrow> string set \<Rightarrow> (string \<Rightarrow> rat) \<Rightarrow> bool" where
  "fits_max amount reqs mx S w \<longleftrightarrow> (\<forall>r \<in> gm_dom mx. (\<Sum>u \<in> S. uid_req amount reqs u r) + w r \<le> res_amount amount mx r)"

definition max_nonneg :: "('q \<Rightarrow> rat) \<Rightarrow> 'q resources \<Rightarrow> bool" where
  "max_nonneg amount mx \<longleftrightarrow> (\<forall>r \<in> gm_dom mx. 0 \<le> res_amount amount mx r)"

definition reqs_nonneg :: "('q \<Rightarrow> rat) \<Rightarrow> (string \<Rightarrow> 'q resource_list) \<Rightarrow> bool" where
  "reqs_nonneg amount reqs \<longleftrightarrow> (\<forall>u r. 0 \<le> res_amount amount (reqs u) r)"

section \<open>The manager as a store of queues\<close>

text \<open>
  What the rest of the scheduler relies on: the queue of a name after an operation on that name
  or on another one.
\<close>

locale queue_store =
  fixes invar :: "'st \<Rightarrow> bool"
    and get :: "'st \<Rightarrow> string \<Rightarrow> 'v ptr"
    and create :: "string \<Rightarrow> 'o \<Rightarrow> 'v"
    and modify :: "'o \<Rightarrow> 'v \<Rightarrow> 'v"
    and put :: "string \<Rightarrow> 'o \<Rightarrow> 'st \<Rightarrow> 'st option"
    and upd :: "string \<Rightarrow> 'o \<Rightarrow> 'st \<Rightarrow> 'st option"
    and del :: "string \<Rightarrow> 'st \<Rightarrow> 'st"
  assumes put_ok: "invar s \<Longrightarrow> \<exists>s'. put n os s = Some s' \<and> invar s' \<and>
      (\<forall>n'. get s' n' = (if n' = n then Ptr (create n os) else get s n'))"
    and upd_ok: "invar s \<Longrightarrow> \<exists>s'. upd n os s = Some s' \<and> invar s' \<and>
      (\<forall>n'. get s' n' = (if n' = n then
          Ptr (case get s n of NilP \<Rightarrow> create n os | Ptr v \<Rightarrow> modify os v) else get s n'))"
    and del_ok: "invar s \<Longrightarrow> invar (del n s) \<and> (\<forall>n'. get (del n s) n' = (if n' = n then NilP else get s n'))"
begin

lemma put_forgets:
  assumes "invar s"
  shows "\<exists>s' s''. put n os s = Some s' \<and> put n os (del n s) = Some s'' \<and> (\<forall>n'. get s' n' = get s'' n')"
  using put_ok [OF assms, of n os] put_ok [of "del n s" n os] del_ok [OF assms, of n] by force

lemma upd_after_del:
  assumes "invar s"
  shows "\<exists>s'. upd n os (del n s) = Some s' \<and> get s' n = Ptr (create n os)"
  using upd_ok [of "del n s" n os] del_ok [OF assms, of n] by force

end


lemma GetByName_store:
  "mgr_store n q qm = Some qm' \<Longrightarrow> Manager_GetByName qm' n' = (if n' = n then q else Manager_GetByName qm n')"
  by (auto simp: mgr_store_def Manager_GetByName_def gm_get_set split: bind_splits)

lemma mgr_store_defined: "mgr_queueByName qm \<noteq> NilP \<Longrightarrow> \<exists>qm'. mgr_store n q qm = Some qm'"
  using gm_set_defined [of "mgr_queueByName qm" n q] by (auto simp: mgr_store_def)

lemma mgr_store_not_nil: "mgr_store n q qm = Some qm' \<Longrightarrow> mgr_queueByName qm' \<noteq> NilP"
  by (auto simp: mgr_store_def gm_set_not_nil split: bind_splits)

lemma GetByName_delete:
  "Manager_GetByName (Manager_Delete n qm) n' = (if n' = n then NilP else Manager_GetByName qm n')"
  by (simp add: Manager_Delete_def Manager_GetByName_def gm_get_delete)

lemma Put_spec: "Manager_Put K n (spec_opts mx lbls cfg) qm = mgr_store n (Ptr (fresh_queue K n (mx, lbls, cfg))) qm"
  by (simp add: Manager_Put_def New_spec)

lemma Update_spec:
  "Manager_Update K n (spec_opts mx lbls cfg) qm = mgr_store n (Ptr (case Manager_GetByName qm n of
     NilP \<Rightarrow> fresh_queue K n (mx, lbls, cfg) | Ptr q \<Rightarrow> respec_queue (mx, lbls, cfg) q)) qm"
  by (simp add: Manager_Update_def New_spec ApplyOpts_spec split: ptr.split) (simp add: spec_opts_def)

interpretation qstore: queue_store "\<lambda>qm. mgr_queueByName qm \<noteq> NilP" Manager_GetByName "fresh_queue K"
  respec_queue "\<lambda>n (mx, lbls, cfg). Manager_Put K n (spec_opts mx lbls cfg)"
  "\<lambda>n (mx, lbls, cfg). Manager_Update K n (spec_opts mx lbls cfg)" Manager_Delete
  for K :: "('q, 's, 'm) kube"
proof
  fix qm :: "('q, 's, 'm) manager" and n :: string and os :: "'q resources \<times> labels ptr \<times> 's preemption_config"
  assume nn: "mgr_queueByName qm \<noteq> NilP"
  obtain mx lbls cfg where os: "os = (mx, lbls, cfg)" by (cases os)
  show "\<exists>qm'. (case os of (mx, lbls, cfg) \<Rightarrow> Manager_Put K n (spec_opts mx lbls cfg)) qm = Some qm' \<and>
      mgr_queueByName qm' \<noteq> NilP \<and> (\<forall>n'. Manager_GetByName qm' n' =
        (if n' = n then Ptr (fresh_queue K n os) else Manager_GetByName qm n'))"
    using mgr_store_defined [OF nn, of n "Ptr (fresh_queue K n os)"]
    unfolding os by (auto simp: Put_spec GetByName_store mgr_store_not_nil simp del: fresh_queue.simps)
  show "\<exists>qm'. (case os of (mx, lbls, cfg) \<Rightarrow> Manager_Update K n (spec_opts mx lbls cfg)) qm = Some qm' \<and>
      mgr_queueByName qm' \<noteq> NilP \<and> (\<forall>n'. Manager_GetByName qm' n' = (if n' = n then
        Ptr (case Manager_GetByName qm n of NilP \<Rightarrow> fresh_queue K n os | Ptr v \<Rightarrow> respec_queue os v)
        else Manager_GetByName qm n'))"
    using mgr_store_defined [OF nn, of n "Ptr (case Manager_GetByName qm n of
        NilP \<Rightarrow> fresh_queue K n os | Ptr v \<Rightarrow> respec_queue os v)"]
    unfolding os by (auto simp: Update_spec GetByName_store mgr_store_not_nil
        simp del: fresh_queue.simps respec_queue.simps)
  show "mgr_queueByName (Manager_Delete n qm) \<noteq> NilP \<and> (\<forall>n'. Manager_GetByName (Manager_Delete n qm) n' =
      (if n' = n then NilP else Manager_GetByName qm n'))"
    using nn by (simp add: GetByName_delete) (simp add: Manager_Delete_def)
qed

section \<open>Every operation keeps the usage right\<close>

lemma mgr_balancedD:
  assumes "mgr_balanced K amount reqs qm" and "Manager_GetByName qm n = Ptr q"
  obtains quota where "queue_name q = n" "queue_quota q = Ptr quota" "quota_balanced K amount reqs quota"
proof -
  from assms(2) have "gm_get (mgr_queueByName qm) n = Some (Ptr q)"
    by (cases "gm_get (mgr_queueByName qm) n") (auto simp: Manager_GetByName_def)
  with assms(1) have "queue_balanced K amount reqs n q" by (fastforce simp: mgr_balanced_def)
  then show thesis using that by (auto simp: queue_balanced_def)
qed

lemma mgr_balanced_store:
  assumes "mgr_balanced K amount reqs qm" and "queue_balanced K amount reqs n q"
  shows "\<exists>qm'. mgr_store n (Ptr q) qm = Some qm' \<and> mgr_balanced K amount reqs qm'"
proof -
  obtain m where m: "gm_set (mgr_queueByName qm) n (Ptr q) = Some m"
    using assms(1) gm_set_defined [of "mgr_queueByName qm" n "Ptr q"] by (auto simp: mgr_balanced_def)
  then have "mgr_store n (Ptr q) qm = Some (qm\<lparr>mgr_queueByName := m\<rparr>)" by (simp add: mgr_store_def)
  moreover have "mgr_balanced K amount reqs (qm\<lparr>mgr_queueByName := m\<rparr>)"
    using assms m by (auto simp: mgr_balanced_def gm_set_not_nil gm_wf_set [OF m] gm_get_set [OF m])
  ultimately show ?thesis by blast
qed

lemma mgr_balanced_delete: "mgr_balanced K amount reqs qm \<Longrightarrow> mgr_balanced K amount reqs (Manager_Delete n qm)"
  by (auto simp: mgr_balanced_def Manager_Delete_def gm_wf_delete gm_get_delete split: if_splits)

lemma mgr_balanced_new: "mgr_balanced K amount reqs NewManager"
  by (simp add: mgr_balanced_def NewManager_def)


lemma queue_frame_refl: "queue_frame qm qm"
  by (simp add: queue_frame_def)

lemma queue_frame_trans: "queue_frame a b \<Longrightarrow> queue_frame b c \<Longrightarrow> queue_frame a c"
  by (simp add: queue_frame_def)

lemma queue_frame_nil:
  "queue_frame qm qm' \<Longrightarrow> Manager_GetByName qm' n = NilP \<longleftrightarrow> Manager_GetByName qm n = NilP"
  by (auto simp: queue_frame_def is_nil_iff)

lemma Manager_Get_queue:
  "Manager_Get qm (Ptr p) = (case pod_queue p of None \<Rightarrow> NilP | Some n \<Rightarrow> Manager_GetByName qm n)"
  by (simp add: Manager_Get_def pod_queue_def)

lemma queue_frame_store:
  assumes "Manager_GetByName qm n = Ptr q" and "queue_quota q = Ptr quota" and "quota_max quota' = quota_max quota"
    and "mgr_store n (Ptr (q\<lparr>queue_quota := Ptr quota'\<rparr>)) qm = Some qm'"
  shows "queue_frame qm qm'"
  using assms by (auto simp: queue_frame_def GetByName_store [OF assms(4)] Quota_Max_def)

lemma mgr_tracked_store:
  assumes "mgr_store n (Ptr (q\<lparr>queue_quota := Ptr quota'\<rparr>)) qm = Some qm'"
  shows "mgr_tracked K qm' n' = (if n' = n then quota_tracked K quota' else mgr_tracked K qm n')"
  by (simp add: mgr_tracked_def GetByName_store [OF assms])

lemma mgr_tracked_queue:
  "Manager_GetByName qm n = Ptr q \<Longrightarrow> queue_quota q = Ptr quota \<Longrightarrow> mgr_tracked K qm n = quota_tracked K quota"
  by (simp add: mgr_tracked_def)

context kube_laws
begin

lemma Manager_Put_balanced:
  assumes "mgr_balanced K amount reqs qm" and "gm_wf mx"
  shows "\<exists>qm'. Manager_Put K n (spec_opts mx lbls cfg) qm = Some qm' \<and> mgr_balanced K amount reqs qm'"
  using New_balanced [OF assms(2), of n lbls cfg reqs] mgr_balanced_store [OF assms(1)]
  by (auto simp: Manager_Put_def)

lemma Manager_Update_balanced:
  assumes "mgr_balanced K amount reqs qm" and "gm_wf mx"
  shows "\<exists>qm'. Manager_Update K n (spec_opts mx lbls cfg) qm = Some qm' \<and> mgr_balanced K amount reqs qm'"
proof (cases "Manager_GetByName qm n")
  case NilP
  with New_balanced [OF assms(2), of n lbls cfg reqs] mgr_balanced_store [OF assms(1)] show ?thesis
    by (auto simp: Manager_Update_def spec_opts_def)
next
  case (Ptr q)
  from mgr_balancedD [OF assms(1) Ptr] have "queue_balanced K amount reqs n q"
    by (metis queue_balanced_def)
  with ApplyOpts_balanced [OF this assms(2), of lbls cfg] mgr_balanced_store [OF assms(1)] Ptr show ?thesis
    by (auto simp: Manager_Update_def spec_opts_def)
qed

lemma Manager_AddPod_result:
  assumes bal: "mgr_balanced K amount reqs qm" and ok: "pod_ok K reqs p"
  shows "\<exists>qm' err. Manager_AddPodIfNotPresent K (Ptr p) qm = Some (qm', err) \<and>
    mgr_balanced K amount reqs qm' \<and> queue_frame qm qm' \<and>
    (\<forall>n. mgr_tracked K qm' n = (if pod_queue p = Some n \<and> Manager_GetByName qm n \<noteq> NilP
      then insert (pod_uid p) (mgr_tracked K qm n) else mgr_tracked K qm n)) \<and>
    err = (case pod_queue p of None \<Rightarrow> None
      | Some n \<Rightarrow> if Manager_GetByName qm n = NilP then Some (ErrAddPodToQuota n) else None)"
proof (cases "\<exists>n q. pod_queue p = Some n \<and> Manager_GetByName qm n = Ptr q")
  case False
  then show ?thesis using bal
    by (cases "pod_queue p"; cases "Manager_GetByName qm (the (pod_queue p))")
      (auto simp: Manager_AddPodIfNotPresent_def pod_queue_def queue_frame_refl)
next
  case True
  then obtain n q where n: "pod_queue p = Some n" "Manager_GetByName qm n = Ptr q" by blast
  from mgr_balancedD [OF bal n(2)] obtain quota where
    quota: "queue_name q = n" "queue_quota q = Ptr quota" "quota_balanced K amount reqs quota" by metis
  from Quota_Add_balanced [OF quota(3), of "[p]"] ok obtain quota' where
    quota': "Quota_AddPodIfNotPresent K (Ptr quota) [Ptr p] = Some (Ptr quota')"
      "quota_balanced K amount reqs quota'" "quota_max quota' = quota_max quota"
      "quota_tracked K quota' = insert (pod_uid p) (quota_tracked K quota)" by auto
  then have "queue_balanced K amount reqs n (q\<lparr>queue_quota := Ptr quota'\<rparr>)"
    using quota by (simp add: queue_balanced_def)
  from mgr_balanced_store [OF bal this] obtain qm' where
    qm': "mgr_store n (Ptr (q\<lparr>queue_quota := Ptr quota'\<rparr>)) qm = Some qm'" "mgr_balanced K amount reqs qm'" by blast
  have "Manager_AddPodIfNotPresent K (Ptr p) qm = Some (qm', None)"
    using n quota quota' qm' by (simp add: Manager_AddPodIfNotPresent_def pod_queue_def)
  then show ?thesis
    using n qm' quota' queue_frame_store [OF n(2) quota(2) quota'(3) qm'(1)]
      mgr_tracked_store [OF qm'(1), of K] mgr_tracked_queue [OF n(2) quota(2), of K] by auto
qed

lemma Manager_DeletePod_result:
  assumes bal: "mgr_balanced K amount reqs qm" and ok: "pod_ok K reqs p"
  shows "\<exists>qm' err. Manager_DeletePodIfPresent K (Ptr p) qm = Some (qm', err) \<and>
    mgr_balanced K amount reqs qm' \<and> queue_frame qm qm' \<and>
    (\<forall>n. mgr_tracked K qm' n = (if pod_queue p = Some n
      then mgr_tracked K qm n - {pod_uid p} else mgr_tracked K qm n)) \<and>
    err = (case pod_queue p of None \<Rightarrow> None
      | Some n \<Rightarrow> if Manager_GetByName qm n = NilP then Some (ErrRemovePodFromQuota n) else None)"
proof (cases "\<exists>n q. pod_queue p = Some n \<and> Manager_GetByName qm n = Ptr q")
  case False
  then show ?thesis using bal
    by (cases "pod_queue p"; cases "Manager_GetByName qm (the (pod_queue p))")
      (auto simp: Manager_DeletePodIfPresent_def pod_queue_def queue_frame_refl mgr_tracked_def)
next
  case True
  then obtain n q where n: "pod_queue p = Some n" "Manager_GetByName qm n = Ptr q" by blast
  from mgr_balancedD [OF bal n(2)] obtain quota where
    quota: "queue_name q = n" "queue_quota q = Ptr quota" "quota_balanced K amount reqs quota" by metis
  from Quota_Delete_balanced [OF quota(3), of "[p]"] ok obtain quota' where
    quota': "Quota_DeletePodIfPresent K (Ptr quota) [Ptr p] = Some (Ptr quota')"
      "quota_balanced K amount reqs quota'" "quota_max quota' = quota_max quota"
      "quota_tracked K quota' = quota_tracked K quota - {pod_uid p}" by auto
  then have "queue_balanced K amount reqs n (q\<lparr>queue_quota := Ptr quota'\<rparr>)"
    using quota by (simp add: queue_balanced_def)
  from mgr_balanced_store [OF bal this] obtain qm' where
    qm': "mgr_store n (Ptr (q\<lparr>queue_quota := Ptr quota'\<rparr>)) qm = Some qm'" "mgr_balanced K amount reqs qm'" by blast
  have "Manager_DeletePodIfPresent K (Ptr p) qm = Some (qm', None)"
    using n quota quota' qm' by (simp add: Manager_DeletePodIfPresent_def pod_queue_def)
  then show ?thesis
    using n qm' quota' queue_frame_store [OF n(2) quota(2) quota'(3) qm'(1)]
      mgr_tracked_store [OF qm'(1), of K] mgr_tracked_queue [OF n(2) quota(2), of K] by auto
qed

lemma mgr_used_sum:
  assumes "mgr_balanced K amount reqs qm"
  shows "mgr_used amount qm n r = (\<Sum>u \<in> mgr_tracked K qm n. uid_req amount reqs u r)"
proof (cases "Manager_GetByName qm n")
  case NilP
  then show ?thesis by (simp add: mgr_used_def mgr_tracked_def Quota_Used_def)
next
  case (Ptr q)
  from mgr_balancedD [OF assms Ptr] obtain quota where
    "queue_quota q = Ptr quota" "quota_balanced K amount reqs quota" by metis
  then show ?thesis using quota_balanced_used
    by (simp add: mgr_used_def mgr_tracked_queue [OF Ptr] Ptr Quota_Used_def)
qed

lemma finite_mgr_tracked: "finite (mgr_tracked K qm n)"
  by (simp add: mgr_tracked_def quota_tracked_def finite_Get split: ptr.split)

lemma fits_max_mono:
  assumes "fits_max amount reqs mx T w" and "S \<subseteq> T" and "finite T" and "reqs_nonneg amount reqs"
  shows "fits_max amount reqs mx S w"
  unfolding fits_max_def
proof
  fix r
  assume "r \<in> gm_dom mx"
  with assms(1) have "(\<Sum>u \<in> T. uid_req amount reqs u r) + w r \<le> res_amount amount mx r" by (simp add: fits_max_def)
  moreover have "(\<Sum>u \<in> S. uid_req amount reqs u r) \<le> (\<Sum>u \<in> T. uid_req amount reqs u r)"
    using assms(2-4) by (intro sum_mono2) (auto simp: uid_req_def reqs_nonneg_def)
  ultimately show "(\<Sum>u \<in> S. uid_req amount reqs u r) + w r \<le> res_amount amount mx r" by simp
qed

text \<open>The check of the code, on the pods the queue counts.\<close>

lemma over_max_result:
  assumes "mgr_balanced K amount reqs qm" and "Manager_GetByName qm n = Ptr q"
    and "max_nonneg amount (Quota_Max (queue_quota q))" and "FromPodReq K (Ptr p) = Some req"
  shows "Quota_WouldPutOverMax K (queue_quota q) req =
    Some (\<not> fits_max amount reqs (Quota_Max (queue_quota q)) (mgr_tracked K qm n) (pod_req K amount p))"
proof -
  from mgr_balancedD [OF assms(1,2)] obtain quota where
    quota: "queue_quota q = Ptr quota" "quota_balanced K amount reqs quota" by metis
  have req': "gm_wf req" "gm_dom req = pod_req_names K p" "\<forall>n. res_amount amount req n = pod_req K amount p n"
    using FromPodReq_result [of p] assms(4) by auto
  have zero: "r \<in> gm_dom (quota_used quota) \<union> gm_dom req \<or>
      res_amount amount (quota_used quota) r + res_amount amount req r = 0" for r
    by (cases "r \<in> gm_dom (quota_used quota)"; cases "r \<in> gm_dom req") (simp_all add: res_amount_absent)
  have "(\<exists>r \<in> (gm_dom (quota_used quota) \<union> gm_dom req) \<inter> gm_dom (quota_max quota).
      res_amount amount (quota_max quota) r < res_amount amount (quota_used quota) r + res_amount amount req r) \<longleftrightarrow>
    (\<exists>r \<in> gm_dom (quota_max quota).
      res_amount amount (quota_max quota) r < res_amount amount (quota_used quota) r + res_amount amount req r)"
    using zero assms(3) by (fastforce simp: max_nonneg_def quota(1) Quota_Max_def)
  with WouldPutOverMax_result [OF quota_balanced_invar [OF quota(2)] req'(1)] show ?thesis
    using quota_balanced_used [OF quota(2)] req'(3)
    by (simp add: quota(1) Quota_Max_def fits_max_def mgr_tracked_queue [OF assms(2) quota(1)] not_le)
qed

text \<open>A snapshot is equal to the manager it was taken from.\<close>

lemma Manager_Clone_eq:
  assumes "mgr_balanced K amount reqs qm"
  shows "Manager_Clone K qm = qm"
proof -
  obtain es where es: "mgr_queueByName qm = Ptr es"
    using assms by (cases "mgr_queueByName qm") (auto simp: mgr_balanced_def)
  have "map_of es n = Some (Queue_Clone K qp)" if "(n, qp) \<in> set es" for n qp
  proof -
    from that assms es have "map_of es n = Some qp" by (simp add: mgr_balanced_def gm_wf_Ptr)
    moreover from this assms es obtain q where "qp = Ptr q" "queue_balanced K amount reqs n q"
      by (auto simp: mgr_balanced_def)
    ultimately show ?thesis by (simp add: Queue_Clone_eq [OF queue_balanced_invar])
  qed
  then have "fold (\<lambda>(n, q). AList.update n (Queue_Clone K q)) es es = es"
    by (rule fold_update_triv)
  then show ?thesis using es by (simp add: Manager_Clone_def)
qed

end

section \<open>Properties\<close>

text \<open>
  \<^verbatim>\<open>AddPodIfNotPresent\<close> of the manager never panics and touches only the queue the pod's label
  names: that queue counts the pod from then on, every other queue counts and uses what it did,
  and every queue keeps its maximum and its preemption configuration. It returns an error exactly
  when the label names a queue that does not exist.
\<close>

theorem AddPod_touches_one_queue:
  assumes "kube_laws K amount" and "mgr_balanced K amount reqs qm" and "pod_ok K reqs p"
  shows "\<exists>qm' err. Manager_AddPodIfNotPresent K (Ptr p) qm = Some (qm', err) \<and> queue_frame qm qm' \<and>
    (\<forall>n r. pod_queue p \<noteq> Some n \<longrightarrow> mgr_used amount qm' n r = mgr_used amount qm n r) \<and>
    (\<forall>n. pod_queue p = Some n \<longrightarrow> Manager_GetByName qm n \<noteq> NilP \<longrightarrow> pod_uid p \<in> mgr_tracked K qm' n) \<and>
    (err \<noteq> None \<longleftrightarrow> (\<exists>n. pod_queue p = Some n \<and> Manager_GetByName qm n = NilP))"
proof -
  from kube_laws.Manager_AddPod_result [OF assms] obtain qm' err where
    res: "Manager_AddPodIfNotPresent K (Ptr p) qm = Some (qm', err)" "mgr_balanced K amount reqs qm'" "queue_frame qm qm'"
      "\<forall>n. mgr_tracked K qm' n = (if pod_queue p = Some n \<and> Manager_GetByName qm n \<noteq> NilP
        then insert (pod_uid p) (mgr_tracked K qm n) else mgr_tracked K qm n)"
      "err = (case pod_queue p of None \<Rightarrow> None
        | Some n \<Rightarrow> if Manager_GetByName qm n = NilP then Some (ErrAddPodToQuota n) else None)" by blast
  have "mgr_used amount qm' n r = mgr_used amount qm n r" if "pod_queue p \<noteq> Some n" for n r
    using that res(4) kube_laws.mgr_used_sum [OF assms(1,2)] kube_laws.mgr_used_sum [OF assms(1) res(2)] by simp
  with res(1,3-) show ?thesis by (auto split: option.splits)
qed

theorem AddPod_touches_one_queue_witness:
  "\<exists>qm' err. Manager_AddPodIfNotPresent ref_kube (Ptr (ref_pod ''p'' ''missing'' 1 500)) NewManager = Some (qm', err) \<and>
    err \<noteq> None"
proof -
  have "pod_ok ref_kube (\<lambda>u. Ptr [(''cpu'', 500)]) (ref_pod ''p'' ''missing'' 1 500)"
    by (simp add: pod_ok_def ref_pod_requests_def ref_pod_def)
  from AddPod_touches_one_queue [OF ref_laws.kube_laws_axioms mgr_balanced_new this] show ?thesis
    by (elim exE conjE, intro exI conjI)
      (assumption, simp add: pod_queue_def ref_pod_def LabelKeyQueue_eq Manager_GetByName_def NewManager_def)
qed

end
