(* ===== verification/PreemptionEval.thy ===== *)
theory PreemptionEval
  imports Manager
begin

text \<open>
  The evaluator of \<^verbatim>\<open>internal/queue/preemption.go\<close>: whether one pod may preempt another, from
  their priorities and the preemption rules of their queues.

  \<^verbatim>\<open>NewPreemptionEvaluator\<close> reads the preemptor's priority, so it panics on a nil preemptor; the
  other methods accept nil pods. The evaluator holds the manager it was created with.
\<close>

record ('q, 's, 'm) preemption_evaluator =
  pe_queueMgr :: "('q, 's, 'm) manager"
  pe_preemptor :: "'q pod ptr"
  pe_preemptorQ :: "('q, 's, 'm) queue ptr"
  pe_preemptorPrio :: int32

definition NewPreemptionEvaluator :: "('q, 's, 'm) kube \<Rightarrow> ('q, 's, 'm) manager \<Rightarrow> 'q pod ptr \<Rightarrow> ('q, 's, 'm) preemption_evaluator option" where
  "NewPreemptionEvaluator K queueMgr preemptor = do {
     p \<leftarrow> deref preemptor;
     Some \<lparr>pe_queueMgr = queueMgr, pe_preemptor = preemptor, pe_preemptorQ = Manager_Get queueMgr preemptor,
       pe_preemptorPrio = PodPriority K p\<rparr> }"

definition IsConfiguredForPreemption :: "('q, 's, 'm) preemption_evaluator \<Rightarrow> bool" where
  "IsConfiguredForPreemption pe \<longleftrightarrow> \<not> is_nil (pe_preemptorQ pe)"

definition CanPodPreemptOthers :: "('q, 's, 'm) kube \<Rightarrow> ('q, 's, 'm) preemption_evaluator \<Rightarrow> bool option" where
  "CanPodPreemptOthers K pe = (case pe_preemptor pe of
     NilP \<Rightarrow> Some False
   | Ptr p \<Rightarrow> (case Manager_Get (pe_queueMgr pe) (pe_preemptor pe) of
       NilP \<Rightarrow> Some False
     | Ptr q \<Rightarrow>
         let preemptionCfg = Queue_PreemptionConfig (Ptr q) in
         if \<not> CanPreempt (pc_Preempts preemptionCfg) then Some False
         else Matches K (pr_FromPods (pc_Preempts preemptionCfg)) (pod_labels p)))"

definition IsPreemptionAllowed :: "('q, 's, 'm) kube \<Rightarrow> ('q, 's, 'm) preemption_evaluator \<Rightarrow> 'q pod ptr \<Rightarrow> bool option" where
  "IsPreemptionAllowed K pe victim = (case (pe_preemptor pe, pe_preemptorQ pe, victim) of
     (Ptr p, Ptr q, Ptr v) \<Rightarrow>
       if \<not> i32_less (PodPriority K v) (pe_preemptorPrio pe) then Some False
       else let preemptorCfg = Queue_PreemptionConfig (pe_preemptorQ pe) in
       if \<not> CanPreempt (pc_Preempts preemptorCfg) then Some False
       else do {
         fromOk \<leftarrow> Matches K (pr_FromPods (pc_Preempts preemptorCfg)) (pod_labels p);
         if \<not> fromOk then Some False
         else do {
           toOk \<leftarrow> Matches K (pr_ToPods (pc_Preempts preemptorCfg)) (pod_labels v);
           if \<not> toOk then Some False
           else (case Manager_Get (pe_queueMgr pe) victim of
             NilP \<Rightarrow> Some False
           | Ptr victimQ \<Rightarrow>
               let toPreemptionCfg = Queue_PreemptionConfig (Ptr victimQ) in
               if \<not> CanBePreempted (pc_PreemptedBy toPreemptionCfg) then Some False
               else do {
                 toOk \<leftarrow> Matches K (pr_ToPods (pc_PreemptedBy toPreemptionCfg)) (pod_labels v);
                 if \<not> toOk then Some False
                 else Matches K (pr_FromPods (pc_PreemptedBy toPreemptionCfg)) (pod_labels p) }) } }
   | _ \<Rightarrow> Some False)"

section \<open>Specification\<close>

text \<open>A rule allows a pair of pods if it is configured and both its matchers match.\<close>

definition rule_allows :: "('q, 's, 'm) kube \<Rightarrow> 's preemption_rule \<Rightarrow> 'q pod \<Rightarrow> 'q pod \<Rightarrow> bool" where
  "rule_allows K rule from_pod to_pod = (case (pr_FromPods rule, pr_ToPods rule) of
     (Ptr f, Ptr t) \<Rightarrow> sel_Matches K f (pod_labels from_pod) \<and> sel_Matches K t (pod_labels to_pod)
   | _ \<Rightarrow> False)"

text \<open>
  A preemptor may preempt a victim of strictly lower priority if both have a queue, the
  preemptor's queue lets it preempt the victim, and the victim's queue lets it be preempted by
  the preemptor.
\<close>

definition may_preempt :: "('q, 's, 'm) kube \<Rightarrow> ('q, 's, 'm) manager \<Rightarrow> 'q pod \<Rightarrow> 'q pod \<Rightarrow> bool" where
  "may_preempt K qm p v \<longleftrightarrow> i32_less (PodPriority K v) (PodPriority K p) \<and>
     \<not> is_nil (Manager_Get qm (Ptr p)) \<and> \<not> is_nil (Manager_Get qm (Ptr v)) \<and>
     rule_allows K (pc_Preempts (Queue_PreemptionConfig (Manager_Get qm (Ptr p)))) p v \<and>
     rule_allows K (pc_PreemptedBy (Queue_PreemptionConfig (Manager_Get qm (Ptr v)))) p v"

section \<open>Lemmas\<close>

lemma rule_allows_unconfigured: "\<not> CanPreempt r \<Longrightarrow> \<not> rule_allows K r p v"
  by (auto simp: CanPreempt_def is_nil_iff rule_allows_def split: ptr.splits)

lemma CanBePreempted_eq: "CanBePreempted r = CanPreempt r"
  by (simp add: CanBePreempted_def CanPreempt_def)

text \<open>The two checks of the code, each against one rule.\<close>

lemma egress_check:
  "(if \<not> CanPreempt r then Some False
    else do { a \<leftarrow> Matches K (pr_FromPods r) (pod_labels p);
      if \<not> a then Some False
      else do { b \<leftarrow> Matches K (pr_ToPods r) (pod_labels v); if \<not> b then Some False else c } }) =
    (if rule_allows K r p v then c else Some False)"
  by (cases "pr_FromPods r"; cases "pr_ToPods r") (simp_all add: CanPreempt_def rule_allows_def)

lemma ingress_check:
  "(if \<not> CanBePreempted r then Some False
    else do { b \<leftarrow> Matches K (pr_ToPods r) (pod_labels v);
      if \<not> b then Some False else Matches K (pr_FromPods r) (pod_labels p) }) =
    Some (rule_allows K r p v)"
  by (cases "pr_FromPods r"; cases "pr_ToPods r") (auto simp: CanBePreempted_def rule_allows_def)

lemma IsPreemptionAllowed_eq:
  assumes "NewPreemptionEvaluator K qm (Ptr p) = Some pe"
  shows "IsPreemptionAllowed K pe (Ptr v) = Some (may_preempt K qm p v)"
proof -
  from assms have pe: "pe = \<lparr>pe_queueMgr = qm, pe_preemptor = Ptr p,
      pe_preemptorQ = Manager_Get qm (Ptr p), pe_preemptorPrio = PodPriority K p\<rparr>"
    by (simp add: NewPreemptionEvaluator_def)
  show ?thesis
    by (cases "Manager_Get qm (Ptr p)"; cases "Manager_Get qm (Ptr v)")
      (simp_all add: pe IsPreemptionAllowed_def may_preempt_def egress_check ingress_check Let_def)
qed

lemma CanPodPreemptOthers_eq:
  assumes "NewPreemptionEvaluator K qm (Ptr p) = Some pe"
  shows "CanPodPreemptOthers K pe = Some (case Manager_Get qm (Ptr p) of NilP \<Rightarrow> False
    | Ptr q \<Rightarrow> (case (pr_FromPods (pc_Preempts (queue_preemptionCfg q)), pr_ToPods (pc_Preempts (queue_preemptionCfg q))) of
        (Ptr f, Ptr t) \<Rightarrow> sel_Matches K f (pod_labels p) | _ \<Rightarrow> False))"
  using assms by (auto simp: NewPreemptionEvaluator_def CanPodPreemptOthers_def CanPreempt_def split: ptr.split)

lemma may_preempt_priority: "may_preempt K qm p v \<Longrightarrow> sint (PodPriority K v) < sint (PodPriority K p)"
  by (simp add: may_preempt_def i32_less_def)

lemma may_preempt_can_preempt:
  assumes "NewPreemptionEvaluator K qm (Ptr p) = Some pe" and "may_preempt K qm p v"
  shows "CanPodPreemptOthers K pe = Some True"
  using assms(2) CanPodPreemptOthers_eq [OF assms(1)]
  by (auto simp: may_preempt_def rule_allows_def split: ptr.splits)

text \<open>
  The relation is well-founded: priorities are 32-bit integers and decrease along every
  preemption, so no sequence of preemptions goes on for ever.
\<close>

lemma wf_may_preempt: "wf {(v, p). may_preempt K qm p v}"
proof (rule wf_subset)
  show "wf (measure (\<lambda>p. nat (sint (PodPriority K p) + 2 ^ 31)))" by simp
  show "{(v, p). may_preempt K qm p v} \<subseteq> measure (\<lambda>p. nat (sint (PodPriority K p) + 2 ^ 31))"
  proof clarify
    fix v p
    assume "may_preempt K qm p v"
    then have "sint (PodPriority K v) < sint (PodPriority K p)" by (rule may_preempt_priority)
    moreover have "- (2 ^ 31) \<le> sint (PodPriority K v)" using sint_ge [of "PodPriority K v"] by simp
    ultimately show "(v, p) \<in> measure (\<lambda>p. nat (sint (PodPriority K p) + 2 ^ 31))" by simp
  qed
qed

section \<open>Properties\<close>

text \<open>
  C14. The evaluator never panics on pods, and it allows a preemption exactly when the victim has
  strictly lower priority, both pods have a queue, and the rules of both queues, the outgoing
  one of the preemptor's and the incoming one of the victim's, match both pods.
\<close>

theorem IsPreemptionAllowed_correct:
  "\<exists>pe. NewPreemptionEvaluator K qm (Ptr p) = Some pe \<and>
     IsPreemptionAllowed K pe (Ptr v) = Some (may_preempt K qm p v) \<and>
     IsPreemptionAllowed K pe NilP = Some False"
proof -
  obtain pe where pe: "NewPreemptionEvaluator K qm (Ptr p) = Some pe" by (simp add: NewPreemptionEvaluator_def)
  moreover have "IsPreemptionAllowed K pe NilP = Some False"
    by (simp add: IsPreemptionAllowed_def split: prod.split ptr.split)
  ultimately show ?thesis using IsPreemptionAllowed_eq [OF pe] by blast
qed

text \<open>
  C28. Chains of preemptions end: the relation "may preempt" of any fixed set of queues is
  well-founded from victim to preemptor, so no pod can, through other pods, end up preempting
  itself.
\<close>

theorem preemption_chains_end:
  "wf {(v, p). \<exists>pe. NewPreemptionEvaluator K qm (Ptr p) = Some pe \<and> IsPreemptionAllowed K pe (Ptr v) = Some True}"
proof (rule wf_subset [OF wf_may_preempt])
  show "{(v, p). \<exists>pe. NewPreemptionEvaluator K qm (Ptr p) = Some pe \<and> IsPreemptionAllowed K pe (Ptr v) = Some True}
      \<subseteq> {(v, p). may_preempt K qm p v}"
    using IsPreemptionAllowed_eq by fastforce
qed

end
