(* ===== verification/Framework.thy ===== *)
theory Framework
  imports PreemptionEval
begin

text \<open>
  The scheduling framework as the plugin sees it: statuses, and the functions of the framework's
  handle, of node infos and of cycle states that the plugin calls. They are not part of the
  repository; they are the fields of the record \<open>handle\<close>.

  Type variables: \<open>'c\<close> is \<^verbatim>\<open>fwk.CycleState\<close>, \<open>'n\<close> is \<^verbatim>\<open>fwk.NodeInfo\<close>, \<open>'o\<close> stands for the state
  data of other plugins. A cycle state and a node info are mutable objects; an operation on one
  returns it updated. A filter only reads them.
\<close>

datatype status_code = Success | Error | Unschedulable | UnschedulableAndUnresolvable | OtherCode nat

datatype status = Status (st_code: status_code) (st_reasons: "string list")

definition NewStatus :: "status_code \<Rightarrow> string list \<Rightarrow> status ptr" where
  "NewStatus code reasons = Ptr (Status code reasons)"

definition status_Code :: "status ptr \<Rightarrow> status_code" where
  "status_Code s = (case s of NilP \<Rightarrow> Success | Ptr st \<Rightarrow> st_code st)"

definition status_IsSuccess :: "status ptr \<Rightarrow> bool" where
  "status_IsSuccess s \<longleftrightarrow> status_Code s = Success"

lemma status_simps [simp]:
  "status_Code (NewStatus c rs) = c" "status_Code NilP = Success"
  "status_IsSuccess (NewStatus c rs) \<longleftrightarrow> c = Success" "status_IsSuccess NilP"
  by (simp_all add: NewStatus_def status_Code_def status_IsSuccess_def)

text \<open>
  The data a plugin keeps in a cycle state: the queue snapshot of this plugin, a pointer to a
  \<^verbatim>\<open>QueueSnapshotState\<close>, or the data of another plugin.
\<close>

record ('q, 's, 'm) queue_snapshot_state =
  qss_QueueMgr :: "('q, 's, 'm) manager"

datatype ('q, 's, 'm, 'o) state_data =
    QueueSnapshot "('q, 's, 'm) queue_snapshot_state"
  | OtherState 'o

record ('q, 's, 'm, 'o, 'c, 'n) handle =
  cs_Read :: "'c \<Rightarrow> string \<Rightarrow> string + ('q, 's, 'm, 'o) state_data"
  cs_Write :: "'c \<Rightarrow> string \<Rightarrow> ('q, 's, 'm, 'o) state_data \<Rightarrow> 'c"
  NodeInfos_List :: "string + 'n list"
  NodeInfos_Get :: "string \<Rightarrow> 'n ptr \<times> string option"
  NominatedPodsForNode :: "string \<Rightarrow> 'q pod_info list"
  ni_NodeName :: "'n \<Rightarrow> string"
  ni_GetPods :: "'n \<Rightarrow> 'q pod_info list"
  ni_RemovePod :: "'n \<Rightarrow> 'q pod \<Rightarrow> string + 'n"
  ni_AddPodInfo :: "'n \<Rightarrow> 'q pod_info \<Rightarrow> 'n"
  RunPreFilterExtensionAddPod :: "'c \<Rightarrow> 'q pod \<Rightarrow> 'q pod_info \<Rightarrow> 'n \<Rightarrow> 'c \<times> status ptr"
  RunPreFilterExtensionRemovePod :: "'c \<Rightarrow> 'q pod \<Rightarrow> 'q pod_info \<Rightarrow> 'n \<Rightarrow> 'c \<times> status ptr"
  RunFilterPluginsWithNominatedPods :: "'c \<Rightarrow> 'q pod \<Rightarrow> 'n \<Rightarrow> status ptr"
  IsPodRunningPreemption :: "string \<Rightarrow> bool"
  st_AsError :: "status ptr \<Rightarrow> string"
  st_AsStatus :: "string \<Rightarrow> status ptr"
  fmt_State :: "('q, 's, 'm, 'o) state_data \<Rightarrow> string"

text \<open>A cycle state is a store by key. An error turned into a status is no success.\<close>

locale cycle_state =
  fixes H :: "('q, 's, 'm, 'o, 'c, 'n) handle"
  assumes Read_Write: "cs_Read H (cs_Write H c k d) k' = (if k' = k then Inr d else cs_Read H c k')"
    and AsStatus_Error: "status_Code (st_AsStatus H e) = Error"

end
