(* ===== verification/CycleState.thy ===== *)
theory CycleState
  imports Framework
begin

text \<open>
  \<^verbatim>\<open>internal/kubesched\<close> and \<^verbatim>\<open>internal/plugin/quotaawarepreempt/state.go\<close>: reading typed data from
  the cycle state, and the queue snapshot the plugin keeps there.

  The snapshot in the cycle state is a pointer; the code that reads it mutates the manager it
  points to. In the model such a mutation writes the changed snapshot back under the same key
  (\<open>set_snapshot\<close>), and dereferencing the pointer later is reading the key again.
\<close>

section \<open>kubesched\<close>

text \<open>
  The two errors carry what their texts print: the key and the framework's error, and the state that
  was found, as \<^verbatim>\<open>%+v\<close> prints it, with the name of the type it should have had. \<open>fmt_q\<close> is
  \<^verbatim>\<open>%q\<close> on a string of printable ASCII characters.
\<close>

datatype read_error = ErrReadMissing string string | ErrReadConvert string string

definition ReadState :: "('q, 's, 'm, 'o, 'c, 'n) handle \<Rightarrow> (('q, 's, 'm, 'o) state_data \<Rightarrow> 'd option) \<Rightarrow> string \<Rightarrow> 'c \<Rightarrow> string \<Rightarrow> read_error + 'd" where
  "ReadState H convert typeName cycleState key = (case cs_Read H cycleState key of
     Inl err \<Rightarrow> Inl (ErrReadMissing key err)
   | Inr rawState \<Rightarrow> (case convert rawState of
       None \<Rightarrow> Inl (ErrReadConvert (fmt_State H rawState) typeName)
     | Some st \<Rightarrow> Inr st))"

definition fmt_q :: "string \<Rightarrow> string" where
  "fmt_q s = CHR 0x22 # concat (map (\<lambda>c. if c = CHR 0x22 \<or> c = CHR 0x5C then [CHR 0x5C, c] else [c]) s) @ [CHR 0x22]"

definition read_error_Error :: "read_error \<Rightarrow> string" where
  "read_error_Error e = ''failed to read from cycleState: '' @ (case e of
     ErrReadMissing key err \<Rightarrow> ''error reading '' @ fmt_q key @ '': '' @ err
   | ErrReadConvert rawState typeName \<Rightarrow> ''failed to convert state '' @ rawState @ '' to '' @ typeName)"

datatype lookup_error = ErrLookupNode string

definition GetPodIDsOnNode :: "('q, 's, 'm, 'o, 'c, 'n) handle \<Rightarrow> string \<Rightarrow> lookup_error + (string, unit) gomap" where
  "GetPodIDsOnNode H nodeName = (case NodeInfos_Get H nodeName of (nomNodeInfo, err) \<Rightarrow>
     (case err of
       Some e \<Rightarrow> Inl (ErrLookupNode e)
     | None \<Rightarrow> (case nomNodeInfo of
         NilP \<Rightarrow> Inl (ErrLookupNode ''node was null'')
       | Ptr ni \<Rightarrow> Inr (Ptr (fold (\<lambda>podInfo. AList.update (pod_uid (GetPod podInfo)) ()) (ni_GetPods H ni) [])))))"

section \<open>state.go\<close>

definition PluginName :: string where
  "PluginName = ''QuotaAwarePreemption''"

definition stateKeyQueueSnapshot :: string where
  "stateKeyQueueSnapshot = PluginName @ ''QueueSnapshot''"

definition NewQueueSnapshotState :: "('q, 's, 'm) kube \<Rightarrow> ('q, 's, 'm) manager ptr \<Rightarrow> ('q, 's, 'm) queue_snapshot_state" where
  "NewQueueSnapshotState K queueMgr = \<lparr>qss_QueueMgr = (case queueMgr of
     NilP \<Rightarrow> NewManager
   | Ptr qm \<Rightarrow> Manager_Clone K qm)\<rparr>"

definition QueueSnapshotState_Clone :: "('q, 's, 'm) kube \<Rightarrow> ('q, 's, 'm) queue_snapshot_state \<Rightarrow> ('q, 's, 'm) queue_snapshot_state" where
  "QueueSnapshotState_Clone K s = \<lparr>qss_QueueMgr = Manager_Clone K (qss_QueueMgr s)\<rparr>"

fun as_snapshot :: "('q, 's, 'm, 'o) state_data \<Rightarrow> ('q, 's, 'm) queue_snapshot_state option" where
  "as_snapshot (QueueSnapshot s) = Some s"
| "as_snapshot (OtherState _) = None"

definition ReadQueueSnapshot :: "('q, 's, 'm, 'o, 'c, 'n) handle \<Rightarrow> 'c \<Rightarrow> read_error + ('q, 's, 'm) queue_snapshot_state" where
  "ReadQueueSnapshot H cycleState = ReadState H as_snapshot ''*quotaawarepreempt.QueueSnapshotState'' cycleState stateKeyQueueSnapshot"

definition WriteQueueSnapshot :: "('q, 's, 'm, 'o, 'c, 'n) handle \<Rightarrow> 'c \<Rightarrow> ('q, 's, 'm) queue_snapshot_state \<Rightarrow> 'c" where
  "WriteQueueSnapshot H cycleState data = cs_Write H cycleState stateKeyQueueSnapshot (QueueSnapshot data)"

definition set_snapshot :: "('q, 's, 'm, 'o, 'c, 'n) handle \<Rightarrow> 'c \<Rightarrow> ('q, 's, 'm) manager \<Rightarrow> 'c" where
  "set_snapshot H cycleState qm = WriteQueueSnapshot H cycleState \<lparr>qss_QueueMgr = qm\<rparr>"

section \<open>Lemmas\<close>

lemma fold_insert_ids:
  "fst ` set (fold (\<lambda>podInfo. AList.update (pod_uid (GetPod podInfo)) ()) ps acc) =
     (\<lambda>podInfo. pod_uid (GetPod podInfo)) ` set ps \<union> fst ` set acc"
  by (induction ps arbitrary: acc) (auto simp: dom_update)

lemma GetPodIDsOnNode_keys:
  "GetPodIDsOnNode H name = Inr ids \<Longrightarrow> \<exists>ni. NodeInfos_Get H name = (Ptr ni, None) \<and>
     gm_dom ids = (\<lambda>podInfo. pod_uid (GetPod podInfo)) ` set (ni_GetPods H ni)"
  by (clarsimp simp: GetPodIDsOnNode_def split: prod.splits option.splits ptr.splits)
    (simp add: gm_dom_def gm_keys_def fold_insert_ids)

context cycle_state
begin

lemma Read_WriteQueueSnapshot [simp]: "ReadQueueSnapshot H (WriteQueueSnapshot H c s) = Inr s"
  by (simp add: ReadQueueSnapshot_def ReadState_def WriteQueueSnapshot_def Read_Write)

lemma Read_set_snapshot [simp]: "ReadQueueSnapshot H (set_snapshot H c qm) = Inr \<lparr>qss_QueueMgr = qm\<rparr>"
  by (simp add: set_snapshot_def)

lemma Write_other_keys: "k \<noteq> stateKeyQueueSnapshot \<Longrightarrow> cs_Read H (WriteQueueSnapshot H c s) k = cs_Read H c k"
  by (simp add: WriteQueueSnapshot_def Read_Write)

end

context kube_laws
begin

text \<open>A snapshot of a manager, and a clone of a snapshot, are equal to it.\<close>

lemma NewQueueSnapshotState_eq:
  "mgr_balanced K amount reqs qm \<Longrightarrow> NewQueueSnapshotState K (Ptr qm) = \<lparr>qss_QueueMgr = qm\<rparr>"
  by (simp add: NewQueueSnapshotState_def Manager_Clone_eq)

lemma QueueSnapshotState_Clone_eq:
  "mgr_balanced K amount reqs (qss_QueueMgr s) \<Longrightarrow> QueueSnapshotState_Clone K s = s"
  by (cases s) (simp add: QueueSnapshotState_Clone_def Manager_Clone_eq)

end

end
