(* ===== verification/Plugin.thy ===== *)
theory Plugin
  imports CycleState
begin

text \<open>
  \<^verbatim>\<open>internal/plugin/quotaawarepreempt/plugin.go\<close>: the extension points of the scheduler plugin.

  The framework calls an extension point with a pod, never with nil. \<^verbatim>\<open>PreFilter\<close> takes a
  snapshot of the queues and decides on it; \<^verbatim>\<open>AddPod\<close> and \<^verbatim>\<open>RemovePod\<close> change the snapshot of a
  cycle; \<^verbatim>\<open>Reserve\<close> and \<^verbatim>\<open>Unreserve\<close> change the live manager. Logging is left out.
\<close>

record ('q, 's, 'm) plugin =
  plugin_queueMgr :: "('q, 's, 'm) manager"
  plugin_EnableAsyncPreemption :: bool
  plugin_MaxCandidateNodes :: "int32 ptr"

section \<open>PreEnqueue\<close>

definition PreEnqueue :: "('q, 's, 'm, 'o, 'c, 'n) handle \<Rightarrow> ('q, 's, 'm) plugin \<Rightarrow> 'q pod \<Rightarrow> status ptr" where
  "PreEnqueue H plugin pod =
     (if \<not> plugin_EnableAsyncPreemption plugin then NilP
      else if IsPodRunningPreemption H (pod_uid pod) then
        NewStatus UnschedulableAndUnresolvable [''waiting for the preemption for this pod to be finished'']
      else NilP)"

section \<open>PreFilter\<close>

text \<open>
  The quota behind the pointer \<^verbatim>\<open>podQ\<close> changes: \<^verbatim>\<open>podQ\<close> is the entry of the manager's map under
  the pod's label.
\<close>

definition set_queue_quota :: "'q pod \<Rightarrow> ('q, 'm) quota ptr \<Rightarrow> ('q, 's, 'm) manager \<Rightarrow> ('q, 's, 'm) manager option" where
  "set_queue_quota pod quota qm = (case gm_get (pod_labels pod) LabelKeyQueue of
     None \<Rightarrow> Some qm
   | Some name \<Rightarrow> (case Manager_GetByName qm name of
       NilP \<Rightarrow> Some qm
     | Ptr q \<Rightarrow> mgr_store name (Ptr (q\<lparr>queue_quota := quota\<rparr>)) qm))"

text \<open>The body of the loop over the nominated pods of a node.\<close>

definition count_nominated :: "('q, 's, 'm) kube \<Rightarrow> 'q pod \<Rightarrow> 'q pod_info \<Rightarrow> ('q, 's, 'm) manager \<Rightarrow> ('q, 's, 'm) manager option" where
  "count_nominated K pod nomPodInfo qm =
     (if pod_uid (GetPod nomPodInfo) = pod_uid pod then Some qm
      else if i32_less (PodPriority K (GetPod nomPodInfo)) (PodPriority K pod) then Some qm
      else let nomQ = Manager_Get qm (Ptr (GetPod nomPodInfo)); podQ = Manager_Get qm (Ptr pod) in
      if is_nil nomQ \<or> Queue_Name nomQ \<noteq> Queue_Name podQ then Some qm
      else do {
        quota \<leftarrow> Quota_AddPodIfNotPresent K (Queue_Quota podQ) [Ptr (GetPod nomPodInfo)];
        set_queue_quota pod quota qm })"

definition count_all_nominated :: "('q, 's, 'm) kube \<Rightarrow> ('q, 's, 'm, 'o, 'c, 'n) handle \<Rightarrow> 'q pod \<Rightarrow> 'n list \<Rightarrow> ('q, 's, 'm) manager \<Rightarrow> ('q, 's, 'm) manager option" where
  "count_all_nominated K H pod nodeList qm =
     for_each (\<lambda>node. for_each (count_nominated K pod) (NominatedPodsForNode H (ni_NodeName H node))) nodeList qm"

definition PreFilter :: "('q, 's, 'm) kube \<Rightarrow> ('q, 's, 'm, 'o, 'c, 'n) handle \<Rightarrow> ('q, 's, 'm) plugin \<Rightarrow> 'c \<Rightarrow> 'q pod \<Rightarrow> ('c \<times> status ptr) option" where
  "PreFilter K H plugin state pod = do {
     requestedRes \<leftarrow> FromPodReq K (Ptr pod);
     let qSnapshot = NewQueueSnapshotState K (Ptr (plugin_queueMgr plugin));
     if is_nil (Manager_Get (qss_QueueMgr qSnapshot) (Ptr pod)) then
       Some (WriteQueueSnapshot H state qSnapshot, NewStatus Success [])
     else (case NodeInfos_List H of
       Inl err \<Rightarrow> Some (WriteQueueSnapshot H state qSnapshot,
         NewStatus Error [''Error getting the node list: '' @ err])
     | Inr nodeList \<Rightarrow> do {
         qm \<leftarrow> count_all_nominated K H pod nodeList (qss_QueueMgr qSnapshot);
         let podQ = Manager_Get qm (Ptr pod);
         over \<leftarrow> Quota_WouldPutOverMax K (Queue_Quota podQ) requestedRes;
         Some (WriteQueueSnapshot H state (qSnapshot\<lparr>qss_QueueMgr := qm\<rparr>),
           if over then NewStatus Unschedulable
             [''Not eligible for scheduling because queue '' @ Queue_Name podQ @ '' exceeds quota (quota='' @
              Quota_String K (Queue_Quota podQ) @ '', requested='' @ Resources_String K requestedRes @ '')'']
           else NewStatus Success ['''']) }) }"

section \<open>PreFilter extensions\<close>

definition AddPod :: "('q, 's, 'm) kube \<Rightarrow> ('q, 's, 'm, 'o, 'c, 'n) handle \<Rightarrow> 'c \<Rightarrow> 'q pod \<Rightarrow> 'q pod_info \<Rightarrow> 'n \<Rightarrow> ('c \<times> status ptr) option" where
  "AddPod K H state podToSchedule podInfoToAdd nodeInfo = (case ReadQueueSnapshot H state of
     Inl err \<Rightarrow> Some (state, NewStatus Error [read_error_Error err])
   | Inr quotaSnapshot \<Rightarrow> do {
       (qm, err) \<leftarrow> Manager_AddPodIfNotPresent K (Ptr (GetPod podInfoToAdd)) (qss_QueueMgr quotaSnapshot);
       Some (set_snapshot H state qm, NewStatus Success ['''']) })"

definition RemovePod :: "('q, 's, 'm) kube \<Rightarrow> ('q, 's, 'm, 'o, 'c, 'n) handle \<Rightarrow> 'c \<Rightarrow> 'q pod \<Rightarrow> 'q pod_info \<Rightarrow> 'n \<Rightarrow> ('c \<times> status ptr) option" where
  "RemovePod K H state podToSchedule podInfoToRemove nodeInfo = (case ReadQueueSnapshot H state of
     Inl err \<Rightarrow> Some (state, NewStatus Error [read_error_Error err])
   | Inr quotaSnapshot \<Rightarrow> do {
       (qm, err) \<leftarrow> Manager_DeletePodIfPresent K (Ptr (GetPod podInfoToRemove)) (qss_QueueMgr quotaSnapshot);
       Some (set_snapshot H state qm, NewStatus Success ['''']) })"

section \<open>Reserve\<close>

fun mgr_error_Error :: "mgr_error \<Rightarrow> string" where
  "mgr_error_Error (ErrAddPodToQuota queueName) = ''failed to add pod to quota: queue '' @ [CHR 0x27] @ queueName @ [CHR 0x27] @ '' does not exist''"
| "mgr_error_Error (ErrRemovePodFromQuota queueName) = ''failed to remove pod from quota: queue '' @ [CHR 0x27] @ queueName @ [CHR 0x27] @ '' does not exist''"

definition Reserve :: "('q, 's, 'm) kube \<Rightarrow> 'q pod \<Rightarrow> ('q, 's, 'm) plugin \<Rightarrow> (('q, 's, 'm) plugin \<times> status ptr) option" where
  "Reserve K pod plugin = do {
     (qm, err) \<leftarrow> Manager_AddPodIfNotPresent K (Ptr pod) (plugin_queueMgr plugin);
     Some (plugin\<lparr>plugin_queueMgr := qm\<rparr>, case err of
       Some e \<Rightarrow> NewStatus Error [mgr_error_Error e]
     | None \<Rightarrow> NewStatus Success ['''']) }"

definition Unreserve :: "('q, 's, 'm) kube \<Rightarrow> 'q pod \<Rightarrow> ('q, 's, 'm) plugin \<Rightarrow> ('q, 's, 'm) plugin option" where
  "Unreserve K pod plugin = do {
     (qm, err) \<leftarrow> Manager_DeletePodIfPresent K (Ptr pod) (plugin_queueMgr plugin);
     Some (plugin\<lparr>plugin_queueMgr := qm\<rparr>) }"

section \<open>Events\<close>

datatype action_type = ActUpdate | ActDelete | ActAll
datatype queueing_hint = HintQueue | HintQueueSkip

definition QueueFQRN :: string where
  "QueueFQRN = ''queues.v1.'' @ GroupName"

definition EventsToRegister :: "(string \<times> action_type list \<times> ('q pod \<Rightarrow> 'q any_obj \<Rightarrow> 'q any_obj \<Rightarrow> queueing_hint)) list" where
  "EventsToRegister =
     [(''Pod'', [ActUpdate, ActDelete], \<lambda>pod oldObj newObj. HintQueue),
      (QueueFQRN, [ActAll], \<lambda>pod oldObj newObj. HintQueue)]"

section \<open>Specification\<close>

text \<open>
  A nominated pod is ahead of the pod being scheduled if it is another pod of the same queue and
  of no lower priority.
\<close>

definition ahead_of :: "('q, 's, 'm) kube \<Rightarrow> 'q pod \<Rightarrow> 'q pod \<Rightarrow> bool" where
  "ahead_of K pod p \<longleftrightarrow> pod_uid p \<noteq> pod_uid pod \<and> \<not> i32_less (PodPriority K p) (PodPriority K pod) \<and>
     pod_queue p = pod_queue pod"

definition nominated_pods :: "('q, 's, 'm, 'o, 'c, 'n) handle \<Rightarrow> 'n list \<Rightarrow> 'q pod list" where
  "nominated_pods H nodes = map GetPod (concat (map (\<lambda>node. NominatedPodsForNode H (ni_NodeName H node)) nodes))"

definition uids_ahead :: "('q, 's, 'm) kube \<Rightarrow> ('q, 's, 'm, 'o, 'c, 'n) handle \<Rightarrow> 'q pod \<Rightarrow> string set" where
  "uids_ahead K H pod = (case NodeInfos_List H of Inl _ \<Rightarrow> {}
     | Inr nodes \<Rightarrow> pod_uid ` set (filter (ahead_of K pod) (nominated_pods H nodes)))"

definition nominated_ok :: "('q, 's, 'm) kube \<Rightarrow> ('q, 's, 'm, 'o, 'c, 'n) handle \<Rightarrow> (string \<Rightarrow> 'q resource_list) \<Rightarrow> bool" where
  "nominated_ok K H reqs \<longleftrightarrow> (case NodeInfos_List H of Inl _ \<Rightarrow> True
     | Inr nodes \<Rightarrow> list_all (pod_ok K reqs) (nominated_pods H nodes))"

section \<open>Lemmas\<close>

lemma count_nominated_eq:
  assumes bal: "mgr_balanced K amount reqs qm" and n: "pod_queue pod = Some n" "Manager_GetByName qm n = Ptr q"
  shows "count_nominated K pod nom qm = (if ahead_of K pod (GetPod nom)
    then map_option fst (Manager_AddPodIfNotPresent K (Ptr (GetPod nom)) qm) else Some qm)"
proof -
  have same: "\<not> (is_nil (Manager_Get qm (Ptr (GetPod nom))) \<or>
      Queue_Name (Manager_Get qm (Ptr (GetPod nom))) \<noteq> Queue_Name (Manager_Get qm (Ptr pod)))
      \<longleftrightarrow> pod_queue (GetPod nom) = pod_queue pod"
  proof (cases "Manager_Get qm (Ptr (GetPod nom))")
    case NilP
    then show ?thesis using n by (auto simp: Manager_Get_queue split: option.splits)
  next
    case (Ptr q')
    then obtain n' where n': "pod_queue (GetPod nom) = Some n'" "Manager_GetByName qm n' = Ptr q'"
      by (auto simp: Manager_Get_queue split: option.splits)
    have "queue_name q' = n'" "queue_name q = n"
      using mgr_balancedD [OF bal n'(2)] mgr_balancedD [OF bal n(2)] by metis+
    then show ?thesis using n n' by (simp add: Manager_Get_queue)
  qed
  show ?thesis
    using same n by (auto simp: count_nominated_def Let_def ahead_of_def Manager_AddPodIfNotPresent_def
        set_queue_quota_def Manager_Get_queue pod_queue_def map_option_case split: bind_splits option.splits)
qed

context kube_laws
begin

lemma count_nominated_result:
  assumes "mgr_balanced K amount reqs qm" and "pod_queue pod = Some n" and "Manager_GetByName qm n \<noteq> NilP"
    and "\<forall>nom \<in> set noms. pod_ok K reqs (GetPod nom)"
  shows "\<exists>qm'. for_each (count_nominated K pod) noms qm = Some qm' \<and> mgr_balanced K amount reqs qm' \<and>
    queue_frame qm qm' \<and> (\<forall>n'. mgr_tracked K qm' n' = (if n' = n
      then mgr_tracked K qm n \<union> pod_uid ` set (filter (ahead_of K pod) (map GetPod noms)) else mgr_tracked K qm n'))"
  using assms
proof (induction noms arbitrary: qm)
  case Nil
  then show ?case by (simp add: queue_frame_refl)
next
  case (Cons nom noms)
  obtain q where q: "Manager_GetByName qm n = Ptr q" using Cons.prems(3) by (cases "Manager_GetByName qm n") auto
  note eq = count_nominated_eq [OF Cons.prems(1,2) q]
  obtain qm1 where qm1: "count_nominated K pod nom qm = Some qm1" "mgr_balanced K amount reqs qm1"
      "queue_frame qm qm1" "\<forall>n'. mgr_tracked K qm1 n' = (if n' = n \<and> ahead_of K pod (GetPod nom)
        then insert (pod_uid (GetPod nom)) (mgr_tracked K qm n) else mgr_tracked K qm n')"
  proof (cases "ahead_of K pod (GetPod nom)")
    case True
    then have "pod_queue (GetPod nom) = Some n" using Cons.prems(2) by (simp add: ahead_of_def)
    with Manager_AddPod_result [OF Cons.prems(1), of "GetPod nom"] Cons.prems(3,4) True that show ?thesis
      by (auto simp: eq)
  next
    case False
    then show ?thesis using that [of qm] Cons.prems(1) by (simp add: eq queue_frame_refl)
  qed
  have "Manager_GetByName qm1 n \<noteq> NilP"
    using queue_frame_nil [OF qm1(3)] q by simp
  from Cons.IH [OF qm1(2) Cons.prems(2) this] Cons.prems(4) obtain qm' where
    "for_each (count_nominated K pod) noms qm1 = Some qm'" "mgr_balanced K amount reqs qm'" "queue_frame qm1 qm'"
    "\<forall>n'. mgr_tracked K qm' n' = (if n' = n
      then mgr_tracked K qm1 n \<union> pod_uid ` set (filter (ahead_of K pod) (map GetPod noms)) else mgr_tracked K qm1 n')"
    by auto
  with qm1 show ?case by (auto intro: queue_frame_trans)
qed

lemma PreFilter_no_queue:
  assumes "mgr_balanced K amount reqs (plugin_queueMgr P)" and "Manager_Get (plugin_queueMgr P) (Ptr pod) = NilP"
  shows "PreFilter K H P c pod = Some (set_snapshot H c (plugin_queueMgr P), NewStatus Success [])"
  using FromPodReq_result [of pod] assms
  by (auto simp: PreFilter_def NewQueueSnapshotState_eq set_snapshot_def Let_def)

lemma PreFilter_list_error:
  assumes "mgr_balanced K amount reqs (plugin_queueMgr P)" and "Manager_Get (plugin_queueMgr P) (Ptr pod) \<noteq> NilP"
    and "NodeInfos_List H = Inl err"
  shows "PreFilter K H P c pod = Some (set_snapshot H c (plugin_queueMgr P),
    NewStatus Error [''Error getting the node list: '' @ err])"
  using FromPodReq_result [of pod] assms
  by (auto simp: PreFilter_def NewQueueSnapshotState_eq set_snapshot_def Let_def is_nil_iff)

lemma PreFilter_result:
  assumes bal: "mgr_balanced K amount reqs (plugin_queueMgr P)" and ok: "nominated_ok K H reqs"
    and n: "pod_queue pod = Some n" "Manager_GetByName (plugin_queueMgr P) n = Ptr q"
    and nodes: "NodeInfos_List H = Inr nodes" and nonneg: "max_nonneg amount (Quota_Max (queue_quota q))"
  shows "\<exists>snap st. PreFilter K H P c pod = Some (set_snapshot H c snap, st) \<and> mgr_balanced K amount reqs snap \<and>
    queue_frame (plugin_queueMgr P) snap \<and>
    (\<forall>n'. mgr_tracked K snap n' = mgr_tracked K (plugin_queueMgr P) n' \<union> (if n' = n then uids_ahead K H pod else {})) \<and>
    status_Code st = (if fits_max amount reqs (Quota_Max (queue_quota q))
      (mgr_tracked K (plugin_queueMgr P) n \<union> uids_ahead K H pod) (pod_req K amount pod) then Success else Unschedulable)"
proof -
  let ?qm = "plugin_queueMgr P"
  let ?noms = "concat (map (\<lambda>node. NominatedPodsForNode H (ni_NodeName H node)) nodes)"
  obtain req where req: "FromPodReq K (Ptr pod) = Some req" using FromPodReq_result [of pod] by blast
  have "\<forall>nom \<in> set ?noms. pod_ok K reqs (GetPod nom)"
    using ok nodes by (simp add: nominated_ok_def nominated_pods_def list_all_iff)
  from count_nominated_result [OF bal n(1) _ this] n(2) obtain snap where
    snap: "for_each (count_nominated K pod) ?noms ?qm = Some snap" "mgr_balanced K amount reqs snap"
      "queue_frame ?qm snap" "\<forall>n'. mgr_tracked K snap n' = (if n' = n then mgr_tracked K ?qm n \<union>
        pod_uid ` set (filter (ahead_of K pod) (map GetPod ?noms)) else mgr_tracked K ?qm n')" by auto
  have tracked: "mgr_tracked K snap n' = mgr_tracked K ?qm n' \<union> (if n' = n then uids_ahead K H pod else {})" for n'
    using snap(4) nodes by (simp add: uids_ahead_def nominated_pods_def)
  obtain q' where q': "Manager_GetByName snap n = Ptr q'"
    using queue_frame_nil [OF snap(3), of n] n(2) by (cases "Manager_GetByName snap n") auto
  have mx: "Quota_Max (queue_quota q') = Quota_Max (queue_quota q)"
    using snap(3) n(2) q' by (auto simp: queue_frame_def dest: spec [of _ n])
  have over: "Quota_WouldPutOverMax K (queue_quota q') req = Some (\<not> fits_max amount reqs
      (Quota_Max (queue_quota q)) (mgr_tracked K ?qm n \<union> uids_ahead K H pod) (pod_req K amount pod))"
    using over_max_result [OF snap(2) q' _ req] nonneg mx tracked by simp
  have "\<exists>st. PreFilter K H P c pod = Some (set_snapshot H c snap, st) \<and>
    status_Code st = (if fits_max amount reqs (Quota_Max (queue_quota q))
      (mgr_tracked K ?qm n \<union> uids_ahead K H pod) (pod_req K amount pod) then Success else Unschedulable)"
    using req n q' nodes over snap(1)
    by (simp add: PreFilter_def NewQueueSnapshotState_eq [OF bal] Let_def Manager_Get_queue is_nil_def
        count_all_nominated_def for_each_concat set_snapshot_def)
  with snap(2,3) tracked show ?thesis by blast
qed

text \<open>The extensions: what a cycle's snapshot is after adding or removing a pod.\<close>

lemma AddPod_result:
  assumes "cycle_state H" and "ReadQueueSnapshot H c = Inr \<lparr>qss_QueueMgr = qm\<rparr>"
    and "mgr_balanced K amount reqs qm" and "pod_ok K reqs (GetPod pinfo)"
  shows "\<exists>c' qm' err. AddPod K H c pod pinfo ni = Some (c', NewStatus Success ['''']) \<and>
    ReadQueueSnapshot H c' = Inr \<lparr>qss_QueueMgr = qm'\<rparr> \<and>
    Manager_AddPodIfNotPresent K (Ptr (GetPod pinfo)) qm = Some (qm', err)"
  using Manager_AddPod_result [OF assms(3,4)] assms(2)
  by (auto simp: AddPod_def cycle_state.Read_set_snapshot [OF assms(1)])

lemma RemovePod_result:
  assumes "cycle_state H" and "ReadQueueSnapshot H c = Inr \<lparr>qss_QueueMgr = qm\<rparr>"
    and "mgr_balanced K amount reqs qm" and "pod_ok K reqs (GetPod pinfo)"
  shows "\<exists>c' qm' err. RemovePod K H c pod pinfo ni = Some (c', NewStatus Success ['''']) \<and>
    ReadQueueSnapshot H c' = Inr \<lparr>qss_QueueMgr = qm'\<rparr> \<and>
    Manager_DeletePodIfPresent K (Ptr (GetPod pinfo)) qm = Some (qm', err)"
  using Manager_DeletePod_result [OF assms(3,4)] assms(2)
  by (auto simp: RemovePod_def cycle_state.Read_set_snapshot [OF assms(1)])

end

end
