(* ===== verification/Eligibility.thy ===== *)
theory Eligibility
  imports Plugin
begin

text \<open>
  The first part of \<^verbatim>\<open>internal/plugin/quotaawarepreempt/preemption.go\<close>: the preemptor the plugin
  hands to the framework's preemption evaluator, the number of candidate nodes, and whether a pod
  may start a preemption. \<^verbatim>\<open>PostFilter\<close> only passes the preemptor on.
\<close>

record 'c preemptor =
  pre_cycleState :: 'c
  pre_MaxCandidateNodes :: "int32 ptr"

definition PostFilter :: "(string \<Rightarrow> 'c preemptor \<Rightarrow> 'c \<Rightarrow> 'q pod \<Rightarrow> 'r \<Rightarrow> 'p \<times> status ptr) \<Rightarrow> ('q, 's, 'm) plugin \<Rightarrow> 'c \<Rightarrow> 'q pod \<Rightarrow> 'r \<Rightarrow> 'p \<times> status ptr" where
  "PostFilter evaluator_Preempt plugin state pod m =
     evaluator_Preempt PluginName
       \<lparr>pre_cycleState = state, pre_MaxCandidateNodes = plugin_MaxCandidateNodes plugin\<rparr> state pod m"

section \<open>Candidates\<close>

definition CandidatesToVictimsMap :: "(string \<times> 'v) list \<Rightarrow> (string, 'v) gomap" where
  "CandidatesToVictimsMap candidates = Ptr (fold (\<lambda>(name, victims). AList.update name victims) candidates [])"

definition GetOffsetAndNumCandidates :: "int32 \<Rightarrow> 'c preemptor \<Rightarrow> int32 \<Rightarrow> int32 \<times> int32" where
  "GetOffsetAndNumCandidates rand_Int31 p nodes =
     (let nodes = (case pre_MaxCandidateNodes p of
            NilP \<Rightarrow> nodes
          | Ptr mx \<Rightarrow> if i32_less mx nodes then mx else nodes)
      in (rand_Int31, if i32_less 1 nodes then nodes else 1))"

definition OrderedScoreFuncs :: "(string, 'v) gomap \<Rightarrow> (string \<Rightarrow> int) list ptr" where
  "OrderedScoreFuncs nodesToVictims = NilP"

section \<open>Eligibility\<close>

fun any_of :: "('a \<Rightarrow> bool option) \<Rightarrow> 'a list \<Rightarrow> bool option" where
  "any_of f [] = Some False"
| "any_of f (x # xs) = do { b \<leftarrow> f x; if b then Some True else any_of f xs }"

text \<open>
  The bodies of the two loops over the pods of the nominated node: whether a pod excludes the
  preemptor's eligibility.
\<close>

definition excludes_quota_aware :: "('q, 's, 'm) kube \<Rightarrow> ('q, 's, 'm) manager \<Rightarrow> int32 \<Rightarrow> ('q, 's, 'm) queue ptr \<Rightarrow> bool \<Rightarrow> 'q pod_info \<Rightarrow> bool option" where
  "excludes_quota_aware K qm preemptorPriority preemptorQ wouldBeOverQuota victimInfo =
     (if \<not> TerminatingByPreemption (GetPod victimInfo) then Some False
      else if \<not> i32_less (PodPriority K (GetPod victimInfo)) preemptorPriority then Some False
      else let victimQ = Manager_Get qm (Ptr (GetPod victimInfo)) in
      if is_nil victimQ then Some False
      else do {
        can \<leftarrow> CanPodBePreemptedByOthers K victimQ (Ptr (GetPod victimInfo));
        if \<not> can then Some False
        else if Queue_Name preemptorQ = Queue_Name victimQ then Some True
        else if Queue_Name preemptorQ \<noteq> Queue_Name victimQ \<and> \<not> wouldBeOverQuota then Some True
        else Some False })"

definition excludes_vanilla :: "('q, 's, 'm) kube \<Rightarrow> ('q, 's, 'm) manager \<Rightarrow> int32 \<Rightarrow> 'q pod_info \<Rightarrow> bool option" where
  "excludes_vanilla K qm preemptorPriority victimInfo =
     (if \<not> TerminatingByPreemption (GetPod victimInfo) then Some False
      else if \<not> is_nil (Manager_Get qm (Ptr (GetPod victimInfo))) then Some False
      else Some (i32_less (PodPriority K (GetPod victimInfo)) preemptorPriority))"

text \<open>From the point where the pod has a nomination that is still valid.\<close>

definition eligible_on_nominated_node :: "('q, 's, 'm) kube \<Rightarrow> ('q, 's, 'm, 'o, 'c, 'n) handle \<Rightarrow> ('q, 's, 'm) manager \<Rightarrow> 'q pod \<Rightarrow> 'n \<Rightarrow> (bool \<times> string) option" where
  "eligible_on_nominated_node K H qm pod nodeInfo = do {
     requestedRes \<leftarrow> FromPodReq K (Ptr pod);
     let preemptorPriority = PodPriority K pod;
     let preemptorQ = Manager_Get qm (Ptr pod);
     if \<not> is_nil preemptorQ then do {
       wouldBeOverQuota \<leftarrow> Quota_WouldPutOverMax K (Queue_Quota preemptorQ) requestedRes;
       found \<leftarrow> any_of (excludes_quota_aware K qm preemptorPriority preemptorQ wouldBeOverQuota) (ni_GetPods H nodeInfo);
       Some (if found then (False, ''Not eligible to preempt due to a terminating preemption victim on the nominated node.'')
         else (True, '''')) }
     else do {
       found \<leftarrow> any_of (excludes_vanilla K qm preemptorPriority) (ni_GetPods H nodeInfo);
       Some (if found then (False, ''Not eligible to preempt due to a terminating pod on the nominated node.'')
         else (True, '''')) } }"

definition PodEligibleToPreemptOthers :: "('q, 's, 'm) kube \<Rightarrow> ('q, 's, 'm, 'o, 'c, 'n) handle \<Rightarrow> 'c preemptor \<Rightarrow> 'q pod \<Rightarrow> status ptr \<Rightarrow> (bool \<times> string) option" where
  "PodEligibleToPreemptOthers K H p pod nominatedNodeStatus =
     (if \<not> PolicyAllowsPreemption (Ptr pod) then
        Some (False, ''Not eligible to preempt due to configured preemptionPolicy'')
      else case ReadQueueSnapshot H (pre_cycleState p) of
        Inl err \<Rightarrow> Some (False, ''Not eligible to preempt due to failed to read queue snapshot from cycleState.'')
      | Inr queueSnapshot \<Rightarrow> do {
          preemptEvaluator \<leftarrow> NewPreemptionEvaluator K (qss_QueueMgr queueSnapshot) (Ptr pod);
          can \<leftarrow> CanPodPreemptOthers K preemptEvaluator;
          if \<not> can then
            Some (False, ''Not eligible to preempt due to queue'' @ [CHR 0x27] @ ''s preemption config not allowing preemption.'')
          else if length (status_nominatedNodeName pod) = 0 then Some (True, '''')
          else if status_Code nominatedNodeStatus = UnschedulableAndUnresolvable then Some (True, '''')
          else (case NodeInfos_Get H (status_nominatedNodeName pod) of
              (Ptr nodeInfo, None) \<Rightarrow> eligible_on_nominated_node K H (qss_QueueMgr queueSnapshot) pod nodeInfo
            | _ \<Rightarrow> Some (False, ''Unable to find info of nominated node.'')) })"

section \<open>Specification\<close>

text \<open>
  A pod of a node is a pending victim of an earlier preemption by the preemptor: it is being
  deleted by a preemption, has lower priority, its queue lets it be preempted, and it either
  shares the preemptor's queue, or waiting for it is enough since the preemptor fits its own quota.
\<close>

definition pending_victim :: "('q, 's, 'm) kube \<Rightarrow> ('q, 's, 'm) manager \<Rightarrow> 'q pod \<Rightarrow> bool \<Rightarrow> 'q pod \<Rightarrow> bool" where
  "pending_victim K qm pod inQuota v \<longleftrightarrow> TerminatingByPreemption v \<and> i32_less (PodPriority K v) (PodPriority K pod) \<and>
     (case Manager_Get qm (Ptr v) of NilP \<Rightarrow> False
      | Ptr q \<Rightarrow> (case (pr_FromPods (pc_PreemptedBy (queue_preemptionCfg q)), pr_ToPods (pc_PreemptedBy (queue_preemptionCfg q))) of
          (Ptr f, Ptr t) \<Rightarrow> sel_Matches K t (pod_labels v)
        | _ \<Rightarrow> False)) \<and>
     (pod_queue v = pod_queue pod \<or> inQuota)"

section \<open>Lemmas\<close>

lemma any_of_Some: "(\<And>x. x \<in> set xs \<Longrightarrow> f x = Some (P x)) \<Longrightarrow> any_of f xs = Some (\<exists>x \<in> set xs. P x)"
  by (induction xs) auto

lemma CanPodBePreempted_eq:
  assumes "mgr_balanced K amount reqs qm" and "Manager_Get qm (Ptr v) = Ptr q"
  shows "CanPodBePreemptedByOthers K (Ptr q) (Ptr v) =
    Some (case (pr_FromPods (pc_PreemptedBy (queue_preemptionCfg q)), pr_ToPods (pc_PreemptedBy (queue_preemptionCfg q))) of
      (Ptr f, Ptr t) \<Rightarrow> sel_Matches K t (pod_labels v) | _ \<Rightarrow> False)"
proof -
  from assms(2) obtain n where n: "pod_queue v = Some n" "Manager_GetByName qm n = Ptr q"
    by (auto simp: Manager_Get_queue split: option.splits)
  from mgr_balancedD [OF assms(1) n(2)] have "queue_name q = n" by metis
  with n(1) have "label_value (pod_labels v) LabelKeyQueue = queue_name q"
    by (simp add: label_value_def pod_queue_def)
  then show ?thesis
    by (cases "pr_FromPods (pc_PreemptedBy (queue_preemptionCfg q))";
        cases "pr_ToPods (pc_PreemptedBy (queue_preemptionCfg q))")
      (simp_all add: CanPodBePreemptedByOthers_def CanBePreempted_def)
qed

lemma excludes_quota_aware_eq:
  assumes bal: "mgr_balanced K amount reqs qm" and n: "pod_queue pod = Some n" "Manager_GetByName qm n = Ptr pq"
  shows "excludes_quota_aware K qm (PodPriority K pod) (Ptr pq) over (PodInfo v) = Some (pending_victim K qm pod (\<not> over) v)"
proof (cases "Manager_Get qm (Ptr v)")
  case NilP
  then show ?thesis by (simp add: excludes_quota_aware_def pending_victim_def)
next
  case (Ptr q)
  then obtain m where m: "pod_queue v = Some m" "Manager_GetByName qm m = Ptr q"
    by (auto simp: Manager_Get_queue split: option.splits)
  have "queue_name q = m" "queue_name pq = n"
    using mgr_balancedD [OF bal m(2)] mgr_balancedD [OF bal n(2)] by metis+
  then have same: "queue_name pq = queue_name q \<longleftrightarrow> pod_queue v = pod_queue pod" using m(1) n(1) by auto
  obtain b where b: "CanPodBePreemptedByOthers K (Ptr q) (Ptr v) = Some b"
      "pending_victim K qm pod (\<not> over) v \<longleftrightarrow> TerminatingByPreemption v \<and>
        i32_less (PodPriority K v) (PodPriority K pod) \<and> b \<and> (pod_queue v = pod_queue pod \<or> \<not> over)"
    using CanPodBePreempted_eq [OF bal Ptr] Ptr by (simp add: pending_victim_def)
  show ?thesis
    unfolding b(2) by (simp add: excludes_quota_aware_def Ptr b(1) is_nil_def same Let_def)
qed

context kube_laws
begin

lemma eligible_on_nominated_node_eq:
  assumes bal: "mgr_balanced K amount reqs qm" and n: "pod_queue pod = Some n" "Manager_GetByName qm n = Ptr q"
    and nonneg: "max_nonneg amount (Quota_Max (queue_quota q))"
  shows "map_option fst (eligible_on_nominated_node K H qm pod ni) =
    Some (\<forall>v \<in> GetPod ` set (ni_GetPods H ni). \<not> pending_victim K qm pod
      (fits_max amount reqs (Quota_Max (queue_quota q)) (mgr_tracked K qm n) (pod_req K amount pod)) v)"
proof -
  obtain req where req: "FromPodReq K (Ptr pod) = Some req" using FromPodReq_result [of pod] by blast
  let ?fits = "fits_max amount reqs (Quota_Max (queue_quota q)) (mgr_tracked K qm n) (pod_req K amount pod)"
  have "any_of (excludes_quota_aware K qm (PodPriority K pod) (Ptr q) (\<not> ?fits)) (ni_GetPods H ni) =
      Some (\<exists>x \<in> set (ni_GetPods H ni). pending_victim K qm pod ?fits (GetPod x))"
    using excludes_quota_aware_eq [OF bal n, of "\<not> ?fits"]
    by (intro any_of_Some) (metis (no_types, lifting) pod_info.collapse not_not)
  then show ?thesis
    using req n over_max_result [OF bal n(2) nonneg req]
    by (auto simp: eligible_on_nominated_node_def Let_def Manager_Get_queue)
qed

end

lemma numCandidates_bounds:
  assumes "GetOffsetAndNumCandidates r p nodes = (off, num)"
  shows "1 \<le> sint num" and "sint num \<le> max 1 (sint nodes)"
    and "pre_MaxCandidateNodes p = Ptr mx \<Longrightarrow> sint num \<le> max 1 (sint mx)"
  using assms by (auto simp: GetOffsetAndNumCandidates_def Let_def i32_less_def split: ptr.splits if_splits)

end
