(* ===== verification/PdbEval.thy ===== *)
theory PdbEval
  imports Pods
begin

text \<open>
  \<^verbatim>\<open>internal/pdbeval/removal_violation.go\<close>: which pods of a list, removed in its order, would
  violate a pod disruption budget.

  The budgets still allowed are \<^verbatim>\<open>int32\<close> counters, one per budget, decremented for every pod the
  budget covers. A selector that converts without error is dereferenced, so a nil one would
  panic. The pods and the budgets are taken to be non-nil, as the framework provides them.
\<close>

record 'q violations_result =
  ViolatingPods :: "'q pod_info list"
  NonViolatingPods :: "'q pod_info list"

text \<open>Whether removing the pod counts against the budget: the tests before the decrement.\<close>

definition pdb_counts :: "('q, 's, 'm) kube \<Rightarrow> 'q pod \<Rightarrow> pdb \<Rightarrow> bool option" where
  "pdb_counts K pod pdb =
     (if pdb_namespace pdb \<noteq> pod_namespace pod then Some False
      else case LabelSelectorAsSelector K (pdb_selector pdb) of (selector, err) \<Rightarrow>
        if err \<noteq> None then Some False
        else do {
          sel \<leftarrow> deref selector;
          if sel_Empty K sel \<or> \<not> sel_Matches K sel (pod_labels pod) then Some False
          else if gm_get (pdb_disruptedPods pdb) (pod_name pod) \<noteq> None then Some False
          else Some True })"

text \<open>The inner loop: the budgets and, at the same index, what they still allow.\<close>

fun scan_pdbs :: "('q, 's, 'm) kube \<Rightarrow> 'q pod \<Rightarrow> pdb list \<Rightarrow> int32 list \<Rightarrow> (bool \<times> int32 list) option" where
  "scan_pdbs K pod [] pdbsAllowed = Some (False, pdbsAllowed)"
| "scan_pdbs K pod (pdb # pdbs) [] = None"
| "scan_pdbs K pod (pdb # pdbs) (allowed # rest) = do {
     c \<leftarrow> pdb_counts K pod pdb;
     let allowed' = (if c then allowed - 1 else allowed);
     (violated, rest') \<leftarrow> scan_pdbs K pod pdbs rest;
     Some ((c \<and> i32_less allowed' 0) \<or> violated, allowed' # rest') }"

definition check_pod :: "('q, 's, 'm) kube \<Rightarrow> pdb list \<Rightarrow> 'q pod_info \<Rightarrow> 'q violations_result \<times> int32 list \<Rightarrow> ('q violations_result \<times> int32 list) option" where
  "check_pod K pdbs podInfo = (\<lambda>(result, pdbsAllowed). do {
     let pod = GetPod podInfo;
     (violated, pdbsAllowed') \<leftarrow>
       (if gm_len (pod_labels pod) > 0 then scan_pdbs K pod pdbs pdbsAllowed else Some (False, pdbsAllowed));
     Some (if violated then result\<lparr>ViolatingPods := ViolatingPods result @ [podInfo]\<rparr>
       else result\<lparr>NonViolatingPods := NonViolatingPods result @ [podInfo]\<rparr>, pdbsAllowed') })"

definition CheckPodRemovalViolations :: "('q, 's, 'm) kube \<Rightarrow> 'q pod_info list \<Rightarrow> pdb list \<Rightarrow> 'q violations_result option" where
  "CheckPodRemovalViolations K podInfos pdbs = do {
     (result, _) \<leftarrow> for_each (check_pod K pdbs) podInfos
       (\<lparr>ViolatingPods = [], NonViolatingPods = []\<rparr>, map pdb_disruptionsAllowed pdbs);
     Some result }"

section \<open>Specification\<close>

text \<open>
  A budget covers a pod if the pod is in the budget's namespace and has labels, the budget's selector
  is valid, not empty and selects those labels, and the pod is not among the budget's disrupted pods
  already. Removing the pods in order, a pod violates a budget if the budget covers it and has
  already been used up by the covered pods up to and including it.
\<close>

definition pdb_selects :: "('q, 's, 'm) kube \<Rightarrow> pdb \<Rightarrow> labels \<Rightarrow> bool" where
  "pdb_selects K pdb lbls \<longleftrightarrow> (case LabelSelectorAsSelector K (pdb_selector pdb) of
     (Ptr sel, None) \<Rightarrow> \<not> sel_Empty K sel \<and> sel_Matches K sel lbls
   | _ \<Rightarrow> False)"

definition pdb_covers :: "('q, 's, 'm) kube \<Rightarrow> pdb \<Rightarrow> 'q pod \<Rightarrow> bool" where
  "pdb_covers K pdb pod \<longleftrightarrow> pod_namespace pod = pdb_namespace pdb \<and> pod_labels pod \<noteq> NilP \<and> pod_labels pod \<noteq> Ptr [] \<and>
     pdb_selects K pdb (pod_labels pod) \<and> pod_name pod \<notin> gm_dom (pdb_disruptedPods pdb)"

definition pdb_used :: "('q, 's, 'm) kube \<Rightarrow> pdb \<Rightarrow> 'q pod_info list \<Rightarrow> int" where
  "pdb_used K pdb ps = int (length (filter (\<lambda>pinfo. pdb_covers K pdb (GetPod pinfo)) ps))"

definition violates :: "('q, 's, 'm) kube \<Rightarrow> pdb list \<Rightarrow> 'q pod_info list \<Rightarrow> 'q pod_info \<Rightarrow> bool" where
  "violates K pdbs before pinfo \<longleftrightarrow> list_ex (\<lambda>pdb. pdb_covers K pdb (GetPod pinfo) \<and>
     sint (pdb_disruptionsAllowed pdb) < pdb_used K pdb (before @ [pinfo])) pdbs"

text \<open>The two groups, each in the order of the list.\<close>

fun split_violating :: "('q, 's, 'm) kube \<Rightarrow> pdb list \<Rightarrow> 'q pod_info list \<Rightarrow> 'q pod_info list \<Rightarrow> 'q pod_info list \<times> 'q pod_info list" where
  "split_violating K pdbs before [] = ([], [])"
| "split_violating K pdbs before (pinfo # ps) =
     (case split_violating K pdbs (before @ [pinfo]) ps of (vs, ns) \<Rightarrow>
        if violates K pdbs before pinfo then (pinfo # vs, ns) else (vs, pinfo # ns))"

section \<open>Lemmas\<close>

text \<open>\<open>allowed_now\<close>: the counters after the pods of a list have been processed.\<close>

definition allowed_now :: "('q, 's, 'm) kube \<Rightarrow> pdb list \<Rightarrow> 'q pod_info list \<Rightarrow> int32 list \<Rightarrow> bool" where
  "allowed_now K pdbs ps as \<longleftrightarrow>
     list_all2 (\<lambda>pdb a. sint a = sint (pdb_disruptionsAllowed pdb) - pdb_used K pdb ps) pdbs as"

lemma pdb_used_snoc:
  "pdb_used K pdb (ps @ [pinfo]) = pdb_used K pdb ps + (if pdb_covers K pdb (GetPod pinfo) then 1 else 0)"
  by (simp add: pdb_used_def)

lemma pdb_used_bounds: "0 \<le> pdb_used K pdb ps" "pdb_used K pdb ps \<le> int (length ps)"
  by (simp_all add: pdb_used_def)

text \<open>The tests of the code decide whether the budget covers the pod.\<close>

lemma pdb_counts_covers:
  assumes "pdb_counts K pod pdb = Some c" and "gm_len (pod_labels pod) > 0"
  shows "pdb_covers K pdb pod \<longleftrightarrow> c"
proof -
  have "gm_get (pdb_disruptedPods pdb) (pod_name pod) = None \<longleftrightarrow> pod_name pod \<notin> gm_dom (pdb_disruptedPods pdb)"
    by (simp add: gm_dom_def gm_keys_def gm_get_def map_of_eq_None_iff)
  then show ?thesis using assms
    by (cases "pod_labels pod"; cases "LabelSelectorAsSelector K (pdb_selector pdb)"; cases "fst (LabelSelectorAsSelector K (pdb_selector pdb))")
      (auto simp: pdb_counts_def pdb_covers_def pdb_selects_def gm_len_def split: if_splits)
qed

lemma scan_pdbs_allowed:
  assumes "gm_len (pod_labels (GetPod pinfo)) > 0"
    and "\<And>pdb. pdb \<in> set pdbs \<Longrightarrow> pdb_counts K (GetPod pinfo) pdb \<noteq> None"
    and "\<And>pdb. pdb \<in> set pdbs \<Longrightarrow> 0 \<le> sint (pdb_disruptionsAllowed pdb)"
    and "int (length before) < 2 ^ 31"
    and "allowed_now K pdbs before as"
  shows "\<exists>as'. scan_pdbs K (GetPod pinfo) pdbs as = Some (violates K pdbs before pinfo, as') \<and>
    allowed_now K pdbs (before @ [pinfo]) as'"
  using assms(2,3,5)
proof (induction pdbs arbitrary: as)
  case Nil
  then show ?case by (simp add: allowed_now_def violates_def)
next
  case (Cons pdb pdbs)
  then obtain a rest where as: "as = a # rest" and
    a: "sint a = sint (pdb_disruptionsAllowed pdb) - pdb_used K pdb before" and
    rest: "allowed_now K pdbs before rest"
    by (auto simp: allowed_now_def list_all2_Cons1)
  obtain rest' where rest': "scan_pdbs K (GetPod pinfo) pdbs rest = Some (violates K pdbs before pinfo, rest')"
      "allowed_now K pdbs (before @ [pinfo]) rest'"
    using Cons.IH [OF _ _ rest] Cons.prems(1,2) by auto
  obtain c where c: "pdb_counts K (GetPod pinfo) pdb = Some c" using Cons.prems(1) by fastforce
  have cov: "pdb_covers K pdb (GetPod pinfo) \<longleftrightarrow> c" using pdb_counts_covers [OF c assms(1)] .
  have "- (2 ^ 31) < sint a"
    using a Cons.prems(2) [of pdb] assms(4) pdb_used_bounds(2) [of K pdb before] by simp
  then have dec: "sint (if c then a - 1 else a) = sint (pdb_disruptionsAllowed pdb) - pdb_used K pdb (before @ [pinfo])"
    using a i32_dec [of a] by (simp add: pdb_used_snoc cov)
  then have "c \<and> i32_less (if c then a - 1 else a) 0 \<longleftrightarrow>
      pdb_covers K pdb (GetPod pinfo) \<and> sint (pdb_disruptionsAllowed pdb) < pdb_used K pdb (before @ [pinfo])"
    using cov by (auto simp: i32_less_def)
  then show ?case
    using c rest' dec by (simp add: as violates_def allowed_now_def)
qed

lemma check_pods_split:
  assumes "\<And>pinfo pdb. pinfo \<in> set ps \<Longrightarrow> pdb \<in> set pdbs \<Longrightarrow> pdb_counts K (GetPod pinfo) pdb \<noteq> None"
    and "\<And>pdb. pdb \<in> set pdbs \<Longrightarrow> 0 \<le> sint (pdb_disruptionsAllowed pdb)"
    and "int (length before + length ps) \<le> 2 ^ 31"
    and "allowed_now K pdbs before as"
  shows "\<exists>as'. for_each (check_pod K pdbs) ps (\<lparr>ViolatingPods = vs, NonViolatingPods = ns\<rparr>, as) =
    Some (\<lparr>ViolatingPods = vs @ fst (split_violating K pdbs before ps),
      NonViolatingPods = ns @ snd (split_violating K pdbs before ps)\<rparr>, as')"
  using assms
proof (induction ps arbitrary: before as vs ns)
  case Nil
  then show ?case by simp
next
  case (Cons pinfo ps)
  have "\<exists>as1. (if gm_len (pod_labels (GetPod pinfo)) > 0 then scan_pdbs K (GetPod pinfo) pdbs as else Some (False, as)) =
      Some (violates K pdbs before pinfo, as1) \<and> allowed_now K pdbs (before @ [pinfo]) as1"
  proof (cases "gm_len (pod_labels (GetPod pinfo)) > 0")
    case True
    then show ?thesis
      using scan_pdbs_allowed [OF True, of pdbs K before as] Cons.prems by simp
  next
    case False
    then have "\<not> pdb_covers K pdb (GetPod pinfo)" for pdb by (cases "pod_labels (GetPod pinfo)") (auto simp: pdb_covers_def gm_len_def)
    then show ?thesis using False Cons.prems(4)
      by (simp add: violates_def allowed_now_def pdb_used_snoc list_ex_iff)
  qed
  then obtain as1 where as1: "(if gm_len (pod_labels (GetPod pinfo)) > 0 then scan_pdbs K (GetPod pinfo) pdbs as
      else Some (False, as)) = Some (violates K pdbs before pinfo, as1)"
    "allowed_now K pdbs (before @ [pinfo]) as1" by blast
  have IH: "\<exists>as'. for_each (check_pod K pdbs) ps (\<lparr>ViolatingPods = vs', NonViolatingPods = ns'\<rparr>, as1) =
    Some (\<lparr>ViolatingPods = vs' @ fst (split_violating K pdbs (before @ [pinfo]) ps),
      NonViolatingPods = ns' @ snd (split_violating K pdbs (before @ [pinfo]) ps)\<rparr>, as')" for vs' ns'
    using Cons.IH [OF _ _ _ as1(2)] Cons.prems(1-3) by simp
  have step: "check_pod K pdbs pinfo (\<lparr>ViolatingPods = vs, NonViolatingPods = ns\<rparr>, as) =
      Some (if violates K pdbs before pinfo then \<lparr>ViolatingPods = vs @ [pinfo], NonViolatingPods = ns\<rparr>
        else \<lparr>ViolatingPods = vs, NonViolatingPods = ns @ [pinfo]\<rparr>, as1)"
    using as1(1) by (simp add: check_pod_def Let_def)
  show ?case
    using IH [of "vs @ [pinfo]" ns] IH [of vs "ns @ [pinfo]"] by (auto simp: step split: prod.split)
qed

lemma split_violating_mset:
  "mset (fst (split_violating K pdbs before ps)) + mset (snd (split_violating K pdbs before ps)) = mset ps"
  by (induction ps arbitrary: before) (auto split: prod.split simp: split_beta)

text \<open>Whatever the budgets, every pod of the list is in one of the two groups.\<close>

lemma CheckPodRemovalViolations_mset:
  assumes "CheckPodRemovalViolations K ps pdbs = Some res"
  shows "mset (ViolatingPods res) + mset (NonViolatingPods res) = mset ps"
proof -
  have "mset (ViolatingPods r') + mset (NonViolatingPods r') =
      mset qs + mset (ViolatingPods r) + mset (NonViolatingPods r)"
    if "for_each (check_pod K pdbs) qs (r, as) = Some (r', as')" for qs r as r' as'
    using that
  proof (induction qs arbitrary: r as)
    case (Cons q qs)
    then obtain r1 as1 where r1: "check_pod K pdbs q (r, as) = Some (r1, as1)"
        "for_each (check_pod K pdbs) qs (r1, as1) = Some (r', as')"
      by (auto split: bind_splits)
    have "mset (ViolatingPods r1) + mset (NonViolatingPods r1) =
        add_mset q (mset (ViolatingPods r) + mset (NonViolatingPods r))"
      using r1(1) by (auto simp: check_pod_def Let_def split: bind_splits if_splits)
    with Cons.IH [OF r1(2)] show ?case by (simp add: ac_simps)
  qed simp
  then show ?thesis using assms by (fastforce simp: CheckPodRemovalViolations_def split: bind_splits)
qed

lemma CheckPodRemovalViolations_subset:
  assumes "CheckPodRemovalViolations K ps pdbs = Some res"
  shows "set (ViolatingPods res) \<union> set (NonViolatingPods res) = set ps"
  using arg_cong [OF CheckPodRemovalViolations_mset [OF assms], of set_mset] by simp

context label_selectors
begin

lemma pdb_counts_defined: "pdb_counts K pod pdb \<noteq> None"
  using AsSelector_not_nil [of "pdb_selector pdb"]
  by (auto simp: pdb_counts_def split: prod.splits option.splits bind_splits)

lemma scan_pdbs_defined:
  "length as = length pdbs \<Longrightarrow> \<exists>b as'. scan_pdbs K pod pdbs as = Some (b, as') \<and> length as' = length pdbs"
proof (induction pdbs arbitrary: as)
  case (Cons pdb pdbs)
  obtain a rest where as: "as = a # rest" "length rest = length pdbs" using Cons.prems by (cases as) auto
  obtain c where "pdb_counts K pod pdb = Some c" using pdb_counts_defined by blast
  with Cons.IH [OF as(2)] as show ?case by (auto simp: Let_def)
qed auto

lemma CheckPodRemovalViolations_defined: "\<exists>res. CheckPodRemovalViolations K ps pdbs = Some res"
proof -
  have "\<exists>s. for_each (check_pod K pdbs) ps (\<lparr>ViolatingPods = [], NonViolatingPods = []\<rparr>, map pdb_disruptionsAllowed pdbs) = Some s \<and>
      length (snd s) = length pdbs"
  proof (rule for_each_rule)
    fix x and s :: "'q violations_result \<times> int32 list"
    assume "length (snd s) = length pdbs"
    then show "\<exists>s'. check_pod K pdbs x s = Some s' \<and> length (snd s') = length pdbs"
      using scan_pdbs_defined [of "snd s" pdbs "GetPod x"] by (cases s) (auto simp: check_pod_def Let_def)
  qed simp
  then show ?thesis by (auto simp: CheckPodRemovalViolations_def)
qed

lemma CheckPodRemovalViolations_eq:
  assumes "\<And>pdb. pdb \<in> set pdbs \<Longrightarrow> 0 \<le> sint (pdb_disruptionsAllowed pdb)"
    and "int (length ps) \<le> 2 ^ 31"
  shows "CheckPodRemovalViolations K ps pdbs =
    Some \<lparr>ViolatingPods = fst (split_violating K pdbs [] ps), NonViolatingPods = snd (split_violating K pdbs [] ps)\<rparr>"
proof -
  have "allowed_now K pdbs [] (map pdb_disruptionsAllowed pdbs)"
    by (simp add: allowed_now_def list_all2_map2 list_all2_same pdb_used_def)
  from check_pods_split [OF _ assms(1) _ this, where ps = ps and vs = "[]" and ns = "[]"] pdb_counts_defined assms(2)
  show ?thesis by (auto simp: CheckPodRemovalViolations_def)
qed

end

section \<open>Properties\<close>

text \<open>
  C16. With budgets that are not negative and at most $2^{31}$ pods, the pods are split into the two
  groups, each in the order of the list, and a pod is in the violating group exactly when some
  budget that covers it is used up by the covered pods up to and including it. A budget covers a pod
  of its own namespace that has labels, that its selector (valid and not empty) selects, and that is
  not recorded as disrupted already.
\<close>

theorem CheckPodRemovalViolations_correct:
  assumes "label_selectors K" and "\<forall>pdb \<in> set pdbs. 0 \<le> sint (pdb_disruptionsAllowed pdb)"
    and "int (length ps) \<le> 2 ^ 31"
  shows "\<exists>res. CheckPodRemovalViolations K ps pdbs = Some res \<and>
    (ViolatingPods res, NonViolatingPods res) = split_violating K pdbs [] ps \<and>
    mset (ViolatingPods res) + mset (NonViolatingPods res) = mset ps"
  using label_selectors.CheckPodRemovalViolations_eq [OF assms(1) _ assms(3), of pdbs] assms(2)
    split_violating_mset [of K pdbs "[]" ps] by simp

theorem CheckPodRemovalViolations_correct_witness:
  "\<exists>res. CheckPodRemovalViolations ref_kube [PodInfo (ref_pod ''p1'' ''a'' 1 500), PodInfo (ref_pod ''p2'' ''a'' 1 500)]
      [\<lparr>pdb_namespace = ''default'', pdb_selector = Ptr \<lparr>ls_matchLabels = Ptr [(LabelKeyQueue, ''a'')], ls_matchExpressions = []\<rparr>,
        pdb_disruptionsAllowed = 1, pdb_disruptedPods = NilP\<rparr>] = Some res \<and>
    ViolatingPods res = [PodInfo (ref_pod ''p2'' ''a'' 1 500)]"
proof -
  let ?pdbs = "[\<lparr>pdb_namespace = ''default'', pdb_selector = Ptr \<lparr>ls_matchLabels = Ptr [(LabelKeyQueue, ''a'')], ls_matchExpressions = []\<rparr>,
        pdb_disruptionsAllowed = 1, pdb_disruptedPods = NilP\<rparr>]"
  let ?ps = "[PodInfo (ref_pod ''p1'' ''a'' 1 500), PodInfo (ref_pod ''p2'' ''a'' 1 500)]"
  have "fst (split_violating ref_kube ?pdbs [] ?ps) = [PodInfo (ref_pod ''p2'' ''a'' 1 500)]" by code_simp
  moreover have "\<exists>res. CheckPodRemovalViolations ref_kube ?ps ?pdbs = Some res \<and>
      (ViolatingPods res, NonViolatingPods res) = split_violating ref_kube ?pdbs [] ?ps \<and>
      mset (ViolatingPods res) + mset (NonViolatingPods res) = mset ?ps"
    by (rule CheckPodRemovalViolations_correct [OF ref_selectors.label_selectors_axioms]) simp_all
  ultimately show ?thesis by (metis fst_conv)
qed

end
