(* ===== verification/VictimSelection.thy ===== *)
theory VictimSelection
  imports Eligibility PdbEval
begin

text \<open>
  The second part of \<^verbatim>\<open>internal/plugin/quotaawarepreempt/preemption.go\<close>: choosing the victims of a
  preemption on one node.

  The code simulates on a cycle state and a node info of its own: it removes every potential
  victim, checks that the preemptor then fits, and adds the victims back one by one as long as
  it still does. The simulated state is the pair of the cycle state and the node info. The
  quota of \<^verbatim>\<open>preemptorQ\<close>, a pointer into the queue snapshot, is the one the snapshot in the cycle
  state has at that moment.
\<close>

section \<open>Potential victims\<close>

fun filter_opt :: "('a \<Rightarrow> bool option) \<Rightarrow> 'a list \<Rightarrow> 'a list option" where
  "filter_opt f [] = Some []"
| "filter_opt f (x # xs) = do { b \<leftarrow> f x; ys \<leftarrow> filter_opt f xs; Some (if b then x # ys else ys) }"

definition findPotentialVictims :: "('q, 's, 'm) kube \<Rightarrow> ('q, 's, 'm, 'o, 'c, 'n) handle \<Rightarrow> 'q pod \<Rightarrow> ('q, 's, 'm) queue_snapshot_state \<Rightarrow> 'n \<Rightarrow> 'q pod_info list option" where
  "findPotentialVictims K H preemptorPod queueSnapshot nodeInfo = do {
     preemptEvaluator \<leftarrow> NewPreemptionEvaluator K (qss_QueueMgr queueSnapshot) (Ptr preemptorPod);
     if IsConfiguredForPreemption preemptEvaluator then
       filter_opt (\<lambda>victimInfo. IsPreemptionAllowed K preemptEvaluator (Ptr (GetPod victimInfo))) (ni_GetPods H nodeInfo)
     else
       Some (filter (\<lambda>victimInfo. is_nil (Manager_Get (qss_QueueMgr queueSnapshot) (Ptr (GetPod victimInfo))) \<and>
         i32_less (PodPriority K (GetPod victimInfo)) (PodPriority K preemptorPod)) (ni_GetPods H nodeInfo)) }"

section \<open>The simulation\<close>

text \<open>The closures \<^verbatim>\<open>removePod\<close> and \<^verbatim>\<open>addPod\<close>; \<open>Inl\<close> is the error they return.\<close>

fun sim_removePod :: "('q, 's, 'm, 'o, 'c, 'n) handle \<Rightarrow> 'q pod \<Rightarrow> 'q pod_info \<Rightarrow> 'c \<times> 'n \<Rightarrow> string + ('c \<times> 'n)" where
  "sim_removePod H pod podInfo (state, nodeInfo) = (case ni_RemovePod H nodeInfo (GetPod podInfo) of
     Inl err \<Rightarrow> Inl err
   | Inr nodeInfo' \<Rightarrow> (case RunPreFilterExtensionRemovePod H state pod podInfo nodeInfo' of (state', status) \<Rightarrow>
       if \<not> status_IsSuccess status then Inl (st_AsError H status) else Inr (state', nodeInfo')))"

fun sim_addPod :: "('q, 's, 'm, 'o, 'c, 'n) handle \<Rightarrow> 'q pod \<Rightarrow> 'q pod_info \<Rightarrow> 'c \<times> 'n \<Rightarrow> string + ('c \<times> 'n)" where
  "sim_addPod H pod podInfo (state, nodeInfo) =
     (let nodeInfo' = ni_AddPodInfo H nodeInfo podInfo in
      case RunPreFilterExtensionAddPod H state pod podInfo nodeInfo' of (state', status) \<Rightarrow>
        if \<not> status_IsSuccess status then Inl (st_AsError H status) else Inr (state', nodeInfo'))"

fun sim_each :: "('a \<Rightarrow> 'st \<Rightarrow> string + 'st) \<Rightarrow> 'a list \<Rightarrow> 'st \<Rightarrow> string + 'st" where
  "sim_each f [] st = Inr st"
| "sim_each f (x # xs) st = (case f x st of Inl err \<Rightarrow> Inl err | Inr st' \<Rightarrow> sim_each f xs st')"

text \<open>Whether the preemptor's queue, if it has one, is over its maximum with the request.\<close>

definition over_quota :: "('q, 's, 'm) kube \<Rightarrow> ('q, 's, 'm, 'o, 'c, 'n) handle \<Rightarrow> 'q pod \<Rightarrow> 'q resources \<Rightarrow> 'c \<Rightarrow> bool option" where
  "over_quota K H pod requestedRes state = (case ReadQueueSnapshot H state of
     Inl _ \<Rightarrow> None
   | Inr queueSnapshot \<Rightarrow>
       let preemptorQ = Manager_Get (qss_QueueMgr queueSnapshot) (Ptr pod) in
       if is_nil preemptorQ then Some False
       else Quota_WouldPutOverMax K (Queue_Quota preemptorQ) requestedRes)"

fun preemptor_fits :: "('q, 's, 'm) kube \<Rightarrow> ('q, 's, 'm, 'o, 'c, 'n) handle \<Rightarrow> 'q pod \<Rightarrow> 'q resources \<Rightarrow> 'c \<times> 'n \<Rightarrow> bool option" where
  "preemptor_fits K H pod requestedRes (state, nodeInfo) =
     (if \<not> status_IsSuccess (RunFilterPluginsWithNominatedPods H state pod nodeInfo) then Some False
      else do { over \<leftarrow> over_quota K H pod requestedRes state; Some (\<not> over) })"

text \<open>
  The closure \<^verbatim>\<open>maybeReprievePod\<close> over the closures it calls: it returns whether the pod is
  reprieved, the simulated state, and the victims so far.
\<close>

definition maybeReprievePod :: "('q pod_info \<Rightarrow> 'st \<Rightarrow> string + 'st) \<Rightarrow> ('q pod_info \<Rightarrow> 'st \<Rightarrow> string + 'st) \<Rightarrow> ('st \<Rightarrow> bool option) \<Rightarrow> 'q pod_info \<Rightarrow> 'st \<times> 'q pod list \<Rightarrow> (string + bool \<times> 'st \<times> 'q pod list) option" where
  "maybeReprievePod addPod removePod fits podInfo = (\<lambda>(st, victims). case addPod podInfo st of
     Inl err \<Rightarrow> Some (Inl err)
   | Inr st1 \<Rightarrow> do {
       ok \<leftarrow> fits st1;
       if ok then Some (Inr (True, st1, victims))
       else (case removePod podInfo st1 of
         Inl err \<Rightarrow> Some (Inl err)
       | Inr st2 \<Rightarrow> Some (Inr (False, st2, victims @ [GetPod podInfo]))) })"

text \<open>A loop over pods that tries to reprieve each; it counts those it did not reprieve.\<close>

fun reprieve_each :: "('q pod_info \<Rightarrow> 'st \<Rightarrow> string + 'st) \<Rightarrow> ('q pod_info \<Rightarrow> 'st \<Rightarrow> string + 'st) \<Rightarrow> ('st \<Rightarrow> bool option) \<Rightarrow> 'q pod_info list \<Rightarrow> 'st \<times> 'q pod list \<times> nat \<Rightarrow> (string + 'st \<times> 'q pod list \<times> nat) option" where
  "reprieve_each addPod removePod fits [] acc = Some (Inr acc)"
| "reprieve_each addPod removePod fits (podInfo # podInfos) (st, victims, num) = do {
     r \<leftarrow> maybeReprievePod addPod removePod fits podInfo (st, victims);
     case r of
       Inl err \<Rightarrow> Some (Inl err)
     | Inr (reprieved, st', victims') \<Rightarrow>
         reprieve_each addPod removePod fits podInfos (st', victims', if reprieved then num else num + 1) }"

text \<open>From the removal of the potential victims on.\<close>

definition reprieve_victims :: "('q, 's, 'm) kube \<Rightarrow> ('q, 's, 'm, 'o, 'c, 'n) handle \<Rightarrow> 'q pod \<Rightarrow> 'q resources \<Rightarrow> pdb list \<Rightarrow> 'q pod_info list \<Rightarrow> 'c \<times> 'n \<Rightarrow> (string + 'q pod list \<times> nat) option" where
  "reprieve_victims K H pod requestedRes pdbs potentialVictims st = do {
     let sorted = SortFunc (\<lambda>a b. CompareImportanceDesc K (GetPod a) (GetPod b)) potentialVictims;
     pdbViolationEval \<leftarrow> CheckPodRemovalViolations K sorted pdbs;
     r \<leftarrow> reprieve_each (sim_addPod H pod) (sim_removePod H pod) (preemptor_fits K H pod requestedRes)
       (ViolatingPods pdbViolationEval) (st, [], 0);
     case r of
       Inl err \<Rightarrow> Some (Inl err)
     | Inr (st1, victims, numPDBViolationVictims) \<Rightarrow> do {
         r' \<leftarrow> reprieve_each (sim_addPod H pod) (sim_removePod H pod) (preemptor_fits K H pod requestedRes)
           (NonViolatingPods pdbViolationEval) (st1, victims, 0);
         case r' of
           Inl err \<Rightarrow> Some (Inl err)
         | Inr (st2, victims', _) \<Rightarrow>
             Some (Inr (SortFunc (CompareImportanceDesc K) victims', numPDBViolationVictims)) } }"

definition SelectVictimsOnNode :: "('q, 's, 'm) kube \<Rightarrow> ('q, 's, 'm, 'o, 'c, 'n) handle \<Rightarrow> 'c \<Rightarrow> 'q pod \<Rightarrow> 'n \<Rightarrow> pdb list \<Rightarrow> ('q pod list \<times> nat \<times> status ptr) option" where
  "SelectVictimsOnNode K H state pod nodeInfo pdbs = (case ReadQueueSnapshot H state of
     Inl err \<Rightarrow> Some ([], 0, NewStatus Unschedulable [''Failed to read queueSnapshot from cycleState''])
   | Inr queueSnapshot \<Rightarrow> do {
       potentialVictims \<leftarrow> findPotentialVictims K H pod queueSnapshot nodeInfo;
       if potentialVictims = [] then
         Some ([], 0, NewStatus UnschedulableAndUnresolvable
           [''No victims found on node '' @ ni_NodeName H nodeInfo @ '' for preemptor pod '' @ pod_name pod])
       else (case sim_each (sim_removePod H pod) potentialVictims (state, nodeInfo) of
         Inl err \<Rightarrow> Some ([], 0, st_AsStatus H err)
       | Inr (state1, nodeInfo1) \<Rightarrow>
           let status = RunFilterPluginsWithNominatedPods H state1 pod nodeInfo1 in
           if \<not> status_IsSuccess status then Some ([], 0, status)
           else do {
             requestedRes \<leftarrow> FromPodReq K (Ptr pod);
             over \<leftarrow> over_quota K H pod requestedRes state1;
             if over then Some ([], 0, NewStatus Unschedulable
               [''Not eligible for preemption because queue exceeds after preemption (quota='' @
                (case ReadQueueSnapshot H state1 of Inl _ \<Rightarrow> '''' | Inr s \<Rightarrow>
                  Quota_String K (Queue_Quota (Manager_Get (qss_QueueMgr s) (Ptr pod)))) @ '')''])
             else do {
               r \<leftarrow> reprieve_victims K H pod requestedRes pdbs potentialVictims (state1, nodeInfo1);
               case r of
                 Inl err \<Rightarrow> Some ([], 0, st_AsStatus H err)
               | Inr (victims, num) \<Rightarrow> Some (victims, num, NewStatus Success []) } }) })"

section \<open>Specification: greedy reprieval\<close>

text \<open>
  Over the pods in order, keep each one with which the preemptor still fits; the others are the
  victims. The state \<open>v\<close> is what the test sees; the result is the victims and the final state.
\<close>

fun greedy :: "('v \<Rightarrow> bool) \<Rightarrow> ('a \<Rightarrow> 'v \<Rightarrow> 'v) \<Rightarrow> 'a list \<Rightarrow> 'v \<Rightarrow> 'a list \<times> 'v" where
  "greedy ok add [] v = ([], v)"
| "greedy ok add (x # xs) v = (if ok (add x v) then greedy ok add xs (add x v)
     else case greedy ok add xs v of (vs, w) \<Rightarrow> (x # vs, w))"

text \<open>A pod that may be a victim: quota-aware when the preemptor has a queue, otherwise by priority.\<close>

definition potential_victim :: "('q, 's, 'm) kube \<Rightarrow> ('q, 's, 'm) manager \<Rightarrow> 'q pod \<Rightarrow> 'q pod \<Rightarrow> bool" where
  "potential_victim K qm pod v \<longleftrightarrow> (if is_nil (Manager_Get qm (Ptr pod))
     then is_nil (Manager_Get qm (Ptr v)) \<and> i32_less (PodPriority K v) (PodPriority K pod)
     else may_preempt K qm pod v)"

section \<open>Lemmas\<close>

lemma filter_opt_Some: "(\<And>x. x \<in> set xs \<Longrightarrow> f x = Some (P x)) \<Longrightarrow> filter_opt f xs = Some (filter P xs)"
  by (induction xs) auto

lemma findPotentialVictims_eq:
  "findPotentialVictims K H pod s ni =
     Some (filter (\<lambda>x. potential_victim K (qss_QueueMgr s) pod (GetPod x)) (ni_GetPods H ni))"
proof -
  obtain pe where pe: "NewPreemptionEvaluator K (qss_QueueMgr s) (Ptr pod) = Some pe"
    by (simp add: NewPreemptionEvaluator_def)
  then have conf: "IsConfiguredForPreemption pe \<longleftrightarrow> \<not> is_nil (Manager_Get (qss_QueueMgr s) (Ptr pod))"
    by (auto simp: NewPreemptionEvaluator_def IsConfiguredForPreemption_def)
  have "filter_opt (\<lambda>x. IsPreemptionAllowed K pe (Ptr (GetPod x))) (ni_GetPods H ni) =
      Some (filter (\<lambda>x. may_preempt K (qss_QueueMgr s) pod (GetPod x)) (ni_GetPods H ni))"
    by (rule filter_opt_Some) (rule IsPreemptionAllowed_eq [OF pe])
  then show ?thesis by (simp add: findPotentialVictims_def pe conf potential_victim_def)
qed

lemma reprieve_each_victims:
  assumes "reprieve_each addPod removePod fits ps (st, vs, k) = Some (Inr (st', vs', k'))"
  shows "\<exists>ws. vs' = vs @ map GetPod ws \<and> set ws \<subseteq> set ps \<and> length ws \<le> length ps \<and> k' = k + length ws"
  using assms
proof (induction ps arbitrary: st vs k)
  case (Cons p ps)
  then obtain b st1 vs1 where step: "maybeReprievePod addPod removePod fits p (st, vs) = Some (Inr (b, st1, vs1))"
      "reprieve_each addPod removePod fits ps (st1, vs1, if b then k else k + 1) = Some (Inr (st', vs', k'))"
    by (auto split: bind_splits sum.splits)
  from step(1) have vs1: "vs1 = (if b then vs else vs @ [GetPod p])"
    by (auto simp: maybeReprievePod_def split: sum.splits bind_splits if_splits)
  obtain ws where "vs' = vs1 @ map GetPod ws" "set ws \<subseteq> set ps" "length ws \<le> length ps"
      "k' = (if b then k else k + 1) + length ws"
    using Cons.IH [OF step(2)] by blast
  then show ?case using vs1 by (intro exI [of _ "if b then ws else p # ws"]) auto
qed simp

lemma reprieve_victims_subset:
  assumes "reprieve_victims K H pod req pdbs pvs st = Some (Inr (vs, k))"
  shows "set vs \<subseteq> GetPod ` set pvs \<and> k \<le> length vs"
proof -
  let ?sorted = "SortFunc (\<lambda>a b. CompareImportanceDesc K (GetPod a) (GetPod b)) pvs"
  from assms obtain ev st1 vs1 st2 vs2 k2 where
    ev: "CheckPodRemovalViolations K ?sorted pdbs = Some ev"
    and r1: "reprieve_each (sim_addPod H pod) (sim_removePod H pod) (preemptor_fits K H pod req)
      (ViolatingPods ev) (st, [], 0) = Some (Inr (st1, vs1, k))"
    and r2: "reprieve_each (sim_addPod H pod) (sim_removePod H pod) (preemptor_fits K H pod req)
      (NonViolatingPods ev) (st1, vs1, 0) = Some (Inr (st2, vs2, k2))"
    and vs: "vs = SortFunc (CompareImportanceDesc K) vs2"
    by (auto simp: reprieve_victims_def Let_def split: bind_splits sum.splits)
  obtain ws1 ws2 where ws: "vs1 = map GetPod ws1" "set ws1 \<subseteq> set (ViolatingPods ev)" "k = length ws1"
      "vs2 = vs1 @ map GetPod ws2" "set ws2 \<subseteq> set (NonViolatingPods ev)"
    using reprieve_each_victims [OF r1] reprieve_each_victims [OF r2] by auto
  have "set ws1 \<union> set ws2 \<subseteq> set pvs"
    using CheckPodRemovalViolations_subset [OF ev] ws(2,5) by auto
  with vs ws show ?thesis by auto
qed

text \<open>Whatever is not a success comes without victims.\<close>

lemma SelectVictims_cases:
  assumes "SelectVictimsOnNode K H c pod ni pdbs = Some (vs, k, st)"
    and "\<And>e. \<not> status_IsSuccess (st_AsStatus H e)"
  shows "(vs = [] \<and> k = 0 \<and> \<not> status_IsSuccess st) \<or>
    (\<exists>s req st1. st = NewStatus Success [] \<and> ReadQueueSnapshot H c = Inr s \<and> FromPodReq K (Ptr pod) = Some req \<and>
      sim_each (sim_removePod H pod) (filter (\<lambda>x. potential_victim K (qss_QueueMgr s) pod (GetPod x)) (ni_GetPods H ni))
        (c, ni) = Inr st1 \<and> preemptor_fits K H pod req st1 = Some True \<and>
      reprieve_victims K H pod req pdbs
        (filter (\<lambda>x. potential_victim K (qss_QueueMgr s) pod (GetPod x)) (ni_GetPods H ni)) st1 = Some (Inr (vs, k)))"
proof (cases "ReadQueueSnapshot H c")
  case (Inl e)
  with assms(1) show ?thesis by (auto simp: SelectVictimsOnNode_def)
next
  case (Inr s)
  let ?pvs = "filter (\<lambda>x. potential_victim K (qss_QueueMgr s) pod (GetPod x)) (ni_GetPods H ni)"
  show ?thesis
  proof (cases "?pvs = [] \<or> (\<exists>e. sim_each (sim_removePod H pod) ?pvs (c, ni) = Inl e)")
    case True
    with assms Inr show ?thesis
      by (auto simp: SelectVictimsOnNode_def findPotentialVictims_eq split: if_splits)
  next
    case False
    then obtain c1 n1 where sim: "?pvs \<noteq> []" "sim_each (sim_removePod H pod) ?pvs (c, ni) = Inr (c1, n1)"
      by (cases "sim_each (sim_removePod H pod) ?pvs (c, ni)") auto
    show ?thesis
    proof (cases "status_IsSuccess (RunFilterPluginsWithNominatedPods H c1 pod n1)")
      case True
      with assms(1) Inr sim obtain req over where
        req: "FromPodReq K (Ptr pod) = Some req" "over_quota K H pod req c1 = Some over"
        by (auto simp: SelectVictimsOnNode_def findPotentialVictims_eq Let_def split: bind_splits)
      with True have fits: "preemptor_fits K H pod req (c1, n1) = Some (\<not> over)" by simp
      show ?thesis
        using assms Inr sim True req fits
        by (cases over) (auto simp: SelectVictimsOnNode_def findPotentialVictims_eq Let_def
            split: bind_splits sum.splits)
    qed (use assms(1) Inr sim in \<open>simp add: SelectVictimsOnNode_def findPotentialVictims_eq Let_def\<close>)
  qed
qed

lemma SelectVictims_potential:
  assumes "SelectVictimsOnNode K H c pod ni pdbs = Some (vs, k, st)" and "ReadQueueSnapshot H c = Inr s"
  shows "k \<le> length vs \<and> (\<forall>v \<in> set vs. v \<in> GetPod ` set (ni_GetPods H ni) \<and> potential_victim K (qss_QueueMgr s) pod v)"
proof -
  have "vs = [] \<and> k = 0 \<or> (\<exists>req st1. reprieve_victims K H pod req pdbs
      (filter (\<lambda>x. potential_victim K (qss_QueueMgr s) pod (GetPod x)) (ni_GetPods H ni)) st1 = Some (Inr (vs, k)))"
    using assms by (auto simp: SelectVictimsOnNode_def findPotentialVictims_eq Let_def
        split: sum.splits bind_splits if_splits prod.splits)
  then show ?thesis
  proof (elim disjE exE)
    fix req st1
    assume "reprieve_victims K H pod req pdbs
      (filter (\<lambda>x. potential_victim K (qss_QueueMgr s) pod (GetPod x)) (ni_GetPods H ni)) st1 = Some (Inr (vs, k))"
    from reprieve_victims_subset [OF this] show ?thesis by auto
  qed simp
qed

lemma SelectVictims_sorted:
  assumes "SelectVictimsOnNode K H c pod ni pdbs = Some (vs, k, st)"
  shows "\<exists>ws. vs = SortFunc (CompareImportanceDesc K) ws"
proof -
  have nil: "\<exists>ws. [] = SortFunc (CompareImportanceDesc K) ws"
    by (rule exI [where x = "[]"]) (simp add: SortFunc_def)
  have rv: "\<exists>ws. vs = SortFunc (CompareImportanceDesc K) ws"
    if "reprieve_victims K H pod req pdbs pvs st1 = Some (Inr (vs, k))" for req pvs st1
    using that by (auto simp: reprieve_victims_def Let_def split: bind_splits sum.splits)
  show ?thesis
    using assms nil
    by (auto simp: SelectVictimsOnNode_def Let_def intro: rv split: sum.splits bind_splits if_splits prod.splits)
qed

text \<open>The order in which potential victims are reprieved has each of them once.\<close>

lemma reprieval_order:
  assumes "CheckPodRemovalViolations K (SortFunc cmp pvs) pdbs = Some ev" and "distinct (map f pvs)"
  shows "set (ViolatingPods ev @ NonViolatingPods ev) = set pvs"
    and "distinct (map f (ViolatingPods ev @ NonViolatingPods ev))"
proof -
  have order: "mset (ViolatingPods ev @ NonViolatingPods ev) = mset pvs"
    using CheckPodRemovalViolations_mset [OF assms(1)] by simp
  then show "set (ViolatingPods ev @ NonViolatingPods ev) = set pvs" by (rule mset_eq_setD)
  from order have "mset (map f (ViolatingPods ev @ NonViolatingPods ev)) = mset (map f pvs)"
    by (simp only: mset_map)
  then show "distinct (map f (ViolatingPods ev @ NonViolatingPods ev))"
    using mset_eq_imp_distinct_iff assms(2) by blast
qed

section \<open>Greedy reprieval\<close>

lemma greedy_subset: "set (fst (greedy ok add xs v)) \<subseteq> set xs"
  by (induction xs arbitrary: v) (auto simp: split_beta)

lemma greedy_fits: "ok v \<Longrightarrow> ok (snd (greedy ok add xs v))"
  by (induction xs arbitrary: v) (auto simp: split_beta)

lemma greedy_append:
  "greedy ok add (xs @ ys) v = (case greedy ok add xs v of (vs, w) \<Rightarrow>
     case greedy ok add ys w of (vs', w') \<Rightarrow> (vs @ vs', w'))"
  by (induction xs arbitrary: v) (auto split: prod.split)

text \<open>No victim is needless: at its turn the preemptor did not fit with it.\<close>

lemma greedy_needed:
  "x \<in> set (fst (greedy ok add xs v)) \<Longrightarrow>
     \<exists>ys zs. xs = ys @ x # zs \<and> \<not> ok (add x (snd (greedy ok add ys v)))"
proof (induction xs arbitrary: v)
  case (Cons y xs)
  show ?case
  proof (cases "ok (add y v)")
    case True
    with Cons obtain ys zs where "xs = ys @ x # zs" "\<not> ok (add x (snd (greedy ok add ys (add y v))))" by fastforce
    with True show ?thesis
      by - (rule exI [where x = "y # ys"], rule exI [where x = zs], simp)
  next
    case False
    show ?thesis
    proof (cases "x = y")
      case True
      with False show ?thesis by - (rule exI [where x = "[]"], rule exI [where x = xs], simp)
    next
      case neq: False
      with Cons.prems False have "x \<in> set (fst (greedy ok add xs v))" by (auto split: prod.splits)
      from Cons.IH [OF this] obtain ys zs where "xs = ys @ x # zs" "\<not> ok (add x (snd (greedy ok add ys v)))" by blast
      with False show ?thesis
        by - (rule exI [where x = "y # ys"], rule exI [where x = zs], simp add: split_beta)
    qed
  qed
qed simp

text \<open>
  If what fits with two pods added also fits with only the second, the victims are minimal: with any
  of them added to what is kept in the end, the preemptor does not fit. \<open>I\<close> is an invariant of the
  states seen.
\<close>

lemma greedy_antitone:
  assumes "\<And>y v. I v \<Longrightarrow> I (add y v)" and "\<And>y v. I v \<Longrightarrow> ok (add x (add y v)) \<Longrightarrow> ok (add x v)"
  shows "I v \<Longrightarrow> \<not> ok (add x v) \<Longrightarrow> \<not> ok (add x (snd (greedy ok add xs v)))"
proof (induction xs arbitrary: v)
  case (Cons y xs)
  have "I (add y v)" "\<not> ok (add x (add y v))" using assms(1) assms(2) [of v y] Cons.prems by blast+
  from Cons.IH [OF this] Cons.IH [OF Cons.prems] show ?case by (simp add: split_beta)
qed simp

lemma greedy_minimal:
  assumes "\<And>y v. I v \<Longrightarrow> I (add y v)" and "\<And>x y v. I v \<Longrightarrow> ok (add x (add y v)) \<Longrightarrow> ok (add x v)"
  shows "I v \<Longrightarrow> x \<in> set (fst (greedy ok add xs v)) \<Longrightarrow> \<not> ok (add x (snd (greedy ok add xs v)))"
proof (induction xs arbitrary: v)
  case (Cons y xs)
  show ?case
  proof (cases "ok (add y v)")
    case True
    with Cons assms(1) show ?thesis by simp
  next
    case False
    have "\<not> ok (add y (snd (greedy ok add xs v)))" by (rule greedy_antitone [of I add ok, OF assms Cons.prems(1) False])
    moreover have "x = y \<or> x \<in> set (fst (greedy ok add xs v))" using Cons.prems(2) False by (auto simp: split_beta)
    ultimately show ?thesis using Cons.IH [OF Cons.prems(1)] False by (auto simp: split_beta)
  qed
qed simp

text \<open>
  What the reprieval loop needs of the operations it is given: adding a pod changes what the test
  sees in a fixed way, and removing a pod just added undoes it. Under this contract the loop is
  the greedy algorithm.
\<close>

locale reprieval =
  fixes addPod removePod :: "'q pod_info \<Rightarrow> 'st \<Rightarrow> string + 'st"
    and fits :: "'st \<Rightarrow> bool option"
    and inv :: "'st \<Rightarrow> bool"
    and view :: "'st \<Rightarrow> 'v"
    and vadd :: "'q pod_info \<Rightarrow> 'v \<Rightarrow> 'v"
    and ok :: "'v \<Rightarrow> bool"
    and good :: "'q pod_info \<Rightarrow> bool"
    and fresh :: "'q pod_info \<Rightarrow> 'v \<Rightarrow> bool"
  assumes add_view: "inv st \<Longrightarrow> good x \<Longrightarrow> addPod x st = Inr st' \<Longrightarrow> inv st' \<and> view st' = vadd x (view st)"
    and remove_undo: "inv st \<Longrightarrow> good x \<Longrightarrow> fresh x (view st) \<Longrightarrow> addPod x st = Inr st1 \<Longrightarrow>
      removePod x st1 = Inr st2 \<Longrightarrow> inv st2 \<and> view st2 = view st"
    and fits_view: "inv st \<Longrightarrow> fits st = Some (ok (view st))"
    and fresh_add: "pod_uid (GetPod x) \<noteq> pod_uid (GetPod y) \<Longrightarrow> fresh x v \<Longrightarrow> fresh x (vadd y v)"
begin

lemma maybeReprieve_view:
  assumes "inv st" and "good x" and "fresh x (view st)"
  shows "\<exists>r. maybeReprievePod addPod removePod fits x (st, vs) = Some r \<and>
    (\<forall>b st' vs'. r = Inr (b, st', vs') \<longrightarrow> inv st' \<and> b = ok (vadd x (view st)) \<and>
      view st' = (if b then vadd x (view st) else view st) \<and> vs' = (if b then vs else vs @ [GetPod x]))"
proof (cases "addPod x st")
  case (Inl e)
  then show ?thesis by (simp add: maybeReprievePod_def)
next
  case (Inr st1)
  from add_view [OF assms(1,2) Inr] have st1: "inv st1" "view st1 = vadd x (view st)" by auto
  then show ?thesis
    using Inr fits_view [OF st1(1)] remove_undo [OF assms Inr]
    by (cases "removePod x st1") (auto simp: maybeReprievePod_def)
qed

lemma greedy_fresh:
  "fresh y v \<Longrightarrow> pod_uid (GetPod y) \<notin> (pod_uid \<circ> GetPod) ` set xs \<Longrightarrow> fresh y (snd (greedy ok vadd xs v))"
  by (induction xs arbitrary: v) (auto simp: split_beta intro: fresh_add)

lemma reprieve_each_greedy:
  assumes "inv st" and "\<forall>x \<in> set xs. good x \<and> fresh x (view st)" and "distinct (map (pod_uid \<circ> GetPod) xs)"
  shows "\<exists>r. reprieve_each addPod removePod fits xs (st, vs, k) = Some r \<and>
    (\<forall>st' vs' k'. r = Inr (st', vs', k') \<longrightarrow> inv st' \<and>
      (\<exists>ws. greedy ok vadd xs (view st) = (ws, view st') \<and> vs' = vs @ map GetPod ws \<and> k' = k + length ws))"
  using assms
proof (induction xs arbitrary: st vs k)
  case (Cons x xs)
  obtain r where r: "maybeReprievePod addPod removePod fits x (st, vs) = Some r"
      "\<forall>b st' vs'. r = Inr (b, st', vs') \<longrightarrow> inv st' \<and> b = ok (vadd x (view st)) \<and>
        view st' = (if b then vadd x (view st) else view st) \<and> vs' = (if b then vs else vs @ [GetPod x])"
    using maybeReprieve_view [OF Cons.prems(1), of x vs] Cons.prems(2) by auto
  show ?case
  proof (cases r)
    case (Inl e)
    then show ?thesis using r(1) by simp
  next
    case (Inr t)
    obtain b st1 vs1 where t: "t = (b, st1, vs1)" by (cases t)
    have st1: "inv st1" "b = ok (vadd x (view st))" "view st1 = (if b then vadd x (view st) else view st)"
        "vs1 = (if b then vs else vs @ [GetPod x])"
      using r(2) Inr t by blast+
    have "fresh y (view st1)" if "y \<in> set xs" for y
    proof -
      from that Cons.prems(3) have "pod_uid (GetPod y) \<noteq> pod_uid (GetPod x)" by (auto simp: image_iff)
      with fresh_add [OF this] that Cons.prems(2) st1(3) show ?thesis by simp
    qed
    with Cons.IH [OF st1(1), of vs1 "if b then k else k + 1"] Cons.prems obtain r' where
      r': "reprieve_each addPod removePod fits xs (st1, vs1, if b then k else k + 1) = Some r'"
        "\<forall>st' vs' k'. r' = Inr (st', vs', k') \<longrightarrow> inv st' \<and>
          (\<exists>ws. greedy ok vadd xs (view st1) = (ws, view st') \<and> vs' = vs1 @ map GetPod ws \<and>
            k' = (if b then k else k + 1) + length ws)" by auto
    have "reprieve_each addPod removePod fits (x # xs) (st, vs, k) = Some r'"
      using r(1) r'(1) Inr t by simp
    moreover have "inv st' \<and> (\<exists>ws. greedy ok vadd (x # xs) (view st) = (ws, view st') \<and>
        vs' = vs @ map GetPod ws \<and> k' = k + length ws)" if "r' = Inr (st', vs', k')" for st' vs' k'
      using r'(2) that st1 by (cases b) fastforce+
    ultimately show ?thesis by blast
  qed
qed simp

text \<open>The two loops, one after the other, return, and they are one greedy pass over both groups.\<close>

lemma reprieve_both_defined:
  assumes "inv st" and "\<forall>x \<in> set (xs @ ys). good x \<and> fresh x (view st)" and "distinct (map (pod_uid \<circ> GetPod) (xs @ ys))"
  shows "\<exists>r. reprieve_each addPod removePod fits xs (st, [], 0) = Some r \<and>
    (\<forall>st1 vs1 k1. r = Inr (st1, vs1, k1) \<longrightarrow> (\<exists>r'. reprieve_each addPod removePod fits ys (st1, vs1, 0) = Some r'))"
proof -
  obtain r where r: "reprieve_each addPod removePod fits xs (st, [], 0) = Some r"
      "\<forall>st1 vs1 k1. r = Inr (st1, vs1, k1) \<longrightarrow> inv st1 \<and> (\<exists>ws. greedy ok vadd xs (view st) = (ws, view st1))"
    using reprieve_each_greedy [OF assms(1), of xs "[]" 0] assms(2,3) by force
  have "\<exists>r'. reprieve_each addPod removePod fits ys (st1, vs1, 0) = Some r'" if "r = Inr (st1, vs1, k1)" for st1 vs1 k1
  proof -
    have st1: "inv st1" "view st1 = snd (greedy ok vadd xs (view st))" using r(2) that by force+
    have "fresh y (view st1)" if "y \<in> set ys" for y
      using greedy_fresh [of y "view st" xs] that assms(2,3) st1(2) by force
    then show ?thesis using reprieve_each_greedy [OF st1(1), of ys vs1 0] assms(2,3) by force
  qed
  with r(1) show ?thesis by blast
qed

lemma reprieve_both_greedy:
  assumes "inv st" and "\<forall>x \<in> set (xs @ ys). good x \<and> fresh x (view st)" and "distinct (map (pod_uid \<circ> GetPod) (xs @ ys))"
    and "reprieve_each addPod removePod fits xs (st, [], 0) = Some (Inr (st1, vs1, k1))"
    and "reprieve_each addPod removePod fits ys (st1, vs1, 0) = Some (Inr (st2, vs2, k2))"
  shows "inv st2 \<and> (\<exists>ws. greedy ok vadd (xs @ ys) (view st) = (ws, view st2) \<and> vs2 = map GetPod ws) \<and>
    k1 = length (fst (greedy ok vadd xs (view st)))"
proof -
  obtain ws1 where ws1: "inv st1" "greedy ok vadd xs (view st) = (ws1, view st1)" "vs1 = map GetPod ws1" "k1 = length ws1"
    using reprieve_each_greedy [OF assms(1), of xs "[]" 0] assms(2-4) by auto
  have "fresh y (view st1)" if "y \<in> set ys" for y
  proof -
    have "pod_uid (GetPod y) \<notin> (pod_uid \<circ> GetPod) ` set xs" using that assms(3) by force
    then show ?thesis using greedy_fresh [of y "view st" xs] that assms(2) ws1(2) by simp
  qed
  then obtain ws2 where "inv st2" "greedy ok vadd ys (view st1) = (ws2, view st2)" "vs2 = vs1 @ map GetPod ws2"
    using reprieve_each_greedy [OF ws1(1), of ys vs1 0] assms(2,3,5) by auto
  with ws1 show ?thesis by (simp add: greedy_append)
qed

end

end
