(* ===== verification/VictimSpec.thy ===== *)
theory VictimSpec
  imports VictimSelection
begin

text \<open>
  What the victims chosen by \<^verbatim>\<open>SelectVictimsOnNode\<close> achieve, under the contract of the scheduling
  framework: the quota of the preemptor's queue and the filters hold once the victims are gone,
  and the choice is the greedy one.
\<close>

section \<open>The view of the simulation\<close>

text \<open>The pods the snapshot counts in the preemptor's queue.\<close>

definition snap_tracked :: "('q, 's, 'm) kube \<Rightarrow> ('q, 's, 'm, 'o, 'c, 'n) handle \<Rightarrow> 'q pod \<Rightarrow> 'c \<Rightarrow> string set" where
  "snap_tracked K H pod c = (case (ReadQueueSnapshot H c, pod_queue pod) of
     (Inr s, Some n) \<Rightarrow> mgr_tracked K (qss_QueueMgr s) n
   | _ \<Rightarrow> {})"

text \<open>Whether the pods of a set fit the preemptor's quota together with the preemptor.\<close>

definition quota_fits :: "('q, 's, 'm) kube \<Rightarrow> ('q \<Rightarrow> rat) \<Rightarrow> (string \<Rightarrow> 'q resource_list) \<Rightarrow> ('q, 's, 'm) manager \<Rightarrow> 'q pod \<Rightarrow> string set \<Rightarrow> bool" where
  "quota_fits K amount reqs qm pod S = (case Manager_Get qm (Ptr pod) of
     NilP \<Rightarrow> True
   | Ptr q \<Rightarrow> fits_max amount reqs (Quota_Max (queue_quota q)) S (pod_req K amount pod))"

definition in_queue :: "('q, 's, 'm) manager \<Rightarrow> 'q pod \<Rightarrow> 'q pod_info \<Rightarrow> bool" where
  "in_queue qm pod x \<longleftrightarrow> \<not> is_nil (Manager_Get qm (Ptr pod)) \<and> pod_queue (GetPod x) = pod_queue pod"

fun view_add :: "('q pod_info \<Rightarrow> 'v \<Rightarrow> 'v) \<Rightarrow> ('q, 's, 'm) manager \<Rightarrow> 'q pod \<Rightarrow> 'q pod_info \<Rightarrow> 'v \<times> string set \<Rightarrow> 'v \<times> string set" where
  "view_add nadd qm pod x (v, S) = (nadd x v, if in_queue qm pod x then insert (pod_uid (GetPod x)) S else S)"

fun view_ok :: "('q, 's, 'm) kube \<Rightarrow> ('q \<Rightarrow> rat) \<Rightarrow> (string \<Rightarrow> 'q resource_list) \<Rightarrow> ('q pod \<Rightarrow> 'v \<Rightarrow> bool) \<Rightarrow> ('q, 's, 'm) manager \<Rightarrow> 'q pod \<Rightarrow> 'v \<times> string set \<Rightarrow> bool" where
  "view_ok K amount reqs nok qm pod (v, S) \<longleftrightarrow> nok pod v \<and> quota_fits K amount reqs qm pod S"

fun view_fresh :: "('q, 's, 'm) manager \<Rightarrow> 'q pod \<Rightarrow> 'q pod_info \<Rightarrow> 'v \<times> string set \<Rightarrow> bool" where
  "view_fresh qm pod x (v, S) \<longleftrightarrow> (in_queue qm pod x \<longrightarrow> pod_uid (GetPod x) \<notin> S)"

text \<open>The snapshot in the simulated state, as it evolves from the snapshot \<open>qm0\<close>.\<close>

definition sim_inv :: "('q, 's, 'm) kube \<Rightarrow> ('q \<Rightarrow> rat) \<Rightarrow> (string \<Rightarrow> 'q resource_list) \<Rightarrow> ('q, 's, 'm, 'o, 'c, 'n) handle \<Rightarrow> ('q, 's, 'm) manager \<Rightarrow> 'q pod \<Rightarrow> 'c \<times> 'n \<Rightarrow> bool" where
  "sim_inv K amount reqs H qm0 pod st \<longleftrightarrow>
     (\<exists>qm. ReadQueueSnapshot H (fst st) = Inr \<lparr>qss_QueueMgr = qm\<rparr> \<and> mgr_balanced K amount reqs qm \<and> queue_frame qm0 qm) \<and>
     (\<forall>q. Manager_Get qm0 (Ptr pod) = Ptr q \<longrightarrow> max_nonneg amount (Quota_Max (queue_quota q)))"

section \<open>The contract of the framework\<close>

text \<open>
  \<open>nview\<close> is what the filter plugins see of a simulated state and \<open>nok\<close> their verdict. Running the
  extensions for an added or removed pod runs those of this plugin, and nothing else touches its
  snapshot. Removing a pod that was just added restores what the filters see.
\<close>

locale framework = kube_laws K amount + cycle_state H
  for K :: "('q, 's, 'm) kube" and amount :: "'q \<Rightarrow> rat" and H :: "('q, 's, 'm, 'o, 'c, 'n) handle" +
  fixes nview :: "'c \<times> 'n \<Rightarrow> 'v"
    and nadd :: "'q pod_info \<Rightarrow> 'v \<Rightarrow> 'v"
    and nok :: "'q pod \<Rightarrow> 'v \<Rightarrow> bool"
  assumes RunFilter_view: "status_IsSuccess (RunFilterPluginsWithNominatedPods H c pod ni) \<longleftrightarrow> nok pod (nview (c, ni))"
    and Run_AddPod: "RunPreFilterExtensionAddPod H c pod x ni = (c', st) \<Longrightarrow> status_IsSuccess st \<Longrightarrow>
      AddPod K H c pod x ni = Some (c1, st1) \<Longrightarrow> ReadQueueSnapshot H c' = ReadQueueSnapshot H c1"
    and Run_RemovePod: "RunPreFilterExtensionRemovePod H c pod x ni = (c', st) \<Longrightarrow> status_IsSuccess st \<Longrightarrow>
      RemovePod K H c pod x ni = Some (c1, st1) \<Longrightarrow> ReadQueueSnapshot H c' = ReadQueueSnapshot H c1"
    and add_nview: "sim_addPod H pod x s = Inr s' \<Longrightarrow> nview s' = nadd x (nview s)"
    and undo_nview: "sim_addPod H pod x s = Inr s1 \<Longrightarrow> sim_removePod H pod x s1 = Inr s2 \<Longrightarrow> nview s2 = nview s"

lemma queue_frame_Get:
  assumes "queue_frame qm0 qm"
  shows "is_nil (Manager_Get qm (Ptr p)) = is_nil (Manager_Get qm0 (Ptr p))"
    and "Quota_Max (Queue_Quota (Manager_Get qm (Ptr p))) = Quota_Max (Queue_Quota (Manager_Get qm0 (Ptr p)))"
  using assms by (auto simp: queue_frame_def Manager_Get_queue split: option.split)

context framework
begin

lemma sim_addPod_inv:
  assumes inv: "sim_inv K amount reqs H qm0 pod (c, ni)" and ok: "pod_ok K reqs (GetPod x)"
    and add: "sim_addPod H pod x (c, ni) = Inr (c', ni')"
  shows "sim_inv K amount reqs H qm0 pod (c', ni') \<and> snap_tracked K H pod c' =
    (if in_queue qm0 pod x then insert (pod_uid (GetPod x)) (snap_tracked K H pod c) else snap_tracked K H pod c)"
proof -
  obtain qm where qm: "ReadQueueSnapshot H c = Inr \<lparr>qss_QueueMgr = qm\<rparr>" "mgr_balanced K amount reqs qm" "queue_frame qm0 qm"
    using inv by (auto simp: sim_inv_def)
  obtain st where run: "RunPreFilterExtensionAddPod H c pod x ni' = (c', st)" "status_IsSuccess st"
    using add by (auto simp: Let_def split: prod.splits if_splits)
  obtain c1 qm' err where c1: "AddPod K H c pod x ni' = Some (c1, NewStatus Success [''''])"
      "ReadQueueSnapshot H c1 = Inr \<lparr>qss_QueueMgr = qm'\<rparr>"
      "Manager_AddPodIfNotPresent K (Ptr (GetPod x)) qm = Some (qm', err)"
    using AddPod_result [OF cycle_state_axioms qm(1,2) ok] by blast
  have read: "ReadQueueSnapshot H c' = Inr \<lparr>qss_QueueMgr = qm'\<rparr>"
    using Run_AddPod [OF run c1(1)] c1(2) by simp
  have qm': "mgr_balanced K amount reqs qm'" "queue_frame qm qm'"
      "\<forall>n. mgr_tracked K qm' n = (if pod_queue (GetPod x) = Some n \<and> Manager_GetByName qm n \<noteq> NilP
        then insert (pod_uid (GetPod x)) (mgr_tracked K qm n) else mgr_tracked K qm n)"
    using Manager_AddPod_result [OF qm(2) ok] c1(3) by auto
  have "sim_inv K amount reqs H qm0 pod (c', ni')"
    using inv read qm'(1) queue_frame_trans [OF qm(3) qm'(2)] by (auto simp: sim_inv_def)
  moreover have "snap_tracked K H pod c' = (if in_queue qm0 pod x then insert (pod_uid (GetPod x)) (snap_tracked K H pod c)
      else snap_tracked K H pod c)"
    using qm'(3) queue_frame_nil [OF qm(3)]
    by (auto simp: snap_tracked_def read qm(1) in_queue_def Manager_Get_queue is_nil_iff split: option.split)
  ultimately show ?thesis ..
qed

lemma sim_removePod_inv:
  assumes inv: "sim_inv K amount reqs H qm0 pod (c, ni)" and ok: "pod_ok K reqs (GetPod x)"
    and rem: "sim_removePod H pod x (c, ni) = Inr (c', ni')"
  shows "sim_inv K amount reqs H qm0 pod (c', ni') \<and> snap_tracked K H pod c' =
    (if in_queue qm0 pod x then snap_tracked K H pod c - {pod_uid (GetPod x)} else snap_tracked K H pod c)"
proof -
  obtain qm where qm: "ReadQueueSnapshot H c = Inr \<lparr>qss_QueueMgr = qm\<rparr>" "mgr_balanced K amount reqs qm" "queue_frame qm0 qm"
    using inv by (auto simp: sim_inv_def)
  obtain st where run: "RunPreFilterExtensionRemovePod H c pod x ni' = (c', st)" "status_IsSuccess st"
    using rem by (auto split: prod.splits if_splits sum.splits)
  obtain c1 qm' err where c1: "RemovePod K H c pod x ni' = Some (c1, NewStatus Success [''''])"
      "ReadQueueSnapshot H c1 = Inr \<lparr>qss_QueueMgr = qm'\<rparr>"
      "Manager_DeletePodIfPresent K (Ptr (GetPod x)) qm = Some (qm', err)"
    using RemovePod_result [OF cycle_state_axioms qm(1,2) ok] by blast
  have read: "ReadQueueSnapshot H c' = Inr \<lparr>qss_QueueMgr = qm'\<rparr>"
    using Run_RemovePod [OF run c1(1)] c1(2) by simp
  have qm': "mgr_balanced K amount reqs qm'" "queue_frame qm qm'"
      "\<forall>n. mgr_tracked K qm' n = (if pod_queue (GetPod x) = Some n
        then mgr_tracked K qm n - {pod_uid (GetPod x)} else mgr_tracked K qm n)"
    using Manager_DeletePod_result [OF qm(2) ok] c1(3) by auto
  have "sim_inv K amount reqs H qm0 pod (c', ni')"
    using inv read qm'(1) queue_frame_trans [OF qm(3) qm'(2)] by (auto simp: sim_inv_def)
  moreover have "mgr_tracked K qm n = {}" if "Manager_GetByName qm0 n = NilP" for n
    using that queue_frame_nil [OF qm(3), of n] by (simp add: mgr_tracked_def)
  then have "snap_tracked K H pod c' = (if in_queue qm0 pod x then snap_tracked K H pod c - {pod_uid (GetPod x)}
      else snap_tracked K H pod c)"
    using qm'(3)
    by (auto simp: snap_tracked_def read qm(1) in_queue_def Manager_Get_queue is_nil_iff split: option.split)
  ultimately show ?thesis ..
qed

lemma over_quota_view:
  assumes inv: "sim_inv K amount reqs H qm0 pod (c, ni)" and req: "FromPodReq K (Ptr pod) = Some req"
  shows "over_quota K H pod req c = Some (\<not> quota_fits K amount reqs qm0 pod (snap_tracked K H pod c))"
proof -
  obtain qm where qm: "ReadQueueSnapshot H c = Inr \<lparr>qss_QueueMgr = qm\<rparr>" "mgr_balanced K amount reqs qm" "queue_frame qm0 qm"
    using inv by (auto simp: sim_inv_def)
  show ?thesis
  proof (cases "Manager_Get qm0 (Ptr pod)")
    case NilP
    then show ?thesis
      using queue_frame_Get(1) [OF qm(3), of pod] by (simp add: over_quota_def qm(1) quota_fits_def Let_def)
  next
    case (Ptr q0)
    then obtain q where q: "Manager_Get qm (Ptr pod) = Ptr q"
      using queue_frame_Get(1) [OF qm(3), of pod] by (cases "Manager_Get qm (Ptr pod)") auto
    have mx: "Quota_Max (queue_quota q) = Quota_Max (queue_quota q0)"
      using queue_frame_Get(2) [OF qm(3), of pod] q Ptr by simp
    obtain n where n: "pod_queue pod = Some n" "Manager_GetByName qm n = Ptr q"
      using q by (auto simp: Manager_Get_queue split: option.splits)
    have "max_nonneg amount (Quota_Max (queue_quota q))" using inv Ptr mx by (auto simp: sim_inv_def)
    from over_max_result [OF qm(2) n(2) this req] q Ptr mx n(1) show ?thesis
      by (simp add: over_quota_def qm(1) quota_fits_def snap_tracked_def Let_def is_nil_def)
  qed
qed

lemma preemptor_fits_view:
  assumes "sim_inv K amount reqs H qm0 pod (c, ni)" and "FromPodReq K (Ptr pod) = Some req"
  shows "preemptor_fits K H pod req (c, ni) =
    Some (nok pod (nview (c, ni)) \<and> quota_fits K amount reqs qm0 pod (snap_tracked K H pod c))"
  using over_quota_view [OF assms] by (simp add: RunFilter_view)

end

text \<open>The operations of the simulation meet the contract of the reprieval loop.\<close>

sublocale framework \<subseteq> sim: reprieval "sim_addPod H pod" "sim_removePod H pod" "preemptor_fits K H pod req"
  "\<lambda>st. sim_inv K amount reqs H qm0 pod st \<and> FromPodReq K (Ptr pod) = Some req"
  "\<lambda>st. (nview st, snap_tracked K H pod (fst st))" "view_add nadd qm0 pod"
  "view_ok K amount reqs nok qm0 pod" "\<lambda>x. pod_ok K reqs (GetPod x)" "view_fresh qm0 pod"
  for reqs :: "string \<Rightarrow> 'q resource_list" and qm0 :: "('q, 's, 'm) manager" and pod :: "'q pod" and req :: "'q resources"
proof unfold_locales
  fix st st' :: "'c \<times> 'n" and x
  assume "sim_inv K amount reqs H qm0 pod st \<and> FromPodReq K (Ptr pod) = Some req" "pod_ok K reqs (GetPod x)"
    and add: "sim_addPod H pod x st = Inr st'"
  then show "(sim_inv K amount reqs H qm0 pod st' \<and> FromPodReq K (Ptr pod) = Some req) \<and>
      (nview st', snap_tracked K H pod (fst st')) = view_add nadd qm0 pod x (nview st, snap_tracked K H pod (fst st))"
    using sim_addPod_inv [of reqs qm0 pod "fst st" "snd st" x "fst st'" "snd st'"] add_nview [OF add] by simp
next
  fix st st1 st2 :: "'c \<times> 'n" and x
  assume inv: "sim_inv K amount reqs H qm0 pod st \<and> FromPodReq K (Ptr pod) = Some req" "pod_ok K reqs (GetPod x)"
    and fresh: "view_fresh qm0 pod x (nview st, snap_tracked K H pod (fst st))"
    and add: "sim_addPod H pod x st = Inr st1" and rem: "sim_removePod H pod x st1 = Inr st2"
  have "sim_inv K amount reqs H qm0 pod st1" "snap_tracked K H pod (fst st1) = (if in_queue qm0 pod x
      then insert (pod_uid (GetPod x)) (snap_tracked K H pod (fst st)) else snap_tracked K H pod (fst st))"
    using sim_addPod_inv [of reqs qm0 pod "fst st" "snd st" x "fst st1" "snd st1"] inv add by simp_all
  then show "(sim_inv K amount reqs H qm0 pod st2 \<and> FromPodReq K (Ptr pod) = Some req) \<and>
      (nview st2, snap_tracked K H pod (fst st2)) = (nview st, snap_tracked K H pod (fst st))"
    using sim_removePod_inv [of reqs qm0 pod "fst st1" "snd st1" x "fst st2" "snd st2"] inv rem fresh
      undo_nview [OF add rem] by auto
next
  fix st :: "'c \<times> 'n"
  assume "sim_inv K amount reqs H qm0 pod st \<and> FromPodReq K (Ptr pod) = Some req"
  then show "preemptor_fits K H pod req st =
      Some (view_ok K amount reqs nok qm0 pod (nview st, snap_tracked K H pod (fst st)))"
    using preemptor_fits_view [of reqs qm0 pod "fst st" "snd st" req] by simp
next
  fix x y :: "'q pod_info" and v :: "'v \<times> string set"
  assume "pod_uid (GetPod x) \<noteq> pod_uid (GetPod y)" "view_fresh qm0 pod x v"
  then show "view_fresh qm0 pod x (view_add nadd qm0 pod y v)" by (cases v) auto
qed

section \<open>What is achieved\<close>

lemma greedy_keeps:
  "(\<And>x v. P v \<Longrightarrow> P (add x v)) \<Longrightarrow> P v \<Longrightarrow> P (snd (greedy ok add xs v))"
  by (induction xs arbitrary: v) (auto simp: split_beta)

lemma greedy_reprieved:
  assumes "\<And>y v. P v \<Longrightarrow> P (add y v)" and "\<And>v. P (add x v)"
  shows "x \<in> set xs \<Longrightarrow> x \<notin> set (fst (greedy ok add xs v)) \<Longrightarrow> P (snd (greedy ok add xs v))"
proof (induction xs arbitrary: v)
  case (Cons y xs)
  then show ?case
    using greedy_keeps [of P add "add x v" ok xs] assms
    by (cases "ok (add y v)") (auto simp: split_beta)
qed simp

context framework
begin

lemma sim_remove_each:
  assumes "sim_inv K amount reqs H qm0 pod st" and "\<forall>x \<in> set xs. pod_ok K reqs (GetPod x)"
    and "sim_each (sim_removePod H pod) xs st = Inr st'"
  shows "sim_inv K amount reqs H qm0 pod st' \<and>
    snap_tracked K H pod (fst st') = snap_tracked K H pod (fst st) - (pod_uid \<circ> GetPod) ` {x \<in> set xs. in_queue qm0 pod x}"
  using assms
proof (induction xs arbitrary: st)
  case (Cons x xs)
  then obtain st1 where st1: "sim_removePod H pod x st = Inr st1" "sim_each (sim_removePod H pod) xs st1 = Inr st'"
    by (auto split: sum.splits)
  have "sim_inv K amount reqs H qm0 pod st1" "snap_tracked K H pod (fst st1) = (if in_queue qm0 pod x
      then snap_tracked K H pod (fst st) - {pod_uid (GetPod x)} else snap_tracked K H pod (fst st))"
    using sim_removePod_inv [of reqs qm0 pod "fst st" "snd st" x "fst st1" "snd st1"] Cons.prems st1(1) by simp_all
  with Cons.IH [OF _ _ st1(2)] Cons.prems(2) show ?case by auto
qed simp

text \<open>
  On success: the potential victims could be removed, and the victims are those of the greedy
  pass over the potential victims, those that violate a budget first, each group from the most
  important pod down.
\<close>

lemma SelectVictims_greedy:
  assumes sel: "SelectVictimsOnNode K H c pod ni pdbs = Some (vs, k, st)" and succ: "status_IsSuccess st"
    and snap: "ReadQueueSnapshot H c = Inr \<lparr>qss_QueueMgr = qm\<rparr>" and bal: "mgr_balanced K amount reqs qm"
    and nonneg: "\<And>q. Manager_Get qm (Ptr pod) = Ptr q \<Longrightarrow> max_nonneg amount (Quota_Max (queue_quota q))"
    and pods: "\<forall>x \<in> set (ni_GetPods H ni). pod_ok K reqs (GetPod x)"
    and dist: "distinct (map (pod_uid \<circ> GetPod) (ni_GetPods H ni))"
  defines "pvs \<equiv> filter (\<lambda>x. potential_victim K qm pod (GetPod x)) (ni_GetPods H ni)"
  shows "\<exists>st1 ev ws w.
    CheckPodRemovalViolations K (SortFunc (\<lambda>a b. CompareImportanceDesc K (GetPod a) (GetPod b)) pvs) pdbs = Some ev \<and>
    sim_each (sim_removePod H pod) pvs (c, ni) = Inr st1 \<and>
    snap_tracked K H pod (fst st1) = snap_tracked K H pod c - (pod_uid \<circ> GetPod) ` {x \<in> set pvs. in_queue qm pod x} \<and>
    view_ok K amount reqs nok qm pod (nview st1, snap_tracked K H pod (fst st1)) \<and>
    greedy (view_ok K amount reqs nok qm pod) (view_add nadd qm pod)
      (ViolatingPods ev @ NonViolatingPods ev) (nview st1, snap_tracked K H pod (fst st1)) = (ws, w) \<and>
    vs = SortFunc (CompareImportanceDesc K) (map GetPod ws) \<and>
    k = length (fst (greedy (view_ok K amount reqs nok qm pod) (view_add nadd qm pod) (ViolatingPods ev)
      (nview st1, snap_tracked K H pod (fst st1))))"
proof -
  let ?sorted = "SortFunc (\<lambda>a b. CompareImportanceDesc K (GetPod a) (GetPod b)) pvs"
  let ?re = "reprieve_each (sim_addPod H pod) (sim_removePod H pod)"
  have "\<not> status_IsSuccess (st_AsStatus H e)" for e using AsStatus_Error by (simp add: status_IsSuccess_def)
  from SelectVictims_cases [OF sel this] succ snap obtain req st1 where
    req: "FromPodReq K (Ptr pod) = Some req" and sim: "sim_each (sim_removePod H pod) pvs (c, ni) = Inr st1"
    and fits: "preemptor_fits K H pod req st1 = Some True"
    and rv: "reprieve_victims K H pod req pdbs pvs st1 = Some (Inr (vs, k))"
    unfolding pvs_def by auto
  from rv obtain ev sta vsa st2 vs2 k2 where
    ev: "CheckPodRemovalViolations K ?sorted pdbs = Some ev"
    and r1: "?re (preemptor_fits K H pod req) (ViolatingPods ev) (st1, [], 0) = Some (Inr (sta, vsa, k))"
    and r2: "?re (preemptor_fits K H pod req) (NonViolatingPods ev) (sta, vsa, 0) = Some (Inr (st2, vs2, k2))"
    and vs: "vs = SortFunc (CompareImportanceDesc K) vs2"
    by (auto simp: reprieve_victims_def Let_def split: bind_splits sum.splits)
  have "sim_inv K amount reqs H qm pod (c, ni)"
    using snap bal nonneg by (auto simp: sim_inv_def queue_frame_refl)
  moreover have ok: "\<forall>x \<in> set pvs. pod_ok K reqs (GetPod x)" using pods by (simp add: pvs_def)
  ultimately have inv: "sim_inv K amount reqs H qm pod st1" "snap_tracked K H pod (fst st1) =
      snap_tracked K H pod c - (pod_uid \<circ> GetPod) ` {x \<in> set pvs. in_queue qm pod x}"
    using sim_remove_each [OF _ _ sim] by auto
  have "distinct (map (pod_uid \<circ> GetPod) pvs)" unfolding pvs_def by (rule distinct_map_filter [OF dist])
  note order = reprieval_order [OF ev this]
  have "\<forall>x \<in> set (ViolatingPods ev @ NonViolatingPods ev). pod_ok K reqs (GetPod x) \<and>
      view_fresh qm pod x (nview st1, snap_tracked K H pod (fst st1))"
    unfolding order(1) using ok inv(2) by auto
  from sim.reprieve_both_greedy [OF conjI [OF inv(1) req] this order(2) r1 r2] obtain ws where
    "greedy (view_ok K amount reqs nok qm pod) (view_add nadd qm pod) (ViolatingPods ev @ NonViolatingPods ev)
      (nview st1, snap_tracked K H pod (fst st1)) = (ws, (nview st2, snap_tracked K H pod (fst st2)))"
    "vs2 = map GetPod ws"
    "k = length (fst (greedy (view_ok K amount reqs nok qm pod) (view_add nadd qm pod) (ViolatingPods ev)
      (nview st1, snap_tracked K H pod (fst st1))))" by blast
  moreover have "view_ok K amount reqs nok qm pod (nview st1, snap_tracked K H pod (fst st1))"
    using fits sim.fits_view [OF conjI [OF inv(1) req]] by simp
  ultimately show ?thesis using ev sim inv(2) vs by blast
qed

text \<open>The selection returns: neither the simulation nor the loops panic.\<close>

lemma SelectVictims_defined:
  assumes "label_selectors K"
    and snap: "ReadQueueSnapshot H c = Inr \<lparr>qss_QueueMgr = qm\<rparr>" and bal: "mgr_balanced K amount reqs qm"
    and nonneg: "\<And>q. Manager_Get qm (Ptr pod) = Ptr q \<Longrightarrow> max_nonneg amount (Quota_Max (queue_quota q))"
    and pods: "\<forall>x \<in> set (ni_GetPods H ni). pod_ok K reqs (GetPod x)"
    and dist: "distinct (map (pod_uid \<circ> GetPod) (ni_GetPods H ni))"
  shows "\<exists>r. SelectVictimsOnNode K H c pod ni pdbs = Some r"
proof -
  let ?pvs = "filter (\<lambda>x. potential_victim K qm pod (GetPod x)) (ni_GetPods H ni)"
  let ?sorted = "SortFunc (\<lambda>a b. CompareImportanceDesc K (GetPod a) (GetPod b)) ?pvs"
  let ?re = "reprieve_each (sim_addPod H pod) (sim_removePod H pod)"
  obtain req where req: "FromPodReq K (Ptr pod) = Some req" using FromPodReq_result [of pod] by blast
  obtain ev where ev: "CheckPodRemovalViolations K ?sorted pdbs = Some ev"
    using label_selectors.CheckPodRemovalViolations_defined [OF assms(1)] by blast
  note order = reprieval_order [OF ev distinct_map_filter [OF dist]]
  have inv0: "sim_inv K amount reqs H qm pod (c, ni)" using snap bal nonneg by (auto simp: sim_inv_def queue_frame_refl)
  have run: "\<exists>over. over_quota K H pod req (fst st1) = Some over" "\<exists>r. reprieve_victims K H pod req pdbs ?pvs st1 = Some r"
    if sim: "sim_each (sim_removePod H pod) ?pvs (c, ni) = Inr st1" for st1
  proof -
    have inv: "sim_inv K amount reqs H qm pod st1" "snap_tracked K H pod (fst st1) =
        snap_tracked K H pod c - (pod_uid \<circ> GetPod) ` {x \<in> set ?pvs. in_queue qm pod x}"
      using sim_remove_each [OF inv0 _ sim] pods by auto
    then show "\<exists>over. over_quota K H pod req (fst st1) = Some over"
      using over_quota_view [of reqs qm pod "fst st1" "snd st1" req] req by simp
    have good: "\<forall>x \<in> set (ViolatingPods ev @ NonViolatingPods ev). pod_ok K reqs (GetPod x) \<and>
        view_fresh qm pod x (nview st1, snap_tracked K H pod (fst st1))"
      unfolding order(1) using pods inv(2) by auto
    obtain r1 where "?re (preemptor_fits K H pod req) (ViolatingPods ev) (st1, [], 0) = Some r1"
      "\<forall>st' vs' k'. r1 = Inr (st', vs', k') \<longrightarrow>
        (\<exists>r'. ?re (preemptor_fits K H pod req) (NonViolatingPods ev) (st', vs', 0) = Some r')"
      using sim.reprieve_both_defined [OF conjI [OF inv(1) req] good order(2)] by blast
    then show "\<exists>r. reprieve_victims K H pod req pdbs ?pvs st1 = Some r"
      using ev by (cases r1) (auto simp: reprieve_victims_def Let_def split: sum.split)
  qed
  show ?thesis
    using snap req run
    by (auto simp: SelectVictimsOnNode_def findPotentialVictims_eq Let_def split: sum.split)
qed

text \<open>
  What fits with two pods fits with one of them, for the quota always, for the filters by hypothesis.
\<close>

lemma view_ok_antitone:
  assumes "\<And>x y v. nok pod (nadd x (nadd y v)) \<Longrightarrow> nok pod (nadd x v)" and "reqs_nonneg amount reqs" and "finite (snd w)"
    and "view_ok K amount reqs nok qm pod (view_add nadd qm pod x (view_add nadd qm pod y w))"
  shows "view_ok K amount reqs nok qm pod (view_add nadd qm pod x w)"
proof (cases w)
  case (Pair v S)
  let ?add = "view_add nadd qm pod"
  have sub: "snd (?add x w) \<subseteq> snd (?add x (?add y w))" "finite (snd (?add x (?add y w)))"
    using assms(3) by (auto simp: Pair)
  have "quota_fits K amount reqs qm pod (snd (?add x (?add y w)))" using assms(4) by (simp add: Pair)
  then have "quota_fits K amount reqs qm pod (snd (?add x w))"
    using fits_max_mono [OF _ sub assms(2)] by (auto simp: quota_fits_def split: ptr.splits)
  with assms(1,4) show ?thesis by (auto simp: Pair)
qed

text \<open>Once the victims are gone, the preemptor fits its quota.\<close>

lemma SelectVictims_quota:
  assumes "SelectVictimsOnNode K H c pod ni pdbs = Some (vs, k, st)" and "status_IsSuccess st"
    and snap: "ReadQueueSnapshot H c = Inr \<lparr>qss_QueueMgr = qm\<rparr>" and bal: "mgr_balanced K amount reqs qm"
    and "\<forall>x \<in> set (ni_GetPods H ni). pod_ok K reqs (GetPod x)"
    and "distinct (map (pod_uid \<circ> GetPod) (ni_GetPods H ni))" and "reqs_nonneg amount reqs"
    and n: "pod_queue pod = Some n" "Manager_GetByName qm n = Ptr q"
    and nonneg: "max_nonneg amount (Quota_Max (queue_quota q))"
  shows "fits_max amount reqs (Quota_Max (queue_quota q))
    (mgr_tracked K qm n - pod_uid ` {v \<in> set vs. pod_queue v = Some n}) (pod_req K amount pod)"
proof -
  let ?pvs = "filter (\<lambda>x. potential_victim K qm pod (GetPod x)) (ni_GetPods H ni)"
  have q: "Manager_Get qm (Ptr pod) = Ptr q" using n by (simp add: Manager_Get_queue)
  obtain st1 ev ws v S where
    ev: "CheckPodRemovalViolations K (SortFunc (\<lambda>a b. CompareImportanceDesc K (GetPod a) (GetPod b)) ?pvs) pdbs = Some ev"
    and S1: "snap_tracked K H pod (fst st1) = snap_tracked K H pod c - (pod_uid \<circ> GetPod) ` {x \<in> set ?pvs. in_queue qm pod x}"
    and ok1: "view_ok K amount reqs nok qm pod (nview st1, snap_tracked K H pod (fst st1))"
    and g: "greedy (view_ok K amount reqs nok qm pod) (view_add nadd qm pod)
      (ViolatingPods ev @ NonViolatingPods ev) (nview st1, snap_tracked K H pod (fst st1)) = (ws, (v, S))"
    and vs: "vs = SortFunc (CompareImportanceDesc K) (map GetPod ws)"
    using SelectVictims_greedy [OF assms(1-4) _ assms(5,6)] q nonneg by fastforce
  let ?ok = "view_ok K amount reqs nok qm pod" and ?add = "view_add nadd qm pod"
  let ?v1 = "(nview st1, snap_tracked K H pod (fst st1))" and ?xs = "ViolatingPods ev @ NonViolatingPods ev"
  have pvs: "set ?xs = set ?pvs" using CheckPodRemovalViolations_subset [OF ev] by simp
  have T0: "snap_tracked K H pod c = mgr_tracked K qm n" by (simp add: snap_tracked_def snap n(1))
  have fits: "fits_max amount reqs (Quota_Max (queue_quota q)) S (pod_req K amount pod)"
    using greedy_fits [of ?ok ?v1 ?add ?xs, OF ok1] by (simp add: g quota_fits_def q)
  have "(\<lambda>(v, S). finite S) (snd (greedy ?ok ?add ?xs ?v1))"
    by (rule greedy_keeps) (auto simp: S1 T0 finite_mgr_tracked)
  then have fin: "finite S" by (simp add: g)
  have mono: "(\<lambda>(v, S). u \<in> S) w \<Longrightarrow> (\<lambda>(v, S). u \<in> S) (?add y w)" for u y w by (cases w) auto
  have "u \<in> S" if u: "u \<in> mgr_tracked K qm n" "u \<notin> pod_uid ` {v \<in> set vs. pod_queue v = Some n}" for u
  proof (cases "\<exists>x \<in> set ?pvs. in_queue qm pod x \<and> pod_uid (GetPod x) = u")
    case True
    then obtain x where x: "x \<in> set ?xs" "in_queue qm pod x" "pod_uid (GetPod x) = u" unfolding pvs by blast
    have "x \<notin> set (fst (greedy ?ok ?add ?xs ?v1))" using u(2) x(2,3) n(1) by (auto simp: g vs in_queue_def)
    from greedy_reprieved [of "\<lambda>(v, S). u \<in> S" ?add x, OF mono _ x(1) this] x(2,3) show ?thesis by (auto simp: g)
  next
    case False
    then have "(\<lambda>(v, S). u \<in> S) ?v1" using u(1) by (auto simp: S1 T0)
    from greedy_keeps [of "\<lambda>(v, S). u \<in> S" ?add, OF mono this, of ?ok ?xs] show ?thesis by (simp add: g)
  qed
  then have "mgr_tracked K qm n - pod_uid ` {v \<in> set vs. pod_queue v = Some n} \<subseteq> S" by blast
  with fits_max_mono [OF fits _ fin] assms(7) show ?thesis by blast
qed

end

end
