(* ===== verification/NodeAggregator.thy ===== *)
theory NodeAggregator
  imports QueueApi Ledger
begin

text \<open>
  \<^verbatim>\<open>internal/alloc/node_aggregator.go\<close> and \<^verbatim>\<open>internal/alloc/cluster_tracker.go\<close>: the total of
  the allocatable resources of the cluster's nodes, and the node event handlers that keep it.

  Every exported method of \<^verbatim>\<open>NodeAggregator\<close> holds the lock for its whole body, so each is one
  atomic step on the record \<open>node_aggregator\<close>. The set of node identifiers is a Go map with empty
  values. Registering the handlers with an informer is not modelled; the handlers may be called
  with any object.
\<close>

record 'q node_aggregator =
  na_nodeIDs :: "(string, unit) gomap"
  na_total :: "'q resources"
  na_getNodeRes :: "'q node \<Rightarrow> 'q resource_list"

section \<open>The aggregator\<close>

definition addNoLock :: "('q, 's, 'm) kube \<Rightarrow> 'q node ptr \<Rightarrow> 'q node_aggregator \<Rightarrow> 'q node_aggregator option" where
  "addNoLock K node counter = (case node of
     NilP \<Rightarrow> Some counter
   | Ptr nd \<Rightarrow>
       if gm_get (na_nodeIDs counter) (node_uid nd) \<noteq> None then Some counter
       else do {
         ids \<leftarrow> gm_set (na_nodeIDs counter) (node_uid nd) ();
         tot \<leftarrow> Resources_Add K (na_total counter) (FromResourceList K (na_getNodeRes counter nd));
         Some (counter\<lparr>na_nodeIDs := ids, na_total := tot\<rparr>) })"

definition deleteNoLock :: "('q, 's, 'm) kube \<Rightarrow> 'q node ptr \<Rightarrow> 'q node_aggregator \<Rightarrow> 'q node_aggregator option" where
  "deleteNoLock K node counter = (case node of
     NilP \<Rightarrow> Some counter
   | Ptr nd \<Rightarrow>
       if gm_get (na_nodeIDs counter) (node_uid nd) = None then Some counter
       else do {
         tot \<leftarrow> Resources_Sub K (na_total counter) (FromResourceList K (na_getNodeRes counter nd));
         Some (counter\<lparr>na_nodeIDs := gm_delete (na_nodeIDs counter) (node_uid nd), na_total := tot\<rparr>) })"

definition NodeAggregator_Put :: "('q, 's, 'm) kube \<Rightarrow> 'q node ptr \<Rightarrow> 'q node_aggregator \<Rightarrow> 'q node_aggregator option" where
  "NodeAggregator_Put K node counter = do { c \<leftarrow> deleteNoLock K node counter; addNoLock K node c }"

definition NodeAggregator_PutAll :: "('q, 's, 'm) kube \<Rightarrow> 'q node ptr list \<Rightarrow> 'q node_aggregator \<Rightarrow> 'q node_aggregator option" where
  "NodeAggregator_PutAll K nodes counter =
     for_each (\<lambda>node counter. do { c \<leftarrow> deleteNoLock K node counter; addNoLock K node c }) nodes counter"

definition NodeAggregator_Delete :: "('q, 's, 'm) kube \<Rightarrow> 'q node ptr \<Rightarrow> 'q node_aggregator \<Rightarrow> 'q node_aggregator option" where
  "NodeAggregator_Delete K node counter = deleteNoLock K node counter"

definition NodeAggregator_GetTotal :: "('q, 's, 'm) kube \<Rightarrow> 'q node_aggregator \<Rightarrow> 'q resources" where
  "NodeAggregator_GetTotal K counter = Resources_Clone K (na_total counter)"

definition NewNodeAllocatableAggregator :: "('q, 's, 'm) kube \<Rightarrow> 'q node ptr list \<Rightarrow> 'q node_aggregator option" where
  "NewNodeAllocatableAggregator K nodes = NodeAggregator_PutAll K nodes
     \<lparr>na_nodeIDs = gm_make, na_total = gm_make, na_getNodeRes = node_allocatable\<rparr>"

section \<open>The cluster tracker's event handlers\<close>

definition tracker_addNode :: "('q, 's, 'm) kube \<Rightarrow> 'q any_obj \<Rightarrow> 'q node_aggregator \<Rightarrow> 'q node_aggregator option" where
  "tracker_addNode K obj counter = NodeAggregator_Put K (as_node obj) counter"

text \<open>
  The comparison in \<^verbatim>\<open>updateNode\<close>. Both quantities are read from the old node, as in the source.
\<close>

definition updateNode_needsUpdate :: "('q, 's, 'm) kube \<Rightarrow> 'q node \<Rightarrow> 'q node \<Rightarrow> bool" where
  "updateNode_needsUpdate K oldNode newNode =
     (if gm_len (node_allocatable oldNode) = gm_len (node_allocatable newNode) then
        let allResNames = gm_keys (node_allocatable oldNode) @ gm_keys (node_allocatable newNode) in
        list_ex (\<lambda>resName. case gm_get (node_allocatable oldNode) resName of
            None \<Rightarrow> True
          | Some oldQuant \<Rightarrow> (case gm_get (node_allocatable oldNode) resName of
                None \<Rightarrow> True
              | Some newQuant \<Rightarrow> \<not> qty_Equal K newQuant oldQuant)) allResNames
      else True)"

definition tracker_updateNode :: "('q, 's, 'm) kube \<Rightarrow> 'q any_obj \<Rightarrow> 'q any_obj \<Rightarrow> 'q node_aggregator \<Rightarrow> 'q node_aggregator option" where
  "tracker_updateNode K oldObj newObj counter = do {
     oldNode \<leftarrow> deref (as_node oldObj);
     newNode \<leftarrow> deref (as_node newObj);
     if updateNode_needsUpdate K oldNode newNode
     then NodeAggregator_Put K (Ptr newNode) counter else Some counter }"

definition tracker_deleteNode :: "('q, 's, 'm) kube \<Rightarrow> 'q any_obj \<Rightarrow> 'q node_aggregator \<Rightarrow> 'q node_aggregator option" where
  "tracker_deleteNode K obj counter = NodeAggregator_Delete K (as_node obj) counter"

definition tracker_GetTotal :: "('q, 's, 'm) kube \<Rightarrow> 'q node_aggregator \<Rightarrow> 'q resources" where
  "tracker_GetTotal K counter = NodeAggregator_GetTotal K counter"

section \<open>Histories of node events\<close>

datatype 'q node_event =
    NodeAdded "'q any_obj"
  | NodeUpdated "'q any_obj" "'q any_obj"
  | NodeDeleted "'q any_obj"

fun tracker_step :: "('q, 's, 'm) kube \<Rightarrow> 'q node_event \<Rightarrow> 'q node_aggregator \<Rightarrow> 'q node_aggregator option" where
  "tracker_step K (NodeAdded obj) c = tracker_addNode K obj c"
| "tracker_step K (NodeUpdated oldObj newObj) c = tracker_updateNode K oldObj newObj c"
| "tracker_step K (NodeDeleted obj) c = tracker_deleteNode K obj c"

text \<open>An event about nodes whose allocatable resources are those \<open>alloc\<close> gives for their identifier.\<close>

fun node_obj_ok :: "(string \<Rightarrow> 'q resource_list) \<Rightarrow> 'q any_obj \<Rightarrow> bool" where
  "node_obj_ok alloc (AnyNode (Ptr nd)) \<longleftrightarrow> node_allocatable nd = alloc (node_uid nd)"
| "node_obj_ok alloc _ \<longleftrightarrow> False"

fun node_event_ok :: "(string \<Rightarrow> 'q resource_list) \<Rightarrow> 'q node_event \<Rightarrow> bool" where
  "node_event_ok alloc (NodeAdded obj) \<longleftrightarrow> node_obj_ok alloc obj"
| "node_event_ok alloc (NodeUpdated oldObj newObj) \<longleftrightarrow>
     node_obj_ok alloc oldObj \<and> node_obj_ok alloc newObj \<and>
     (\<forall>nd nd'. as_node oldObj = Ptr nd \<longrightarrow> as_node newObj = Ptr nd' \<longrightarrow> node_uid nd = node_uid nd')"
| "node_event_ok alloc (NodeDeleted obj) \<longleftrightarrow> node_obj_ok alloc obj"

section \<open>Invariant and abstraction\<close>

definition na_invar :: "'q node_aggregator \<Rightarrow> bool" where
  "na_invar c \<longleftrightarrow> na_nodeIDs c \<noteq> NilP \<and> gm_wf (na_nodeIDs c) \<and> na_total c \<noteq> NilP \<and>
     gm_wf (na_total c) \<and> na_getNodeRes c = node_allocatable"

definition na_tracked :: "'q node_aggregator \<Rightarrow> string set" where
  "na_tracked c = gm_dom (na_nodeIDs c)"

definition node_weight :: "('q, 's, 'm) kube \<Rightarrow> ('q \<Rightarrow> rat) \<Rightarrow> 'q node \<Rightarrow> string \<Rightarrow> rat" where
  "node_weight K amount nd = res_amount amount (FromResourceList K (node_allocatable nd))"

definition node_weight_names :: "('q, 's, 'm) kube \<Rightarrow> 'q node \<Rightarrow> string set" where
  "node_weight_names K nd = gm_dom (FromResourceList K (node_allocatable nd))"

definition new_aggregator :: "'q node_aggregator" where
  "new_aggregator = \<lparr>na_nodeIDs = gm_make, na_total = gm_make, na_getNodeRes = node_allocatable\<rparr>"

definition example_node :: "string \<Rightarrow> int \<Rightarrow> int node" where
  "example_node u cpu = \<lparr>node_name = u, node_uid = u, node_allocatable = Ptr [(''cpu'', cpu)]\<rparr>"

lemma node_obj_okD:
  "node_obj_ok alloc obj \<Longrightarrow> \<exists>nd. as_node obj = Ptr nd \<and> node_allocatable nd = alloc (node_uid nd)"
  by (cases "(alloc, obj)" rule: node_obj_ok.cases) auto

lemma na_invar_new: "na_invar new_aggregator"
  by (simp add: na_invar_def new_aggregator_def)

lemma new_aggregator_empty:
  "na_tracked new_aggregator = {}" "res_amount amount (na_total new_aggregator) n = 0"
  by (simp_all add: na_tracked_def new_aggregator_def gm_dom_def gm_keys_def gm_make_def res_amount_def)

section \<open>The aggregator is a ledger\<close>

context quantity
begin

lemma addNoLock_new:
  assumes "na_invar c" and "node_uid nd \<notin> na_tracked c"
  shows "\<exists>c'. addNoLock K (Ptr nd) c = Some c' \<and> na_invar c' \<and>
    na_tracked c' = insert (node_uid nd) (na_tracked c) \<and>
    gm_dom (na_total c') = gm_dom (na_total c) \<union> node_weight_names K nd \<and>
    (\<forall>n. res_amount amount (na_total c') n = res_amount amount (na_total c) n + node_weight K amount nd n)"
proof -
  obtain ids where ids: "gm_set (na_nodeIDs c) (node_uid nd) () = Some ids"
    using assms(1) gm_set_defined [of "na_nodeIDs c" "node_uid nd" "()"] by (auto simp: na_invar_def)
  from assms(1) Add_result [of "FromResourceList K (node_allocatable nd)" "na_total c"]
  obtain tot where tot: "Resources_Add K (na_total c) (FromResourceList K (node_allocatable nd)) = Some tot"
      "tot \<noteq> NilP" "gm_wf tot" "gm_dom tot = gm_dom (na_total c) \<union> node_weight_names K nd"
      "\<forall>n. res_amount amount tot n = res_amount amount (na_total c) n + node_weight K amount nd n"
    by (auto simp: na_invar_def node_weight_def node_weight_names_def)
  from assms ids tot have "addNoLock K (Ptr nd) c = Some (c\<lparr>na_nodeIDs := ids, na_total := tot\<rparr>)"
    by (simp add: addNoLock_def na_tracked_def gm_dom_iff na_invar_def)
  with assms(1) ids tot show ?thesis
    by (auto simp: na_invar_def na_tracked_def gm_set_not_nil gm_dom_set [OF ids] gm_wf_set [OF ids])
qed

text \<open>
  Deleting a tracked node subtracts the resources of the node it is given, and adds those whose
  name the total lacks.
\<close>

lemma deleteNoLock_tracked:
  assumes "na_invar c" and "node_uid nd \<in> na_tracked c"
  shows "\<exists>c'. deleteNoLock K (Ptr nd) c = Some c' \<and> na_invar c' \<and>
    na_tracked c' = na_tracked c - {node_uid nd} \<and>
    gm_dom (na_total c') = gm_dom (na_total c) \<union> node_weight_names K nd \<and>
    (\<forall>n. res_amount amount (na_total c') n = (if n \<in> gm_dom (na_total c)
      then res_amount amount (na_total c) n - node_weight K amount nd n else node_weight K amount nd n))"
proof -
  from assms(1) Sub_result [of "FromResourceList K (node_allocatable nd)" "na_total c"]
  obtain tot where tot: "Resources_Sub K (na_total c) (FromResourceList K (node_allocatable nd)) = Some tot"
      "tot \<noteq> NilP" "gm_wf tot" "gm_dom tot = gm_dom (na_total c) \<union> node_weight_names K nd"
      "\<forall>n. res_amount amount tot n = (if n \<in> gm_dom (na_total c)
        then res_amount amount (na_total c) n - node_weight K amount nd n else node_weight K amount nd n)"
    by (auto simp: na_invar_def node_weight_def node_weight_names_def)
  from assms tot have "deleteNoLock K (Ptr nd) c =
      Some (c\<lparr>na_nodeIDs := gm_delete (na_nodeIDs c) (node_uid nd), na_total := tot\<rparr>)"
    by (auto simp: deleteNoLock_def na_tracked_def gm_dom_iff na_invar_def)
  with assms(1) tot show ?thesis
    by (auto simp: na_invar_def na_tracked_def gm_dom_delete gm_wf_delete)
qed

lemma node_weight_absent: "n \<notin> node_weight_names K nd \<Longrightarrow> node_weight K amount nd n = 0"
  by (simp add: node_weight_def node_weight_names_def res_amount_absent)

end

sublocale quantity \<subseteq> node_ledger: ledger na_invar na_tracked "\<lambda>c. gm_dom (na_total c)"
  "\<lambda>c. res_amount amount (na_total c)" "\<lambda>nd. addNoLock K (Ptr nd)" "\<lambda>nd. deleteNoLock K (Ptr nd)"
  node_uid "node_weight K amount" "node_weight_names K"
proof unfold_locales
  fix c :: "'q node_aggregator" and nd :: "'q node"
  assume inv: "na_invar c"
  show "finite (na_tracked c)" by (simp add: na_tracked_def)
  show "addNoLock K (Ptr nd) c = Some c" if "node_uid nd \<in> na_tracked c"
    using that by (auto simp: addNoLock_def na_tracked_def gm_dom_iff)
  show "deleteNoLock K (Ptr nd) c = Some c" if "node_uid nd \<notin> na_tracked c"
    using that by (auto simp: deleteNoLock_def na_tracked_def gm_dom_iff)
  show "\<exists>c'. deleteNoLock K (Ptr nd) c = Some c' \<and> na_invar c' \<and>
      na_tracked c' = na_tracked c - {node_uid nd} \<and> gm_dom (na_total c') = gm_dom (na_total c) \<and>
      (\<forall>n. res_amount amount (na_total c') n = res_amount amount (na_total c) n - node_weight K amount nd n)"
    if "node_uid nd \<in> na_tracked c" and sub: "node_weight_names K nd \<subseteq> gm_dom (na_total c)"
    using deleteNoLock_tracked [OF inv that(1)] sub node_weight_absent
    by (fastforce simp: res_amount_absent)
qed (rule addNoLock_new)


section \<open>Histories keep the total right\<close>

context quantity
begin

lemma Put_balanced:
  assumes "na_invar c"
    and "balanced (na_tracked c) (gm_dom (na_total c)) (res_amount amount (na_total c)) w wn"
    and "node_weight K amount nd = w (node_uid nd)" and "node_weight_names K nd = wn (node_uid nd)"
  shows "\<exists>c'. NodeAggregator_Put K (Ptr nd) c = Some c' \<and> na_invar c' \<and>
    na_tracked c' = insert (node_uid nd) (na_tracked c) \<and>
    balanced (na_tracked c') (gm_dom (na_total c')) (res_amount amount (na_total c')) w wn"
proof -
  obtain c1 where c1: "deleteNoLock K (Ptr nd) c = Some c1" "na_invar c1"
      "na_tracked c1 = na_tracked c - {node_uid nd}"
      "balanced (na_tracked c1) (gm_dom (na_total c1)) (res_amount amount (na_total c1)) w wn"
    using node_ledger.del_balanced [OF assms] by blast
  from node_ledger.add_balanced [OF c1(2,4) assms(3,4)] c1(1,3) show ?thesis
    by (auto simp: NodeAggregator_Put_def)
qed

lemma updateNode_unchanged:
  assumes "gm_wf (node_allocatable old)" and "gm_wf (node_allocatable new)"
    and "gm_dom (node_allocatable old) = gm_dom (node_allocatable new)"
  shows "\<not> updateNode_needsUpdate K old new"
proof -
  have "gm_len (node_allocatable old) = gm_len (node_allocatable new)"
    using assms by (simp add: gm_len_card)
  moreover have "\<forall>n \<in> set (gm_keys (node_allocatable old) @ gm_keys (node_allocatable new)).
      \<exists>q. gm_get (node_allocatable old) n = Some q"
    using assms(3) by (auto simp: gm_dom_iff)
  ultimately show ?thesis
    by (auto simp: updateNode_needsUpdate_def list_ex_iff Equal_amount split: option.splits)
qed

lemma tracker_step_balanced:
  assumes "node_event_ok alloc ev" and wf: "\<And>u. gm_wf (alloc u)" and "na_invar c"
    and "balanced (na_tracked c) (gm_dom (na_total c)) (res_amount amount (na_total c))
      (\<lambda>u. res_amount amount (FromResourceList K (alloc u))) (\<lambda>u. gm_dom (FromResourceList K (alloc u)))"
  shows "\<exists>c'. tracker_step K ev c = Some c' \<and> na_invar c' \<and>
    balanced (na_tracked c') (gm_dom (na_total c')) (res_amount amount (na_total c'))
      (\<lambda>u. res_amount amount (FromResourceList K (alloc u))) (\<lambda>u. gm_dom (FromResourceList K (alloc u)))"
proof (cases ev)
  case (NodeAdded obj)
  with assms(1) obtain nd where "as_node obj = Ptr nd" "node_allocatable nd = alloc (node_uid nd)"
    using node_obj_okD [of alloc obj] by auto
  with Put_balanced [OF assms(3,4), of nd] NodeAdded show ?thesis
    by (auto simp: tracker_addNode_def node_weight_def node_weight_names_def)
next
  case (NodeUpdated oldObj newObj)
  with assms(1) obtain nd nd' where "as_node oldObj = Ptr nd" "node_allocatable nd = alloc (node_uid nd)"
      "as_node newObj = Ptr nd'" "node_allocatable nd' = alloc (node_uid nd')" "node_uid nd = node_uid nd'"
    using node_obj_okD [of alloc oldObj] node_obj_okD [of alloc newObj] by auto
  with updateNode_unchanged [of nd nd'] wf NodeUpdated assms(3,4) show ?thesis
    by (simp add: tracker_updateNode_def)
next
  case (NodeDeleted obj)
  with assms(1) obtain nd where "as_node obj = Ptr nd" "node_allocatable nd = alloc (node_uid nd)"
    using node_obj_okD [of alloc obj] by auto
  with node_ledger.del_balanced [OF assms(3,4), of nd] NodeDeleted show ?thesis
    by (auto simp: tracker_deleteNode_def NodeAggregator_Delete_def node_weight_def node_weight_names_def)
qed

lemma tracker_run_balanced:
  assumes "\<forall>ev \<in> set evs. node_event_ok alloc ev" and "\<And>u. gm_wf (alloc u)"
  shows "\<exists>c. for_each (tracker_step K) evs new_aggregator = Some c \<and> na_invar c \<and>
    balanced (na_tracked c) (gm_dom (na_total c)) (res_amount amount (na_total c))
      (\<lambda>u. res_amount amount (FromResourceList K (alloc u))) (\<lambda>u. gm_dom (FromResourceList K (alloc u)))"
proof -
  have "\<exists>c. for_each (tracker_step K) evs new_aggregator = Some c \<and> (na_invar c \<and>
    balanced (na_tracked c) (gm_dom (na_total c)) (res_amount amount (na_total c))
      (\<lambda>u. res_amount amount (FromResourceList K (alloc u))) (\<lambda>u. gm_dom (FromResourceList K (alloc u))))"
  proof (rule for_each_rule)
    show "na_invar new_aggregator \<and> balanced (na_tracked new_aggregator)
      (gm_dom (na_total new_aggregator)) (res_amount amount (na_total new_aggregator))
      (\<lambda>u. res_amount amount (FromResourceList K (alloc u))) (\<lambda>u. gm_dom (FromResourceList K (alloc u)))"
      by (simp add: na_invar_new new_aggregator_empty balanced_def)
  qed (use assms tracker_step_balanced in blast)
  then show ?thesis .
qed

lemma Put_tracked:
  assumes "na_invar c" and "node_uid nd \<in> na_tracked c"
  shows "\<exists>c'. NodeAggregator_Put K (Ptr nd) c = Some c' \<and> na_invar c' \<and> na_tracked c' = na_tracked c \<and>
    (\<forall>n. res_amount amount (na_total c') n = (if n \<in> gm_dom (na_total c)
      then res_amount amount (na_total c) n else 2 * node_weight K amount nd n))"
proof -
  obtain c1 where c1: "deleteNoLock K (Ptr nd) c = Some c1" "na_invar c1"
      "na_tracked c1 = na_tracked c - {node_uid nd}"
      "\<forall>n. res_amount amount (na_total c1) n = (if n \<in> gm_dom (na_total c)
        then res_amount amount (na_total c) n - node_weight K amount nd n else node_weight K amount nd n)"
    using deleteNoLock_tracked [OF assms] by blast
  then have "node_uid nd \<notin> na_tracked c1" by simp
  from addNoLock_new [OF c1(2) this] c1 assms(2) show ?thesis
    by (auto simp: NodeAggregator_Put_def insert_absorb)
qed

end

section \<open>Properties\<close>

text \<open>
  C18. For every history of node events in which a node keeps its allocatable resources, no
  handler panics, and the tracked total is exactly the sum of the allocatable resources of the
  nodes counted at the end.
\<close>

theorem cluster_total_is_sum:
  assumes "quantity K amount" and "\<forall>ev \<in> set evs. node_event_ok alloc ev" and "\<forall>u. gm_wf (alloc u)"
  shows "\<exists>c. for_each (tracker_step K) evs new_aggregator = Some c \<and>
    (\<forall>n. res_amount amount (tracker_GetTotal K c) n =
      (\<Sum>u \<in> na_tracked c. res_amount amount (alloc u) n))"
proof -
  obtain c where "for_each (tracker_step K) evs new_aggregator = Some c" "na_invar c"
    and bal: "balanced (na_tracked c) (gm_dom (na_total c)) (res_amount amount (na_total c))
      (\<lambda>u. res_amount amount (FromResourceList K (alloc u))) (\<lambda>u. gm_dom (FromResourceList K (alloc u)))"
    using quantity.tracker_run_balanced [OF assms(1,2)] assms(3) by blast
  moreover have "res_amount amount (FromResourceList K (alloc u)) n = res_amount amount (alloc u) n" for u n
    using quantity.get_FromResourceList [OF assms(1)] assms(3) by (simp add: res_amount_def)
  ultimately show ?thesis
    using quantity.Clone_eq [OF assms(1)]
    by (auto simp: balanced_def tracker_GetTotal_def NodeAggregator_GetTotal_def na_invar_def)
qed

theorem cluster_total_is_sum_witness:
  "\<exists>c. for_each (tracker_step ref_kube)
      [NodeAdded (AnyNode (Ptr (example_node ''a'' 4000))), NodeAdded (AnyNode (Ptr (example_node ''b'' 4000))),
       NodeDeleted (AnyNode (Ptr (example_node ''a'' 4000)))] new_aggregator = Some c \<and>
    (\<forall>n. res_amount ref_amount (tracker_GetTotal ref_kube c) n =
      (\<Sum>u \<in> na_tracked c. res_amount ref_amount (Ptr [(''cpu'', 4000)]) n))"
  by (rule cluster_total_is_sum [OF ref_quantity.quantity_axioms,
        where alloc = "\<lambda>u. Ptr [(''cpu'', 4000)]"])
    (simp_all add: example_node_def gm_wf_Ptr)

text \<open>
  \<^verbatim>\<open>Put\<close> of a node that is already counted does not update the total: on every resource the
  total already has, the total keeps its old amount whatever the node's new allocatable resources
  are, and on a resource that is new to the total it ends up at twice the node's amount.
\<close>

theorem Put_keeps_stale_total:
  assumes "quantity K amount" and "na_invar c" and "node_uid nd \<in> na_tracked c"
  shows "\<exists>c'. NodeAggregator_Put K (Ptr nd) c = Some c' \<and> na_tracked c' = na_tracked c \<and>
    (\<forall>n. res_amount amount (na_total c') n = (if n \<in> gm_dom (na_total c)
      then res_amount amount (na_total c) n else 2 * node_weight K amount nd n))"
  using quantity.Put_tracked [OF assms] by blast

theorem Put_keeps_stale_total_witness:
  "\<exists>c'. NodeAggregator_Put ref_kube (Ptr (example_node ''a'' 8000))
      \<lparr>na_nodeIDs = Ptr [(''a'', ())], na_total = Ptr [(''cpu'', 4000)], na_getNodeRes = node_allocatable\<rparr> = Some c' \<and>
    res_amount ref_amount (na_total c') ''cpu'' = 4"
proof -
  let ?c = "\<lparr>na_nodeIDs = Ptr [(''a'', ())], na_total = Ptr [(''cpu'', 4000 :: int)],
    na_getNodeRes = node_allocatable\<rparr>"
  have "na_invar ?c" "node_uid (example_node ''a'' 8000) \<in> na_tracked ?c"
    by (simp_all add: na_invar_def na_tracked_def gm_wf_Ptr gm_dom_def gm_keys_def example_node_def)
  from Put_keeps_stale_total [OF ref_quantity.quantity_axioms this] show ?thesis
    by (elim exE conjE, intro exI conjI)
      (assumption, simp add: gm_dom_def gm_keys_def res_amount_def ref_amount_def)
qed

text \<open>
  \<^verbatim>\<open>updateNode\<close> never notices a changed quantity: when the old and the new node have the same
  resource names, the counter stays as it is, whatever the amounts.
\<close>

theorem updateNode_misses_changed_quantity:
  assumes "quantity K amount"
    and "gm_wf (node_allocatable old)" and "gm_wf (node_allocatable new)"
    and "gm_dom (node_allocatable old) = gm_dom (node_allocatable new)"
  shows "tracker_updateNode K (AnyNode (Ptr old)) (AnyNode (Ptr new)) c = Some c"
  using quantity.updateNode_unchanged [OF assms] by (simp add: tracker_updateNode_def)

theorem updateNode_misses_changed_quantity_witness:
  "tracker_updateNode ref_kube (AnyNode (Ptr (example_node ''a'' 4000)))
    (AnyNode (Ptr (example_node ''a'' 8000))) new_aggregator = Some new_aggregator"
  by (rule updateNode_misses_changed_quantity [OF ref_quantity.quantity_axioms])
    (simp_all add: example_node_def gm_wf_Ptr gm_dom_def gm_keys_def)

end
