(* ===== verification/Synchronizer.thy ===== *)
theory Synchronizer
  imports Manager NodeAggregator
begin

text \<open>
  \<^verbatim>\<open>internal/queue/synchronizer.go\<close>: the event handlers that keep the queue manager in step with
  the cluster, and one round of the loop that publishes the status of the queues.

  A handler takes what the informer hands it, an \<open>any_obj\<close>. After a failed type assertion the
  handlers log and go on with a nil pointer: the queue handlers then panic, the pod handlers do
  nothing. The errors the manager returns are logged and dropped. The informers, the marshalling
  of a patch and the client that sends it are not part of the repository.
\<close>

section \<open>Handlers\<close>

fun pod_FilterFunc :: "'q any_obj \<Rightarrow> bool option" where
  "pod_FilterFunc (AnyPod pod) = do { p \<leftarrow> deref pod; Some (length (spec_nodeName p) > 0) }"
| "pod_FilterFunc (DeletedFinalStateUnknown (AnyPod pod)) = do { p \<leftarrow> deref pod; Some (length (spec_nodeName p) > 0) }"
| "pod_FilterFunc _ = Some False"

definition sync_addQueue :: "('q, 's, 'm) kube \<Rightarrow> 'q any_obj \<Rightarrow> ('q, 's, 'm) manager \<Rightarrow> ('q, 's, 'm) manager option" where
  "sync_addQueue K obj queueMgr = do {
     queueObj \<leftarrow> deref (as_queue obj);
     let (preemptionCfg, err) = NewPreemptionConfigFromSpec K (spec_preemption (qo_spec queueObj));
     Manager_Put K (qo_name queueObj)
       [WithQuotaMax (FromResourceList K (qs_max (spec_quota (qo_spec queueObj)))),
        WithLabels (Ptr (qo_labels queueObj)),
        WithPreemptionConfig preemptionCfg] queueMgr }"

definition sync_updateQueue :: "('q, 's, 'm) kube \<Rightarrow> 'q any_obj \<Rightarrow> 'q any_obj \<Rightarrow> ('q, 's, 'm) manager \<Rightarrow> ('q, 's, 'm) manager option" where
  "sync_updateQueue K oldObj newObj queueMgr = do {
     newQueue \<leftarrow> deref (as_queue newObj);
     let (preemptionCfg, err) = NewPreemptionConfigFromSpec K (spec_preemption (qo_spec newQueue));
     Manager_Update K (qo_name newQueue)
       [WithQuotaMax (FromResourceList K (qs_max (spec_quota (qo_spec newQueue)))),
        WithLabels (Ptr (qo_labels newQueue)),
        WithPreemptionConfig preemptionCfg] queueMgr }"

definition sync_deleteQueue :: "'q any_obj \<Rightarrow> ('q, 's, 'm) manager \<Rightarrow> ('q, 's, 'm) manager option" where
  "sync_deleteQueue obj queueMgr = do {
     queueObj \<leftarrow> deref (as_queue obj);
     Some (Manager_Delete (qo_name queueObj) queueMgr) }"

definition sync_addPod :: "('q, 's, 'm) kube \<Rightarrow> 'q any_obj \<Rightarrow> ('q, 's, 'm) manager \<Rightarrow> ('q, 's, 'm) manager option" where
  "sync_addPod K obj queueMgr = do {
     (queueMgr', err) \<leftarrow> Manager_AddPodIfNotPresent K (as_pod obj) queueMgr;
     Some queueMgr' }"

definition sync_updatePod :: "('q, 's, 'm) kube \<Rightarrow> 'q any_obj \<Rightarrow> 'q any_obj \<Rightarrow> ('q, 's, 'm) manager \<Rightarrow> ('q, 's, 'm) manager option" where
  "sync_updatePod K oldObj newObj queueMgr =
     (let oldPod = as_pod oldObj; newPod = as_pod newObj in
      if IsTerminal oldPod \<or> IsNonTerminal newPod then Some queueMgr
      else do {
        (queueMgr', err) \<leftarrow> Manager_DeletePodIfPresent K newPod queueMgr;
        Some queueMgr' })"

definition sync_deletePod :: "('q, 's, 'm) kube \<Rightarrow> 'q any_obj \<Rightarrow> ('q, 's, 'm) manager \<Rightarrow> ('q, 's, 'm) manager option" where
  "sync_deletePod K obj queueMgr = do {
     (queueMgr', err) \<leftarrow> Manager_DeletePodIfPresent K (as_pod obj) queueMgr;
     Some queueMgr' }"

datatype 'q sync_event =
    QueueAdded "'q any_obj"
  | QueueUpdated "'q any_obj" "'q any_obj"
  | QueueDeleted "'q any_obj"
  | PodAdded "'q any_obj"
  | PodUpdated "'q any_obj" "'q any_obj"
  | PodDeleted "'q any_obj"

fun sync_step :: "('q, 's, 'm) kube \<Rightarrow> 'q sync_event \<Rightarrow> ('q, 's, 'm) manager \<Rightarrow> ('q, 's, 'm) manager option" where
  "sync_step K (QueueAdded obj) qm = sync_addQueue K obj qm"
| "sync_step K (QueueUpdated oldObj newObj) qm = sync_updateQueue K oldObj newObj qm"
| "sync_step K (QueueDeleted obj) qm = sync_deleteQueue obj qm"
| "sync_step K (PodAdded obj) qm = sync_addPod K obj qm"
| "sync_step K (PodUpdated oldObj newObj) qm = sync_updatePod K oldObj newObj qm"
| "sync_step K (PodDeleted obj) qm = sync_deletePod K obj qm"

section \<open>Publishing the status\<close>

text \<open>
  The status patch of one queue, and the patches of one round of \<^verbatim>\<open>statusUpdateLoop\<close>: those that
  could be marshalled are sent, under the name of their queue, whether or not an earlier one was
  accepted.
\<close>

definition status_patch :: "('q, 's, 'm) kube \<Rightarrow> 'q resources \<Rightarrow> ('q, 's, 'm) queue ptr \<Rightarrow> 'q quota_status option" where
  "status_patch K clusterTotalRes q = do {
     effectiveMax \<leftarrow> Resources_TakeMinExisting K clusterTotalRes (Quota_Max (Queue_Quota q));
     Some \<lparr>qst_effectiveMax = Resources_ToResourceList K effectiveMax,
       qst_used = Resources_ToResourceList K (Quota_Used (Queue_Quota q))\<rparr> }"

definition status_update_round :: "('q, 's, 'm) kube \<Rightarrow> ('q quota_status \<Rightarrow> 'b option) \<Rightarrow> 'q node_aggregator \<Rightarrow> ('q, 's, 'm) manager \<Rightarrow> (string \<times> 'b) list option" where
  "status_update_round K marshal resTracker queueMgr =
     (let clusterTotalRes = tracker_GetTotal K resTracker in
      for_each (\<lambda>q patches. do {
          statusPatch \<leftarrow> status_patch K clusterTotalRes q;
          case marshal statusPatch of
            None \<Rightarrow> Some patches
          | Some patchBytes \<Rightarrow> Some (patches @ [(Queue_Name q, patchBytes)]) })
        (Manager_QueueIter K queueMgr) [])"

section \<open>Specification: which pods each queue counts\<close>

text \<open>
  The abstract state: for every queue that exists, the identifiers of the pods counted in it.
\<close>

type_synonym accounts = "string \<Rightarrow> string set option"

definition mgr_accounts :: "('q, 's, 'm) kube \<Rightarrow> ('q, 's, 'm) manager \<Rightarrow> accounts" where
  "mgr_accounts K qm n = (if is_nil (Manager_GetByName qm n) then None else Some (mgr_tracked K qm n))"

definition acc_count :: "'q pod ptr \<Rightarrow> accounts \<Rightarrow> accounts" where
  "acc_count pod a = (case pod of NilP \<Rightarrow> a | Ptr p \<Rightarrow>
     (case pod_queue p of None \<Rightarrow> a | Some n \<Rightarrow> a(n := map_option (insert (pod_uid p)) (a n))))"

definition acc_release :: "'q pod ptr \<Rightarrow> accounts \<Rightarrow> accounts" where
  "acc_release pod a = (case pod of NilP \<Rightarrow> a | Ptr p \<Rightarrow>
     (case pod_queue p of None \<Rightarrow> a | Some n \<Rightarrow> a(n := map_option (\<lambda>S. S - {pod_uid p}) (a n))))"

text \<open>
  Adding a queue starts it empty even if it exists; updating one keeps its pods. A pod is
  released when it is deleted, and when an update takes it from a phase that is not terminal to
  one other than Pending and Running. A tombstone is not a pod, so it releases nothing.
\<close>

fun acc_step :: "'q sync_event \<Rightarrow> accounts \<Rightarrow> accounts" where
  "acc_step (QueueAdded obj) a = (case as_queue obj of NilP \<Rightarrow> a | Ptr q \<Rightarrow> a(qo_name q \<mapsto> {}))"
| "acc_step (QueueUpdated oldObj newObj) a = (case as_queue newObj of NilP \<Rightarrow> a
     | Ptr q \<Rightarrow> (case a (qo_name q) of None \<Rightarrow> a(qo_name q \<mapsto> {}) | Some S \<Rightarrow> a))"
| "acc_step (QueueDeleted obj) a = (case as_queue obj of NilP \<Rightarrow> a | Ptr q \<Rightarrow> a(qo_name q := None))"
| "acc_step (PodAdded obj) a = acc_count (as_pod obj) a"
| "acc_step (PodUpdated oldObj newObj) a =
     (if IsTerminal (as_pod oldObj) \<or> IsNonTerminal (as_pod newObj) then a else acc_release (as_pod newObj) a)"
| "acc_step (PodDeleted obj) a = acc_release (as_pod obj) a"

text \<open>
  What the handlers need of an event: the informers of queues hand over queues, and a pod is
  seen with the requests of its identifier.
\<close>

definition queue_obj_ok :: "'q any_obj \<Rightarrow> bool" where
  "queue_obj_ok obj \<longleftrightarrow> \<not> is_nil (as_queue obj)"

fun pod_obj_ok :: "('q, 's, 'm) kube \<Rightarrow> (string \<Rightarrow> 'q resource_list) \<Rightarrow> 'q any_obj \<Rightarrow> bool" where
  "pod_obj_ok K reqs obj = (case as_pod obj of NilP \<Rightarrow> True | Ptr p \<Rightarrow> pod_ok K reqs p)"

fun sync_event_ok :: "('q, 's, 'm) kube \<Rightarrow> (string \<Rightarrow> 'q resource_list) \<Rightarrow> 'q sync_event \<Rightarrow> bool" where
  "sync_event_ok K reqs (QueueAdded obj) = queue_obj_ok obj"
| "sync_event_ok K reqs (QueueUpdated oldObj newObj) = queue_obj_ok newObj"
| "sync_event_ok K reqs (QueueDeleted obj) = queue_obj_ok obj"
| "sync_event_ok K reqs (PodAdded obj) = pod_obj_ok K reqs obj"
| "sync_event_ok K reqs (PodUpdated oldObj newObj) = pod_obj_ok K reqs newObj"
| "sync_event_ok K reqs (PodDeleted obj) = pod_obj_ok K reqs obj"

text \<open>
  The status of a queue is right: it reports the requests of the pods counted in the queue, and on
  each resource the smaller of the cluster's total and the queue's maximum, if it has one.
\<close>

definition status_right :: "('q, 's, 'm) kube \<Rightarrow> ('q \<Rightarrow> rat) \<Rightarrow> (string \<Rightarrow> 'q resource_list) \<Rightarrow> ('q, 's, 'm) manager \<Rightarrow> 'q resources \<Rightarrow> string \<Rightarrow> 'q quota_status \<Rightarrow> bool" where
  "status_right K amount reqs qm clusterTotal n st \<longleftrightarrow> Manager_GetByName qm n \<noteq> NilP \<and>
     (\<forall>r. res_amount amount (qst_used st) r = (\<Sum>u \<in> mgr_tracked K qm n. uid_req amount reqs u r)) \<and>
     (\<forall>r. res_amount amount (qst_effectiveMax st) r =
       (let mx = Quota_Max (Queue_Quota (Manager_GetByName qm n)) in if r \<in> gm_dom mx
        then min (res_amount amount clusterTotal r) (res_amount amount mx r) else res_amount amount clusterTotal r))"

section \<open>Lemmas\<close>

lemma addQueue_eq:
  "as_queue obj = Ptr q \<Longrightarrow> sync_addQueue K obj qm = Manager_Put K (qo_name q)
     (spec_opts (FromResourceList K (qs_max (spec_quota (qo_spec q)))) (Ptr (qo_labels q))
       (fst (NewPreemptionConfigFromSpec K (spec_preemption (qo_spec q))))) qm"
  by (simp add: sync_addQueue_def spec_opts_def split_beta)

lemma updateQueue_eq:
  "as_queue obj = Ptr q \<Longrightarrow> sync_updateQueue K old obj qm = Manager_Update K (qo_name q)
     (spec_opts (FromResourceList K (qs_max (spec_quota (qo_spec q)))) (Ptr (qo_labels q))
       (fst (NewPreemptionConfigFromSpec K (spec_preemption (qo_spec q))))) qm"
  by (simp add: sync_updateQueue_def spec_opts_def split_beta)

lemma queue_objE:
  assumes "queue_obj_ok obj"
  obtains q where "as_queue obj = Ptr q"
  using assms by (cases "as_queue obj") (auto simp: queue_obj_ok_def is_nil_def)

lemma mgr_accounts_cong:
  "(\<And>n. Manager_GetByName qm n = Manager_GetByName qm' n) \<Longrightarrow> mgr_accounts K qm = mgr_accounts K qm'"
  by (simp add: fun_eq_iff mgr_accounts_def mgr_tracked_def)

context kube_laws
begin

lemma addPod_accounts:
  assumes "mgr_balanced K amount reqs qm" and "case pod of NilP \<Rightarrow> True | Ptr p \<Rightarrow> pod_ok K reqs p"
  shows "\<exists>qm' err. Manager_AddPodIfNotPresent K pod qm = Some (qm', err) \<and> mgr_balanced K amount reqs qm' \<and>
    mgr_accounts K qm' = acc_count pod (mgr_accounts K qm)"
proof (cases pod)
  case NilP
  then show ?thesis using assms by (simp add: Manager_AddPodIfNotPresent_def acc_count_def)
next
  case (Ptr p)
  with assms Manager_AddPod_result [of reqs qm p] obtain qm' err where
    res: "Manager_AddPodIfNotPresent K (Ptr p) qm = Some (qm', err)" "mgr_balanced K amount reqs qm'"
      "queue_frame qm qm'" "\<forall>n. mgr_tracked K qm' n = (if pod_queue p = Some n \<and> Manager_GetByName qm n \<noteq> NilP
        then insert (pod_uid p) (mgr_tracked K qm n) else mgr_tracked K qm n)" by auto
  have "mgr_accounts K qm' = acc_count pod (mgr_accounts K qm)"
    using res(4) by (auto simp: Ptr acc_count_def fun_eq_iff queue_frame_nil [OF res(3)] mgr_accounts_def
        is_nil_iff split: option.split)
  with res Ptr show ?thesis by blast
qed

lemma deletePod_accounts:
  assumes "mgr_balanced K amount reqs qm" and "case pod of NilP \<Rightarrow> True | Ptr p \<Rightarrow> pod_ok K reqs p"
  shows "\<exists>qm' err. Manager_DeletePodIfPresent K pod qm = Some (qm', err) \<and> mgr_balanced K amount reqs qm' \<and>
    mgr_accounts K qm' = acc_release pod (mgr_accounts K qm)"
proof (cases pod)
  case NilP
  then show ?thesis using assms by (simp add: Manager_DeletePodIfPresent_def acc_release_def)
next
  case (Ptr p)
  with assms Manager_DeletePod_result [of reqs qm p] obtain qm' err where
    res: "Manager_DeletePodIfPresent K (Ptr p) qm = Some (qm', err)" "mgr_balanced K amount reqs qm'"
      "queue_frame qm qm'" "\<forall>n. mgr_tracked K qm' n = (if pod_queue p = Some n
        then mgr_tracked K qm n - {pod_uid p} else mgr_tracked K qm n)" by auto
  have "mgr_accounts K qm' = acc_release pod (mgr_accounts K qm)"
    using res(4) by (auto simp: Ptr acc_release_def fun_eq_iff queue_frame_nil [OF res(3)] mgr_accounts_def
        is_nil_iff split: option.split)
  with res Ptr show ?thesis by blast
qed

lemma fresh_tracked: "mgr_tracked K qm n = {}" if "Manager_GetByName qm n = Ptr (fresh_queue K n os)"
  using that by (cases os) (simp add: mgr_tracked_def quota_tracked_def Get_New dom_def)

lemma respec_tracked:
  "queue_quota q = Ptr quota \<Longrightarrow> Manager_GetByName qm n = Ptr (respec_queue os q) \<Longrightarrow>
     mgr_tracked K qm n = quota_tracked K quota"
  by (cases os) (simp add: mgr_tracked_def quota_tracked_def Quota_SetMax_def)

lemma Put_accounts:
  assumes "mgr_balanced K amount reqs qm" and "gm_wf mx"
  shows "\<exists>qm'. Manager_Put K n (spec_opts mx lbls cfg) qm = Some qm' \<and> mgr_balanced K amount reqs qm' \<and>
    mgr_accounts K qm' = (mgr_accounts K qm)(n \<mapsto> {})"
proof -
  obtain qm' where qm': "Manager_Put K n (spec_opts mx lbls cfg) qm = Some qm'" "mgr_balanced K amount reqs qm'"
    using Manager_Put_balanced [OF assms] by blast
  then have get: "Manager_GetByName qm' n' = (if n' = n then Ptr (fresh_queue K n (mx, lbls, cfg))
      else Manager_GetByName qm n')" for n'
    by (simp add: Put_spec GetByName_store)
  have "mgr_accounts K qm' = (mgr_accounts K qm)(n \<mapsto> {})"
    using get fresh_tracked [of qm' n "(mx, lbls, cfg)"]
    by (auto simp: fun_eq_iff mgr_accounts_def is_nil_def mgr_tracked_def)
  with qm' show ?thesis by blast
qed

lemma Update_accounts:
  assumes "mgr_balanced K amount reqs qm" and "gm_wf mx"
  shows "\<exists>qm'. Manager_Update K n (spec_opts mx lbls cfg) qm = Some qm' \<and> mgr_balanced K amount reqs qm' \<and>
    mgr_accounts K qm' = (mgr_accounts K qm)(n \<mapsto> mgr_tracked K qm n)"
proof -
  obtain qm' where qm': "Manager_Update K n (spec_opts mx lbls cfg) qm = Some qm'" "mgr_balanced K amount reqs qm'"
    using Manager_Update_balanced [OF assms] by blast
  then have get: "Manager_GetByName qm' n' = (if n' = n then Ptr (case Manager_GetByName qm n of
      NilP \<Rightarrow> fresh_queue K n (mx, lbls, cfg) | Ptr q \<Rightarrow> respec_queue (mx, lbls, cfg) q)
      else Manager_GetByName qm n')" for n'
    by (simp add: Update_spec GetByName_store)
  have "mgr_tracked K qm' n = mgr_tracked K qm n"
  proof (cases "Manager_GetByName qm n")
    case NilP
    with get [of n] fresh_tracked [of qm' n "(mx, lbls, cfg)"] show ?thesis
      by (simp add: mgr_tracked_def [of K qm])
  next
    case (Ptr q)
    from mgr_balancedD [OF assms(1) Ptr] obtain quota where "queue_quota q = Ptr quota" by metis
    with get [of n] respec_tracked [of q quota qm' n "(mx, lbls, cfg)"] mgr_tracked_queue [OF Ptr] Ptr
    show ?thesis by simp
  qed
  moreover have "mgr_tracked K qm' n' = mgr_tracked K qm n'" if "n' \<noteq> n" for n'
    using get [of n'] that by (simp add: mgr_tracked_def)
  ultimately have "mgr_accounts K qm' = (mgr_accounts K qm)(n \<mapsto> mgr_tracked K qm n)"
    using get by (auto simp: fun_eq_iff mgr_accounts_def is_nil_def)
  with qm' show ?thesis by blast
qed

text \<open>Every handler refines the abstract step.\<close>

lemma sync_step_refines:
  assumes "mgr_balanced K amount reqs qm" and "sync_event_ok K reqs ev"
  shows "\<exists>qm'. sync_step K ev qm = Some qm' \<and> mgr_balanced K amount reqs qm' \<and>
    mgr_accounts K qm' = acc_step ev (mgr_accounts K qm)"
proof (cases ev)
  case (QueueAdded obj)
  with assms(2) obtain q where "as_queue obj = Ptr q" by (auto elim: queue_objE)
  with Put_accounts [OF assms(1)] QueueAdded show ?thesis by (simp add: addQueue_eq)
next
  case (QueueUpdated oldObj newObj)
  with assms(2) obtain q where q: "as_queue newObj = Ptr q" by (auto elim: queue_objE)
  have "(mgr_accounts K qm)(qo_name q \<mapsto> mgr_tracked K qm (qo_name q)) = acc_step ev (mgr_accounts K qm)"
    by (auto simp: QueueUpdated q mgr_accounts_def is_nil_iff mgr_tracked_def)
  with Update_accounts [OF assms(1), of _ "qo_name q"] QueueUpdated q show ?thesis
    by (simp add: updateQueue_eq)
next
  case (QueueDeleted obj)
  with assms(2) obtain q where q: "as_queue obj = Ptr q" by (auto elim: queue_objE)
  have "mgr_accounts K (Manager_Delete n qm) = (mgr_accounts K qm)(n := None)" for n
    by (auto simp: mgr_accounts_def fun_eq_iff GetByName_delete mgr_tracked_def)
  with q QueueDeleted mgr_balanced_delete [OF assms(1)] show ?thesis by (simp add: sync_deleteQueue_def)
next
  case (PodAdded obj)
  with addPod_accounts [OF assms(1), of "as_pod obj"] assms(2) show ?thesis by (auto simp: sync_addPod_def)
next
  case (PodUpdated oldObj newObj)
  with deletePod_accounts [OF assms(1), of "as_pod newObj"] assms show ?thesis
    by (auto simp: sync_updatePod_def Let_def)
next
  case (PodDeleted obj)
  with deletePod_accounts [OF assms(1), of "as_pod obj"] assms(2) show ?thesis by (auto simp: sync_deletePod_def)
qed

lemma sync_run_refines:
  assumes "mgr_balanced K amount reqs qm" and "\<forall>ev \<in> set evs. sync_event_ok K reqs ev"
  shows "\<exists>qm'. for_each (sync_step K) evs qm = Some qm' \<and> mgr_balanced K amount reqs qm' \<and>
    mgr_accounts K qm' = fold acc_step evs (mgr_accounts K qm)"
  using assms
proof (induction evs arbitrary: qm)
  case (Cons ev evs)
  from sync_step_refines [OF Cons.prems(1), of ev] Cons.prems(2) obtain qm1 where
    qm1: "sync_step K ev qm = Some qm1" "mgr_balanced K amount reqs qm1"
      "mgr_accounts K qm1 = acc_step ev (mgr_accounts K qm)" by auto
  from Cons.IH [OF qm1(2)] Cons.prems(2) qm1 show ?case by auto
qed simp

lemma status_patch_result:
  assumes "mgr_balanced K amount reqs qm" and "Manager_GetByName qm n = Ptr q"
    and "gm_wf tot" and "tot \<noteq> NilP"
  shows "\<exists>st. status_patch K tot (Ptr q) = Some st \<and> status_right K amount reqs qm tot n st"
proof -
  from mgr_balancedD [OF assms(1,2)] obtain quota where
    quota: "queue_quota q = Ptr quota" "quota_balanced K amount reqs quota" by metis
  then have wf: "gm_wf (quota_used quota)" "gm_wf (quota_max quota)"
    by (simp_all add: quota_balanced_def quota_invar_def)
  from TakeMinExisting_result [OF assms(3) wf(2) assms(4)] obtain r' where
    r': "Resources_TakeMinExisting K tot (quota_max quota) = Some r'" "gm_wf r'"
      "\<forall>n. res_amount amount r' n = (if n \<in> gm_dom (quota_max quota)
        then min (res_amount amount tot n) (res_amount amount (quota_max quota) n)
        else res_amount amount tot n)" by blast
  then show ?thesis
    using quota quota_balanced_used [OF quota(2)] mgr_tracked_queue [OF assms(2) quota(1)]
    by (auto simp: status_patch_def status_right_def assms(2) Quota_Max_def Quota_Used_def ToResourceList_eq wf Let_def)
qed

end

section \<open>An example cluster\<close>

definition ref_queue :: "string \<Rightarrow> int \<Rightarrow> int queue_obj" where
  "ref_queue name cpu = \<lparr>qo_name = name, qo_labels = NilP,
     qo_spec = \<lparr>spec_quota = \<lparr>qs_max = Ptr [(''cpu'', cpu)]\<rparr>,
       spec_preemption = \<lparr>ps_preempts = PreemptionEverything, ps_preemptedBy = PreemptionEverything\<rparr>\<rparr>,
     qo_status = \<lparr>qst_effectiveMax = NilP, qst_used = NilP\<rparr>\<rparr>"

definition ref_events :: "int sync_event list" where
  "ref_events = [QueueAdded (AnyQueue (Ptr (ref_queue ''a'' 3000))), QueueAdded (AnyQueue (Ptr (ref_queue ''b'' 3000))),
     PodAdded (AnyPod (Ptr (ref_pod ''p1'' ''b'' 1 1000))), PodAdded (AnyPod (Ptr (ref_pod ''p2'' ''b'' 2 1000)))]"

definition ref_mgr :: "(int, ref_selector, ref_map) manager" where
  "ref_mgr = the (for_each (sync_step ref_kube) ref_events NewManager)"

definition ref_reqs :: "string \<Rightarrow> int resource_list" where
  "ref_reqs u = Ptr [(''cpu'', 1000)]"

lemma ref_pod_ok: "pod_ok ref_kube ref_reqs (ref_pod name queue prio 1000)"
  by (simp add: pod_ok_def ref_pod_requests_def ref_pod_def ref_reqs_def)

lemma ref_events_ok: "\<forall>ev \<in> set ref_events. sync_event_ok ref_kube ref_reqs ev"
  by (simp add: ref_events_def queue_obj_ok_def is_nil_def ref_pod_ok)

lemma ref_reqs_nonneg: "reqs_nonneg ref_amount ref_reqs"
  by (simp add: reqs_nonneg_def ref_reqs_def res_amount_def ref_amount_def)

lemma ref_mgr_run:
  "for_each (sync_step ref_kube) ref_events NewManager = Some ref_mgr"
  "mgr_balanced ref_kube ref_amount ref_reqs ref_mgr"
  using ref_laws.sync_run_refines [OF mgr_balanced_new ref_events_ok]
  by (auto simp: ref_mgr_def)

lemma mgr_tracked_accounts: "mgr_tracked K qm n = (case mgr_accounts K qm n of None \<Rightarrow> {} | Some S \<Rightarrow> S)"
  by (simp add: mgr_accounts_def mgr_tracked_def is_nil_def split: ptr.split)

lemma mgr_accounts_new: "mgr_accounts K NewManager = (\<lambda>n. None)"
  by (simp add: fun_eq_iff mgr_accounts_def Manager_GetByName_def NewManager_def is_nil_def)

lemma ref_mgr_accounts: "mgr_accounts ref_kube ref_mgr = [''a'' \<mapsto> {}, ''b'' \<mapsto> {''p1'', ''p2''}]"
proof -
  have "mgr_accounts ref_kube ref_mgr = fold acc_step ref_events (\<lambda>n. None)"
    using ref_laws.sync_run_refines [OF mgr_balanced_new ref_events_ok] ref_mgr_run(1) by (auto simp: mgr_accounts_new)
  then show ?thesis
    by (auto simp: ref_events_def ref_queue_def acc_count_def pod_queue_def ref_pod_def LabelKeyQueue_eq)
qed

section \<open>Properties\<close>



text \<open>
  Adding a queue that is already there starts its quota over: it counts no pod and uses
  nothing, although the pods counted before still run; the other queues keep their pods. Updating
  a queue keeps the pods it counts.
\<close>

theorem addQueue_forgets_updateQueue_keeps:
  assumes "kube_laws K amount" and "mgr_balanced K amount reqs qm"
  shows "\<exists>qm1 qm2. sync_addQueue K (AnyQueue (Ptr q)) qm = Some qm1 \<and>
    sync_updateQueue K old (AnyQueue (Ptr q)) qm = Some qm2 \<and>
    mgr_accounts K qm1 = (mgr_accounts K qm)(qo_name q \<mapsto> {}) \<and> (\<forall>r. mgr_used amount qm1 (qo_name q) r = 0) \<and>
    mgr_accounts K qm2 = (mgr_accounts K qm)(qo_name q \<mapsto> mgr_tracked K qm (qo_name q)) \<and>
    (\<forall>r. mgr_used amount qm2 (qo_name q) r = mgr_used amount qm (qo_name q) r)"
proof -
  let ?mx = "FromResourceList K (qs_max (spec_quota (qo_spec q)))"
  obtain qm1 where qm1: "sync_addQueue K (AnyQueue (Ptr q)) qm = Some qm1" "mgr_balanced K amount reqs qm1"
      "mgr_accounts K qm1 = (mgr_accounts K qm)(qo_name q \<mapsto> {})"
    using kube_laws.Put_accounts [OF assms, of ?mx "qo_name q"] by (fastforce simp: addQueue_eq)
  obtain qm2 where qm2: "sync_updateQueue K old (AnyQueue (Ptr q)) qm = Some qm2" "mgr_balanced K amount reqs qm2"
      "mgr_accounts K qm2 = (mgr_accounts K qm)(qo_name q \<mapsto> mgr_tracked K qm (qo_name q))"
    using kube_laws.Update_accounts [OF assms, of ?mx "qo_name q"] by (fastforce simp: updateQueue_eq)
  have "mgr_tracked K qm1 (qo_name q) = {}" "mgr_tracked K qm2 (qo_name q) = mgr_tracked K qm (qo_name q)"
    using fun_cong [OF qm1(3), of "qo_name q"] fun_cong [OF qm2(3), of "qo_name q"]
    by (auto simp: mgr_accounts_def split: if_splits)
  then show ?thesis
    using qm1 qm2 kube_laws.mgr_used_sum [OF assms(1)] assms(2) by auto
qed

theorem addQueue_forgets_updateQueue_keeps_witness:
  "\<exists>qm1 qm2. sync_addQueue ref_kube (AnyQueue (Ptr (ref_queue ''b'' 9000))) ref_mgr = Some qm1 \<and>
    sync_updateQueue ref_kube AnyOther (AnyQueue (Ptr (ref_queue ''b'' 9000))) ref_mgr = Some qm2 \<and>
    (\<forall>r. mgr_used ref_amount qm1 ''b'' r = 0) \<and>
    (\<forall>r. mgr_used ref_amount qm2 ''b'' r = mgr_used ref_amount ref_mgr ''b'' r)"
  using addQueue_forgets_updateQueue_keeps [OF ref_laws.kube_laws_axioms ref_mgr_run(2), of "ref_queue ''b'' 9000" AnyOther]
  by (auto simp: ref_queue_def)

text \<open>
  A pod that goes from Running to a phase that is neither terminal nor Pending or Running,
  such as Unknown, is no longer counted, although it has not ended; a change of its requests or
  labels while it stays Pending or Running is ignored.
\<close>

theorem updatePod_releases_unknown_phase:
  assumes "kube_laws K amount" and "mgr_balanced K amount reqs qm" and "pod_ok K reqs new"
    and "status_phase old = ''Running''" and "status_phase new = ''Unknown''" and "pod_queue new = Some n"
  shows "\<exists>qm'. sync_updatePod K (AnyPod (Ptr old)) (AnyPod (Ptr new)) qm = Some qm' \<and>
    mgr_tracked K qm' n = mgr_tracked K qm n - {pod_uid new} \<and>
    sync_updatePod K (AnyPod (Ptr old)) (AnyPod (Ptr (new\<lparr>status_phase := ''Running''\<rparr>))) qm = Some qm"
  using kube_laws.Manager_DeletePod_result [OF assms(1-3)] assms(4-)
  by (auto simp: sync_updatePod_def Let_def IsTerminal_def IsNonTerminal_def IsTerminalPhase_def IsNonTerminalPhase_def)

theorem updatePod_releases_unknown_phase_witness:
  "\<exists>qm'. sync_updatePod ref_kube (AnyPod (Ptr ((ref_pod ''p1'' ''b'' 1 1000)\<lparr>status_phase := ''Running''\<rparr>)))
      (AnyPod (Ptr ((ref_pod ''p1'' ''b'' 1 1000)\<lparr>status_phase := ''Unknown''\<rparr>))) ref_mgr = Some qm' \<and>
    mgr_tracked ref_kube qm' ''b'' = mgr_tracked ref_kube ref_mgr ''b'' - {''p1''}"
proof -
  let ?p = "(ref_pod ''p1'' ''b'' 1 1000)\<lparr>status_phase := ''Unknown''\<rparr>"
  have "pod_ok ref_kube ref_reqs ?p" "pod_queue ?p = Some ''b''" "pod_uid ?p = ''p1''"
    by (simp_all add: pod_ok_def ref_pod_requests_def ref_pod_def ref_reqs_def pod_queue_def LabelKeyQueue_eq)
  with updatePod_releases_unknown_phase [OF ref_laws.kube_laws_axioms ref_mgr_run(2),
      of ?p "(ref_pod ''p1'' ''b'' 1 1000)\<lparr>status_phase := ''Running''\<rparr>" "''b''"]
  show ?thesis by auto
qed

text \<open>
  C40. Tombstones are dropped: the filter lets the tombstone of a pod that had a node through to
  \<^verbatim>\<open>deletePod\<close>, which then does nothing, and \<^verbatim>\<open>deleteNode\<close> does nothing on the tombstone of a node.
  What the object counted stays counted.
\<close>

theorem tombstones_release_nothing:
  "pod_FilterFunc (DeletedFinalStateUnknown (AnyPod (Ptr p))) = Some (spec_nodeName p \<noteq> '''') \<and>
   sync_deletePod K (DeletedFinalStateUnknown obj) qm = Some qm \<and>
   tracker_deleteNode K (DeletedFinalStateUnknown obj) c = Some c"
  by (simp add: sync_deletePod_def Manager_DeletePodIfPresent_def tracker_deleteNode_def
      NodeAggregator_Delete_def deleteNoLock_def)

lemma status_round_body:
  assumes "kube_laws K amount" and "mgr_balanced K amount reqs qm" and "gm_wf tot" and "tot \<noteq> NilP"
    and "mgr_queueByName qm = Ptr es" and "set xs \<subseteq> set es"
    and "\<forall>(n, b) \<in> set acc. \<exists>st. marshal st = Some b \<and> status_right K amount reqs qm tot n st"
  shows "\<exists>patches. for_each (\<lambda>q patches. do {
          statusPatch \<leftarrow> status_patch K tot q;
          case marshal statusPatch of
            None \<Rightarrow> Some patches
          | Some patchBytes \<Rightarrow> Some (patches @ [(Queue_Name q, patchBytes)]) }) (map snd xs) acc = Some patches \<and>
    ((\<forall>st. marshal st \<noteq> None) \<longrightarrow> map fst patches = map fst acc @ map fst xs) \<and>
    (\<forall>(n, b) \<in> set patches. \<exists>st. marshal st = Some b \<and> status_right K amount reqs qm tot n st)"
  using assms(6,7)
proof (induction xs arbitrary: acc)
  case (Cons x xs)
  obtain n qp where x: "x = (n, qp)" by (cases x)
  have "gm_get (mgr_queueByName qm) n = Some qp"
    using Cons.prems(1) assms(2,5) x by (simp add: mgr_balanced_def gm_wf_Ptr)
  with assms(2) obtain q where q: "qp = Ptr q" "queue_balanced K amount reqs n q" "Manager_GetByName qm n = Ptr q"
    by (auto simp: mgr_balanced_def Manager_GetByName_def)
  then have name: "Queue_Name qp = n" by (simp add: queue_balanced_def)
  obtain st where st: "status_patch K tot qp = Some st" "status_right K amount reqs qm tot n st"
    using kube_laws.status_patch_result [OF assms(1,2) q(3) assms(3,4)] q(1) by blast
  show ?case
  proof (cases "marshal st")
    case None
    then show ?thesis using st(1) Cons.IH [of acc] Cons.prems x by auto
  next
    case (Some b)
    have "\<forall>(n, b) \<in> set (acc @ [(n, b)]). \<exists>st. marshal st = Some b \<and> status_right K amount reqs qm tot n st"
      using Some st(2) Cons.prems(2) by auto
    then show ?thesis using st(1) Some name Cons.IH [of "acc @ [(n, b)]"] Cons.prems(1) x by auto
  qed
qed simp

text \<open>
  C27. One round of \<^verbatim>\<open>statusUpdateLoop\<close> never panics and every patch it sends is right: it goes to an
  existing queue, its \<^verbatim>\<open>Used\<close> is the sum of the requests of the pods counted there, and its
  \<^verbatim>\<open>EffectiveMax\<close> is, on each resource, the smaller of the cluster's total and the queue's maximum
  if the queue has one for it, otherwise the total. If every patch can be marshalled, every queue
  gets one.
\<close>

theorem status_round_correct:
  assumes "kube_laws K amount" and "mgr_balanced K amount reqs qm" and "na_invar tr"
  shows "\<exists>patches. status_update_round K marshal tr qm = Some patches \<and>
    ((\<forall>st. marshal st \<noteq> None) \<longrightarrow> map fst patches = gm_keys (mgr_queueByName qm)) \<and>
    (\<forall>(n, b) \<in> set patches. \<exists>st. marshal st = Some b \<and> status_right K amount reqs qm (na_total tr) n st)"
proof -
  have tot: "gm_wf (na_total tr)" "na_total tr \<noteq> NilP" using assms(3) by (auto simp: na_invar_def)
  obtain es where es: "mgr_queueByName qm = Ptr es"
    using assms(2) by (cases "mgr_queueByName qm") (auto simp: mgr_balanced_def)
  from status_round_body [OF assms(1,2) tot es subset_refl, of "[]" marshal] show ?thesis
    using es kube_laws.Manager_Clone_eq [OF assms(1,2)]
      quantity.Clone_eq [OF kube_laws.axioms(1) [OF assms(1)] tot(1)]
    by (simp add: status_update_round_def Manager_QueueIter_def tracker_GetTotal_def NodeAggregator_GetTotal_def
        Let_def gm_keys_def)
qed

theorem status_round_correct_witness:
  "\<exists>patches. status_update_round ref_kube Some new_aggregator ref_mgr = Some patches \<and>
    map fst patches = gm_keys (mgr_queueByName ref_mgr) \<and>
    list_all (\<lambda>(n, b). status_right ref_kube ref_amount ref_reqs ref_mgr (na_total new_aggregator) n b) patches"
  using status_round_correct [OF ref_laws.kube_laws_axioms ref_mgr_run(2) na_invar_new, of Some]
  by (simp add: list_all_iff)

end
