(* ===== verification/RefFramework.thy ===== *)
theory RefFramework
  imports VictimSpec Synchronizer
begin

text \<open>
  A reference instance of the scheduling framework, on which its contract is shown to hold: a
  cycle state is an association list, a node is its name and its pods, the filters check that
  the node has room for one more pod, and the extensions run are those of this plugin. The
  example cluster has two queues and one node.
\<close>

type_synonym ref_data = "(int, ref_selector, ref_map, unit) state_data"
type_synonym ref_state = "(string \<times> ref_data) list"
type_synonym ref_node = "string \<times> int pod_info list"
type_synonym ref_handle = "(int, ref_selector, ref_map, unit, ref_state, ref_node) handle"

fun ref_remove :: "string \<Rightarrow> int pod_info list \<Rightarrow> int pod_info list option" where
  "ref_remove u [] = None"
| "ref_remove u (x # xs) = (if pod_uid (GetPod x) = u then Some xs else map_option (Cons x) (ref_remove u xs))"

definition ref_removePod :: "ref_node \<Rightarrow> int pod \<Rightarrow> string + ref_node" where
  "ref_removePod ni p = (case ref_remove (pod_uid p) (snd ni) of
     None \<Rightarrow> Inl ''no corresponding pod'' | Some xs \<Rightarrow> Inr (fst ni, xs))"

definition ref_run :: "('c \<times> status ptr) option \<Rightarrow> 'c \<Rightarrow> 'c \<times> status ptr" where
  "ref_run r c = (case r of None \<Rightarrow> (c, NewStatus Error [''panic'']) | Some x \<Rightarrow> x)"

definition ref_filter :: "nat \<Rightarrow> ref_node \<Rightarrow> status ptr" where
  "ref_filter cap ni = (if length (snd ni) < cap then NilP else NewStatus Unschedulable [''node is full''])"

text \<open>The handle without its extension runners, and with them.\<close>

definition ref_base :: "ref_node list \<Rightarrow> (string \<Rightarrow> int pod_info list) \<Rightarrow> nat \<Rightarrow> ref_handle" where
  "ref_base nodes nominated cap = \<lparr>
     cs_Read = (\<lambda>c k. case map_of c k of None \<Rightarrow> Inl ''not found'' | Some d \<Rightarrow> Inr d),
     cs_Write = (\<lambda>c k d. AList.update k d c),
     NodeInfos_List = Inr nodes,
     NodeInfos_Get = (\<lambda>name. case map_of nodes name of None \<Rightarrow> (NilP, Some ''node not found'') | Some ps \<Rightarrow> (Ptr (name, ps), None)),
     NominatedPodsForNode = nominated,
     ni_NodeName = fst, ni_GetPods = snd, ni_RemovePod = ref_removePod,
     ni_AddPodInfo = (\<lambda>ni x. (fst ni, snd ni @ [x])),
     RunPreFilterExtensionAddPod = (\<lambda>c p x ni. (c, NilP)),
     RunPreFilterExtensionRemovePod = (\<lambda>c p x ni. (c, NilP)),
     RunFilterPluginsWithNominatedPods = (\<lambda>c p ni. ref_filter cap ni),
     IsPodRunningPreemption = (\<lambda>u. False),
     st_AsError = (\<lambda>st. ''error''),
     st_AsStatus = (\<lambda>e. NewStatus Error [e]),
     fmt_State = (\<lambda>d. ''state'')\<rparr>"

definition ref_handle :: "ref_node list \<Rightarrow> (string \<Rightarrow> int pod_info list) \<Rightarrow> nat \<Rightarrow> ref_handle" where
  "ref_handle nodes nominated cap =
     (let B = ref_base nodes nominated cap in
      B\<lparr>RunPreFilterExtensionAddPod := (\<lambda>c p x ni. ref_run (AddPod ref_kube B c p x ni) c),
        RunPreFilterExtensionRemovePod := (\<lambda>c p x ni. ref_run (RemovePod ref_kube B c p x ni) c)\<rparr>)"

lemma ref_handle_sel [simp]:
  "cs_Read (ref_handle nodes nom cap) = (\<lambda>c k. case map_of c k of None \<Rightarrow> Inl ''not found'' | Some d \<Rightarrow> Inr d)"
  "cs_Write (ref_handle nodes nom cap) = (\<lambda>c k d. AList.update k d c)"
  "NodeInfos_List (ref_handle nodes nom cap) = Inr nodes"
  "NominatedPodsForNode (ref_handle nodes nom cap) = nom"
  "ni_NodeName (ref_handle nodes nom cap) = fst" "ni_GetPods (ref_handle nodes nom cap) = snd"
  "ni_RemovePod (ref_handle nodes nom cap) = ref_removePod"
  "ni_AddPodInfo (ref_handle nodes nom cap) = (\<lambda>ni x. (fst ni, snd ni @ [x]))"
  "RunFilterPluginsWithNominatedPods (ref_handle nodes nom cap) = (\<lambda>c p ni. ref_filter cap ni)"
  "st_AsStatus (ref_handle nodes nom cap) = (\<lambda>e. NewStatus Error [e])"
  "fmt_State (ref_handle nodes nom cap) = (\<lambda>d. ''state'')"
  by (simp_all add: ref_handle_def ref_base_def Let_def)

lemma extension_cong:
  assumes "cs_Read H = cs_Read H'" and "cs_Write H = cs_Write H'" and "fmt_State H = fmt_State H'"
  shows "AddPod K H = AddPod K H'" and "RemovePod K H = RemovePod K H'"
proof -
  have "ReadQueueSnapshot H = ReadQueueSnapshot H'" "set_snapshot H = set_snapshot H'"
    by (simp_all add: fun_eq_iff ReadQueueSnapshot_def ReadState_def set_snapshot_def WriteQueueSnapshot_def assms
        split: sum.split option.split)
  then show "AddPod K H = AddPod K H'" "RemovePod K H = RemovePod K H'"
    by (intro ext, simp only: AddPod_def RemovePod_def)+
qed

lemma ref_handle_run:
  "RunPreFilterExtensionAddPod (ref_handle nodes nom cap) c p x ni =
     ref_run (AddPod ref_kube (ref_handle nodes nom cap) c p x ni) c"
  "RunPreFilterExtensionRemovePod (ref_handle nodes nom cap) c p x ni =
     ref_run (RemovePod ref_kube (ref_handle nodes nom cap) c p x ni) c"
proof -
  have "cs_Read (ref_handle nodes nom cap) = cs_Read (ref_base nodes nom cap)"
    "cs_Write (ref_handle nodes nom cap) = cs_Write (ref_base nodes nom cap)"
    "fmt_State (ref_handle nodes nom cap) = fmt_State (ref_base nodes nom cap)"
    by (simp_all add: ref_base_def)
  note cong = extension_cong [OF this]
  show "RunPreFilterExtensionAddPod (ref_handle nodes nom cap) c p x ni =
      ref_run (AddPod ref_kube (ref_handle nodes nom cap) c p x ni) c"
    by (simp add: cong) (simp add: ref_handle_def Let_def)
  show "RunPreFilterExtensionRemovePod (ref_handle nodes nom cap) c p x ni =
      ref_run (RemovePod ref_kube (ref_handle nodes nom cap) c p x ni) c"
    by (simp add: cong) (simp add: ref_handle_def Let_def)
qed

lemma length_ref_remove: "ref_remove u xs = Some ys \<Longrightarrow> length xs = Suc (length ys)"
  by (induction xs arbitrary: ys) (auto split: if_splits)

interpretation ref_cycle: cycle_state "ref_handle nodes nom cap" for nodes nom cap
  by unfold_locales (simp_all add: update_conv')

interpretation ref_framework: framework ref_kube ref_amount "ref_handle nodes nom cap"
  "\<lambda>st. length (snd (snd st))" "\<lambda>x. Suc" "\<lambda>pod v. v < cap" for nodes nom cap
proof unfold_locales
  fix c c' c1 :: ref_state and pod x and ni :: ref_node and st st1
  assume "RunPreFilterExtensionAddPod (ref_handle nodes nom cap) c pod x ni = (c', st)"
    and "AddPod ref_kube (ref_handle nodes nom cap) c pod x ni = Some (c1, st1)"
  then show "ReadQueueSnapshot (ref_handle nodes nom cap) c' = ReadQueueSnapshot (ref_handle nodes nom cap) c1"
    by (simp add: ref_handle_run ref_run_def)
next
  fix c c' c1 :: ref_state and pod x and ni :: ref_node and st st1
  assume "RunPreFilterExtensionRemovePod (ref_handle nodes nom cap) c pod x ni = (c', st)"
    and "RemovePod ref_kube (ref_handle nodes nom cap) c pod x ni = Some (c1, st1)"
  then show "ReadQueueSnapshot (ref_handle nodes nom cap) c' = ReadQueueSnapshot (ref_handle nodes nom cap) c1"
    by (simp add: ref_handle_run ref_run_def)
next
  fix pod x and s s' :: "ref_state \<times> ref_node"
  assume "sim_addPod (ref_handle nodes nom cap) pod x s = Inr s'"
  then show "length (snd (snd s')) = Suc (length (snd (snd s)))"
    by (cases s) (auto simp: Let_def split: prod.splits if_splits)
next
  fix pod x and s s1 s2 :: "ref_state \<times> ref_node"
  assume "sim_addPod (ref_handle nodes nom cap) pod x s = Inr s1" "sim_removePod (ref_handle nodes nom cap) pod x s1 = Inr s2"
  then show "length (snd (snd s2)) = length (snd (snd s))"
    by (cases s; cases s1) (auto simp: Let_def ref_removePod_def dest: length_ref_remove
        split: prod.splits if_splits option.splits sum.splits)
qed (simp add: ref_filter_def)

section \<open>The example cluster\<close>

definition ref_cluster_node :: ref_node where
  "ref_cluster_node = (''node'', [PodInfo (ref_pod ''p1'' ''b'' 1 1000), PodInfo (ref_pod ''p2'' ''b'' 2 1000)])"

definition ref_fh :: ref_handle where
  "ref_fh = ref_handle [ref_cluster_node] (\<lambda>_. []) 2"

definition ref_preemptor :: "int pod" where
  "ref_preemptor = ref_pod ''p3'' ''a'' 10 1000"

end
