(* ===== verification/PluginProps.thy ===== *)
theory PluginProps
  imports RefFramework
begin

text \<open>
  Properties of the plugin's extension points and of the eligibility check, and examples of them on
  the reference cluster.
\<close>

definition ref_plugin :: "(int, ref_selector, ref_map) plugin" where
  "ref_plugin = \<lparr>plugin_queueMgr = ref_mgr, plugin_EnableAsyncPreemption = False, plugin_MaxCandidateNodes = NilP\<rparr>"

definition ref_pod_b :: "int pod" where
  "ref_pod_b = ref_pod ''p4'' ''b'' 1 1000"

definition ref_snap :: ref_state where
  "ref_snap = set_snapshot ref_fh [] ref_mgr"

definition queue_lets_preempt :: "('q, 's, 'm) kube \<Rightarrow> ('q, 's, 'm) queue \<Rightarrow> 'q pod \<Rightarrow> bool" where
  "queue_lets_preempt K q pod = (case (pr_FromPods (pc_Preempts (queue_preemptionCfg q)), pr_ToPods (pc_Preempts (queue_preemptionCfg q))) of
     (Ptr f, Ptr t) \<Rightarrow> sel_Matches K f (pod_labels pod)
   | _ \<Rightarrow> False)"

section \<open>The example\<close>

lemma ref_queue_b: "\<exists>q. Manager_GetByName ref_mgr ''b'' = Ptr q \<and> Quota_Max (queue_quota q) = Ptr [(''cpu'', 3000)]"
proof -
  have "Quota_Max (Queue_Quota (Manager_GetByName ref_mgr ''b'')) = Ptr [(''cpu'', 3000)]" by code_simp
  moreover have "\<not> is_nil (Manager_GetByName ref_mgr ''b'')" by code_simp
  ultimately show ?thesis by (cases "Manager_GetByName ref_mgr ''b''") (auto simp: is_nil_def)
qed

lemma ref_queue_a: "\<exists>q. Manager_GetByName ref_mgr ''a'' = Ptr q \<and> Quota_Max (queue_quota q) = Ptr [(''cpu'', 3000)]"
proof -
  have "Quota_Max (Queue_Quota (Manager_GetByName ref_mgr ''a'')) = Ptr [(''cpu'', 3000)]" by code_simp
  moreover have "\<not> is_nil (Manager_GetByName ref_mgr ''a'')" by code_simp
  ultimately show ?thesis by (cases "Manager_GetByName ref_mgr ''a''") (auto simp: is_nil_def)
qed

lemma ref_max_nonneg: "max_nonneg ref_amount (Ptr [(''cpu'', 3000)])"
  by (simp add: max_nonneg_def gm_dom_def gm_keys_def res_amount_def ref_amount_def)

lemma ref_pod_queue: "pod_queue (ref_pod name queue prio cpu) = Some queue"
  by (simp add: pod_queue_def ref_pod_def LabelKeyQueue_eq)

lemma ref_fh_facts:
  "nominated_ok ref_kube ref_fh ref_reqs" "NodeInfos_List ref_fh = Inr [ref_cluster_node]"
  "ReadQueueSnapshot ref_fh ref_snap = Inr \<lparr>qss_QueueMgr = ref_mgr\<rparr>" "cycle_state ref_fh"
  "NodeInfos_Get ref_fh ''node'' = (Ptr ref_cluster_node, None)"
proof -
  show "cycle_state ref_fh" unfolding ref_fh_def by (rule ref_cycle.cycle_state_axioms)
  then show "ReadQueueSnapshot ref_fh ref_snap = Inr \<lparr>qss_QueueMgr = ref_mgr\<rparr>"
    unfolding ref_snap_def by (rule cycle_state.Read_set_snapshot)
qed (simp_all add: ref_fh_def nominated_ok_def nominated_pods_def ref_cluster_node_def ref_handle_def ref_base_def Let_def)

lemma ref_mgr_balanced: "mgr_balanced ref_kube ref_amount ref_reqs (plugin_queueMgr ref_plugin)"
  by (simp add: ref_plugin_def ref_mgr_run)

section \<open>PreFilter\<close>

text \<open>
  C3. For a pod of an existing queue whose maximum is not negative, \<^verbatim>\<open>PreFilter\<close> stores a snapshot in
  the cycle state that counts, besides the pods the queue counts, exactly the nominated pods of the
  same queue that are ahead of the pod, and changes nothing else; it answers Success if these pods
  and the request together fit the queue's maximum, otherwise Unschedulable.
\<close>

theorem PreFilter_decides:
  assumes "kube_laws K amount" and "cycle_state H" and "mgr_balanced K amount reqs (plugin_queueMgr P)"
    and "nominated_ok K H reqs" and "pod_queue pod = Some n" and "Manager_GetByName (plugin_queueMgr P) n = Ptr q"
    and "NodeInfos_List H = Inr nodes" and "max_nonneg amount (Quota_Max (queue_quota q))"
  shows "\<exists>c' st snap. PreFilter K H P c pod = Some (c', st) \<and> ReadQueueSnapshot H c' = Inr \<lparr>qss_QueueMgr = snap\<rparr> \<and>
    queue_frame (plugin_queueMgr P) snap \<and>
    (\<forall>n'. mgr_tracked K snap n' = mgr_tracked K (plugin_queueMgr P) n' \<union> (if n' = n then uids_ahead K H pod else {})) \<and>
    status_Code st = (if fits_max amount reqs (Quota_Max (queue_quota q))
      (mgr_tracked K (plugin_queueMgr P) n \<union> uids_ahead K H pod) (pod_req K amount pod) then Success else Unschedulable)"
  using kube_laws.PreFilter_result [OF assms(1,3-)] cycle_state.Read_set_snapshot [OF assms(2)] by blast

theorem PreFilter_decides_witness:
  "\<exists>q c' st snap. Manager_GetByName ref_mgr ''b'' = Ptr q \<and>
    PreFilter ref_kube ref_fh ref_plugin [] ref_pod_b = Some (c', st) \<and>
    ReadQueueSnapshot ref_fh c' = Inr \<lparr>qss_QueueMgr = snap\<rparr> \<and>
    status_Code st = (if fits_max ref_amount ref_reqs (Ptr [(''cpu'', 3000)])
      (mgr_tracked ref_kube ref_mgr ''b'' \<union> uids_ahead ref_kube ref_fh ref_pod_b) (pod_req ref_kube ref_amount ref_pod_b)
      then Success else Unschedulable)"
proof -
  obtain q where q: "Manager_GetByName ref_mgr ''b'' = Ptr q" "Quota_Max (queue_quota q) = Ptr [(''cpu'', 3000)]"
    using ref_queue_b by blast
  then have "Manager_GetByName (plugin_queueMgr ref_plugin) ''b'' = Ptr q" by (simp add: ref_plugin_def)
  moreover have "pod_queue ref_pod_b = Some ''b''" by (simp add: ref_pod_b_def ref_pod_queue)
  ultimately show ?thesis
    using PreFilter_decides [OF ref_laws.kube_laws_axioms ref_fh_facts(4) ref_mgr_balanced ref_fh_facts(1) _ _ ref_fh_facts(2),
        of ref_pod_b "''b''" q "[]"] q ref_max_nonneg by (auto simp: ref_plugin_def)
qed

text \<open>
  The other branches of \<^verbatim>\<open>PreFilter\<close>: a pod without a queue, or with the label of a queue that
  does not exist, always passes; if the node list cannot be read, a pod with a queue gets an Error.
  In both cases the snapshot left in the cycle state is the plugin's manager as it is.
\<close>

theorem PreFilter_other_branches:
  assumes "kube_laws K amount" and "cycle_state H" and "mgr_balanced K amount reqs (plugin_queueMgr P)"
    and "Manager_Get (plugin_queueMgr P) (Ptr pod) = NilP \<or> NodeInfos_List H = Inl err"
  shows "\<exists>c' st. PreFilter K H P c pod = Some (c', st) \<and>
    ReadQueueSnapshot H c' = Inr \<lparr>qss_QueueMgr = plugin_queueMgr P\<rparr> \<and>
    status_Code st = (if Manager_Get (plugin_queueMgr P) (Ptr pod) = NilP then Success else Error)"
proof (cases "Manager_Get (plugin_queueMgr P) (Ptr pod) = NilP")
  case True
  then show ?thesis
    by (simp add: kube_laws.PreFilter_no_queue [OF assms(1,3)] cycle_state.Read_set_snapshot [OF assms(2)])
next
  case False
  with assms(4) have "NodeInfos_List H = Inl err" by simp
  from kube_laws.PreFilter_list_error [OF assms(1,3) False this] False show ?thesis
    by (simp add: cycle_state.Read_set_snapshot [OF assms(2)])
qed

theorem PreFilter_other_branches_witness:
  "\<exists>c' st. PreFilter ref_kube ref_fh ref_plugin [] (ref_pod ''p5'' ''none'' 1 1000) = Some (c', st) \<and>
    ReadQueueSnapshot ref_fh c' = Inr \<lparr>qss_QueueMgr = ref_mgr\<rparr> \<and> status_Code st = Success"
proof -
  have "is_nil (Manager_Get ref_mgr (Ptr (ref_pod ''p5'' ''none'' 1 1000)))" by code_simp
  then have "Manager_Get (plugin_queueMgr ref_plugin) (Ptr (ref_pod ''p5'' ''none'' 1 1000)) = NilP"
    by (simp add: is_nil_iff ref_plugin_def)
  with PreFilter_other_branches [OF ref_laws.kube_laws_axioms ref_fh_facts(4) ref_mgr_balanced disjI1 [OF this], of "[]"]
  show ?thesis by (simp add: ref_plugin_def)
qed

section \<open>Snapshots\<close>

text \<open>
  Cloning loses nothing: a clone of the manager, the snapshot a cycle starts from, and the
  clone of a snapshot that the framework takes for every node it simulates on are all equal to the
  manager: every queue with its name, maximum, usage, counted pods, labels and configuration.
\<close>

theorem snapshot_is_equal:
  assumes "kube_laws K amount" and "mgr_balanced K amount reqs qm"
  shows "Manager_Clone K qm = qm \<and> NewQueueSnapshotState K (Ptr qm) = \<lparr>qss_QueueMgr = qm\<rparr> \<and>
    QueueSnapshotState_Clone K (NewQueueSnapshotState K (Ptr qm)) = \<lparr>qss_QueueMgr = qm\<rparr>"
  using kube_laws.Manager_Clone_eq [OF assms] by (simp add: NewQueueSnapshotState_def QueueSnapshotState_Clone_def)

theorem snapshot_is_equal_witness:
  "Manager_Clone ref_kube ref_mgr = ref_mgr \<and> NewQueueSnapshotState ref_kube (Ptr ref_mgr) = \<lparr>qss_QueueMgr = ref_mgr\<rparr>"
  using snapshot_is_equal [OF ref_laws.kube_laws_axioms ref_mgr_run(2)] by blast

text \<open>
  C25. The extensions of \<^verbatim>\<open>PreFilter\<close> are inverse to each other: adding a pod to a cycle's snapshot
  that does not count it, and removing it again, succeeds and restores which pods every queue
  counts and what it uses.
\<close>

theorem AddPod_RemovePod_roundtrip:
  assumes "kube_laws K amount" and "cycle_state H" and "ReadQueueSnapshot H c = Inr \<lparr>qss_QueueMgr = qm\<rparr>"
    and "mgr_balanced K amount reqs qm" and "pod_ok K reqs (GetPod x)"
    and "pod_queue (GetPod x) = Some n0" and "pod_uid (GetPod x) \<notin> mgr_tracked K qm n0"
  shows "\<exists>c1 st1 c2 st2 qm2. AddPod K H c pod x ni = Some (c1, st1) \<and> status_IsSuccess st1 \<and>
    RemovePod K H c1 pod x ni = Some (c2, st2) \<and> status_IsSuccess st2 \<and>
    ReadQueueSnapshot H c2 = Inr \<lparr>qss_QueueMgr = qm2\<rparr> \<and>
    (\<forall>n. mgr_tracked K qm2 n = mgr_tracked K qm n) \<and> (\<forall>n r. mgr_used amount qm2 n r = mgr_used amount qm n r)"
proof -
  obtain c1 qm1 err1 where c1: "AddPod K H c pod x ni = Some (c1, NewStatus Success [''''])"
      "ReadQueueSnapshot H c1 = Inr \<lparr>qss_QueueMgr = qm1\<rparr>"
      "Manager_AddPodIfNotPresent K (Ptr (GetPod x)) qm = Some (qm1, err1)"
    using kube_laws.AddPod_result [OF assms(1-5)] by blast
  have qm1: "mgr_balanced K amount reqs qm1" "\<forall>n. mgr_tracked K qm1 n = (if pod_queue (GetPod x) = Some n \<and>
      Manager_GetByName qm n \<noteq> NilP then insert (pod_uid (GetPod x)) (mgr_tracked K qm n) else mgr_tracked K qm n)"
    using kube_laws.Manager_AddPod_result [OF assms(1,4,5)] c1(3) by auto
  obtain c2 qm2 err2 where c2: "RemovePod K H c1 pod x ni = Some (c2, NewStatus Success [''''])"
      "ReadQueueSnapshot H c2 = Inr \<lparr>qss_QueueMgr = qm2\<rparr>"
      "Manager_DeletePodIfPresent K (Ptr (GetPod x)) qm1 = Some (qm2, err2)"
    using kube_laws.RemovePod_result [OF assms(1,2) c1(2) qm1(1) assms(5)] by blast
  have qm2: "mgr_balanced K amount reqs qm2" "\<forall>n. mgr_tracked K qm2 n = (if pod_queue (GetPod x) = Some n
      then mgr_tracked K qm1 n - {pod_uid (GetPod x)} else mgr_tracked K qm1 n)"
    using kube_laws.Manager_DeletePod_result [OF assms(1) qm1(1) assms(5)] c2(3) by auto
  have tr: "mgr_tracked K qm2 n = mgr_tracked K qm n" for n
    using qm1(2) qm2(2) assms(6,7) by auto
  then have "mgr_used amount qm2 n r = mgr_used amount qm n r" for n r
    using kube_laws.mgr_used_sum [OF assms(1)] assms(4) qm2(1) by simp
  with tr c1 c2 show ?thesis by auto
qed

theorem AddPod_RemovePod_roundtrip_witness:
  "\<exists>c1 st1 c2 st2 qm2. AddPod ref_kube ref_fh ref_snap ref_preemptor (PodInfo ref_pod_b) ref_cluster_node = Some (c1, st1) \<and>
    RemovePod ref_kube ref_fh c1 ref_preemptor (PodInfo ref_pod_b) ref_cluster_node = Some (c2, st2) \<and>
    ReadQueueSnapshot ref_fh c2 = Inr \<lparr>qss_QueueMgr = qm2\<rparr> \<and>
    (\<forall>n. mgr_tracked ref_kube qm2 n = mgr_tracked ref_kube ref_mgr n)"
proof -
  have b: "pod_ok ref_kube ref_reqs (GetPod (PodInfo ref_pod_b))" "pod_queue (GetPod (PodInfo ref_pod_b)) = Some ''b''"
      "pod_uid (GetPod (PodInfo ref_pod_b)) \<notin> mgr_tracked ref_kube ref_mgr ''b''"
    by (simp_all add: mgr_tracked_accounts ref_mgr_accounts ref_pod_b_def ref_pod_ok ref_pod_queue) (simp add: ref_pod_def)
  show ?thesis
    using AddPod_RemovePod_roundtrip [OF ref_laws.kube_laws_axioms ref_fh_facts(4,3) ref_mgr_run(2) b,
        of ref_preemptor ref_cluster_node] by blast
qed

section \<open>Reserve and Unreserve\<close>

text \<open>
  C26. \<^verbatim>\<open>Unreserve\<close> undoes \<^verbatim>\<open>Reserve\<close>: reserving a pod that its queue does not count and unreserving it
  again restores which pods every queue counts and what it uses. \<^verbatim>\<open>Reserve\<close> fails exactly when the
  pod's label names a queue that does not exist, and it then changes nothing.
\<close>

theorem Reserve_Unreserve_roundtrip:
  assumes "kube_laws K amount" and "mgr_balanced K amount reqs (plugin_queueMgr P)" and "pod_ok K reqs pod"
    and "pod_queue pod = Some n0" and "pod_uid pod \<notin> mgr_tracked K (plugin_queueMgr P) n0"
  shows "\<exists>P1 st P2. Reserve K pod P = Some (P1, st) \<and> Unreserve K pod P1 = Some P2 \<and>
    (\<not> status_IsSuccess st \<longleftrightarrow> Manager_GetByName (plugin_queueMgr P) n0 = NilP) \<and>
    (\<forall>n. mgr_tracked K (plugin_queueMgr P2) n = mgr_tracked K (plugin_queueMgr P) n) \<and>
    (\<forall>n r. mgr_used amount (plugin_queueMgr P2) n r = mgr_used amount (plugin_queueMgr P) n r)"
proof -
  let ?qm = "plugin_queueMgr P"
  obtain qm1 err1 where qm1: "Manager_AddPodIfNotPresent K (Ptr pod) ?qm = Some (qm1, err1)"
      "mgr_balanced K amount reqs qm1" "\<forall>n. mgr_tracked K qm1 n = (if pod_queue pod = Some n \<and>
        Manager_GetByName ?qm n \<noteq> NilP then insert (pod_uid pod) (mgr_tracked K ?qm n) else mgr_tracked K ?qm n)"
      "err1 = (case pod_queue pod of None \<Rightarrow> None
        | Some n \<Rightarrow> if Manager_GetByName ?qm n = NilP then Some (ErrAddPodToQuota n) else None)"
    using kube_laws.Manager_AddPod_result [OF assms(1-3)] by blast
  obtain qm2 err2 where qm2: "Manager_DeletePodIfPresent K (Ptr pod) qm1 = Some (qm2, err2)"
      "mgr_balanced K amount reqs qm2" "\<forall>n. mgr_tracked K qm2 n = (if pod_queue pod = Some n
        then mgr_tracked K qm1 n - {pod_uid pod} else mgr_tracked K qm1 n)"
    using kube_laws.Manager_DeletePod_result [OF assms(1) qm1(2) assms(3)] by blast
  have tr: "mgr_tracked K qm2 n = mgr_tracked K ?qm n" for n
    using qm1(3) qm2(3) assms(4,5) by auto
  then have "mgr_used amount qm2 n r = mgr_used amount ?qm n r" for n r
    using kube_laws.mgr_used_sum [OF assms(1)] assms(2) qm2(2) by simp
  with tr qm1(1,4) qm2(1) assms(4) show ?thesis
    by (simp add: Reserve_def Unreserve_def)
qed

theorem Reserve_Unreserve_roundtrip_witness:
  "\<exists>P1 st P2. Reserve ref_kube ref_pod_b ref_plugin = Some (P1, st) \<and> Unreserve ref_kube ref_pod_b P1 = Some P2 \<and>
    (\<forall>n r. mgr_used ref_amount (plugin_queueMgr P2) n r = mgr_used ref_amount ref_mgr n r)"
proof -
  have b: "pod_ok ref_kube ref_reqs ref_pod_b" "pod_queue ref_pod_b = Some ''b''"
      "pod_uid ref_pod_b \<notin> mgr_tracked ref_kube (plugin_queueMgr ref_plugin) ''b''"
    by (simp_all add: mgr_tracked_accounts ref_mgr_accounts ref_plugin_def ref_pod_b_def ref_pod_ok ref_pod_queue)
      (simp add: ref_pod_def)
  from Reserve_Unreserve_roundtrip [OF ref_laws.kube_laws_axioms ref_mgr_balanced b] show ?thesis
    by (simp add: ref_plugin_def) blast
qed

section \<open>Eligibility\<close>

text \<open>
  C15. A pod of a queue is eligible to preempt exactly when its preemption policy and its queue's
  rule let it preempt, and it has no nomination, or the nominated node has become unresolvable, or
  the nominated node is known and none of its pods is a pending victim: one being deleted by a
  preemption, of lower priority, that its queue lets be preempted, and that either shares the pod's
  queue or is enough to wait for since the pod fits its quota. The check does not panic.
\<close>

theorem eligibility_correct:
  assumes "kube_laws K amount" and "ReadQueueSnapshot H (pre_cycleState p) = Inr \<lparr>qss_QueueMgr = qm\<rparr>"
    and "mgr_balanced K amount reqs qm" and "pod_queue pod = Some n" and "Manager_GetByName qm n = Ptr q"
    and "max_nonneg amount (Quota_Max (queue_quota q))"
  shows "map_option fst (PodEligibleToPreemptOthers K H p pod st) =
    Some (PolicyAllowsPreemption (Ptr pod) \<and> queue_lets_preempt K q pod \<and>
      (status_nominatedNodeName pod = '''' \<or> status_Code st = UnschedulableAndUnresolvable \<or>
       (\<exists>ni. NodeInfos_Get H (status_nominatedNodeName pod) = (Ptr ni, None) \<and>
         (\<forall>v \<in> GetPod ` set (ni_GetPods H ni). \<not> pending_victim K qm pod
           (fits_max amount reqs (Quota_Max (queue_quota q)) (mgr_tracked K qm n) (pod_req K amount pod)) v))))"
proof -
  obtain pe where pe: "NewPreemptionEvaluator K qm (Ptr pod) = Some pe" by (simp add: NewPreemptionEvaluator_def)
  have can: "CanPodPreemptOthers K pe = Some (queue_lets_preempt K q pod)"
    using CanPodPreemptOthers_eq [OF pe] assms(4,5) by (simp add: Manager_Get_queue queue_lets_preempt_def)
  have node: "\<exists>msg. eligible_on_nominated_node K H qm pod ni = Some (\<forall>v \<in> GetPod ` set (ni_GetPods H ni).
      \<not> pending_victim K qm pod (fits_max amount reqs (Quota_Max (queue_quota q)) (mgr_tracked K qm n) (pod_req K amount pod)) v, msg)" for ni
    using kube_laws.eligible_on_nominated_node_eq [OF assms(1,3-6), of H ni]
    by (cases "eligible_on_nominated_node K H qm pod ni") auto
  obtain nip err where get: "NodeInfos_Get H (status_nominatedNodeName pod) = (nip, err)" by fastforce
  show ?thesis
  proof (cases "nip = NilP \<or> err \<noteq> None")
    case True
    then show ?thesis
      using assms(2) pe can get by (auto simp: PodEligibleToPreemptOthers_def split: ptr.split option.split)
  next
    case False
    then obtain ni where ni: "nip = Ptr ni" "err = None" by (cases nip) auto
    from node [of ni] obtain msg where "eligible_on_nominated_node K H qm pod ni = Some (\<forall>v \<in> GetPod ` set (ni_GetPods H ni).
      \<not> pending_victim K qm pod (fits_max amount reqs (Quota_Max (queue_quota q)) (mgr_tracked K qm n) (pod_req K amount pod)) v, msg)" ..
    then show ?thesis
      using assms(2) pe can get ni by (simp add: PodEligibleToPreemptOthers_def)
  qed
qed

theorem eligibility_correct_witness:
  "\<exists>q. Manager_GetByName ref_mgr ''a'' = Ptr q \<and>
    map_option fst (PodEligibleToPreemptOthers ref_kube ref_fh \<lparr>pre_cycleState = ref_snap, pre_MaxCandidateNodes = NilP\<rparr>
      ref_preemptor NilP) = Some (queue_lets_preempt ref_kube q ref_preemptor)"
proof -
  obtain q where q: "Manager_GetByName ref_mgr ''a'' = Ptr q" "Quota_Max (queue_quota q) = Ptr [(''cpu'', 3000)]"
    using ref_queue_a by blast
  have a: "pod_queue ref_preemptor = Some ''a''" "status_nominatedNodeName ref_preemptor = ''''"
      "PolicyAllowsPreemption (Ptr ref_preemptor)"
    by (simp_all add: ref_preemptor_def ref_pod_queue) (simp_all add: ref_pod_def PolicyAllowsPreemption_def)
  have "ReadQueueSnapshot ref_fh (pre_cycleState \<lparr>pre_cycleState = ref_snap, pre_MaxCandidateNodes = NilP\<rparr>) =
      Inr \<lparr>qss_QueueMgr = ref_mgr\<rparr>" using ref_fh_facts(3) by simp
  from eligibility_correct [OF ref_laws.kube_laws_axioms this ref_mgr_run(2) a(1) q(1), of NilP] q ref_max_nonneg a(2,3)
  show ?thesis by auto
qed

text \<open>
  A pod without a queue is never eligible to preempt, whatever its priority: the check ends
  before the path for pods without a queue is reached, which is therefore dead code.
\<close>

theorem no_queue_never_eligible:
  assumes "ReadQueueSnapshot H (pre_cycleState p) = Inr s" and "Manager_Get (qss_QueueMgr s) (Ptr pod) = NilP"
  shows "\<exists>msg. PodEligibleToPreemptOthers K H p pod st = Some (False, msg)"
  using assms by (auto simp: PodEligibleToPreemptOthers_def NewPreemptionEvaluator_def CanPodPreemptOthers_def)

theorem no_queue_never_eligible_witness:
  "\<exists>msg. PodEligibleToPreemptOthers ref_kube ref_fh \<lparr>pre_cycleState = ref_snap, pre_MaxCandidateNodes = NilP\<rparr>
    (ref_pod ''p5'' ''none'' 1000 1000) NilP = Some (False, msg)"
proof -
  have "is_nil (Manager_Get ref_mgr (Ptr (ref_pod ''p5'' ''none'' 1000 1000)))" by code_simp
  then show ?thesis
    by (intro no_queue_never_eligible [where s = "\<lparr>qss_QueueMgr = ref_mgr\<rparr>"]) (simp_all add: ref_fh_facts is_nil_iff)
qed

text \<open>
  C37. The number of candidate nodes is always at least 1, never more than the number of nodes
  (or 1), and never more than the configured maximum (or 1).
\<close>

theorem numCandidates_within_bounds:
  "1 \<le> sint (snd (GetOffsetAndNumCandidates r p nodes)) \<and>
   sint (snd (GetOffsetAndNumCandidates r p nodes)) \<le> max 1 (sint nodes) \<and>
   (case pre_MaxCandidateNodes p of NilP \<Rightarrow> True
    | Ptr mx \<Rightarrow> sint (snd (GetOffsetAndNumCandidates r p nodes)) \<le> max 1 (sint mx))"
  using numCandidates_bounds [of r p nodes] by (auto split: ptr.split simp: prod_eq_iff)

text \<open>
  C36. When the cycle state has no queue snapshot, or something else under its key, nothing panics
  and nothing is decided: the extensions answer Error and leave the state, the pod is not eligible
  to preempt, and victim selection answers Unschedulable without victims.
\<close>

theorem missing_snapshot_is_reported:
  assumes "ReadQueueSnapshot H c = Inl e"
  shows "(\<exists>st. AddPod K H c pod x ni = Some (c, st) \<and> status_Code st = Error) \<and>
    (\<exists>st. RemovePod K H c pod x ni = Some (c, st) \<and> status_Code st = Error) \<and>
    (\<exists>msg. PodEligibleToPreemptOthers K H \<lparr>pre_cycleState = c, pre_MaxCandidateNodes = mx\<rparr> pod nst = Some (False, msg)) \<and>
    (\<exists>st. SelectVictimsOnNode K H c pod ni pdbs = Some ([], 0, st) \<and> status_Code st = Unschedulable)"
  using assms by (simp add: AddPod_def RemovePod_def PodEligibleToPreemptOthers_def SelectVictimsOnNode_def)

theorem missing_snapshot_is_reported_witness:
  "\<exists>st. SelectVictimsOnNode ref_kube ref_fh [(stateKeyQueueSnapshot, OtherState ())] ref_preemptor ref_cluster_node [] =
    Some ([], 0, st) \<and> status_Code st = Unschedulable"
proof -
  have "ReadQueueSnapshot ref_fh [(stateKeyQueueSnapshot, OtherState ())] = Inl (ErrReadConvert ''state'' ''*quotaawarepreempt.QueueSnapshotState'')"
    by (simp add: ReadQueueSnapshot_def ReadState_def ref_fh_def)
  from missing_snapshot_is_reported [OF this] show ?thesis by blast
qed

text \<open>
  \<^verbatim>\<open>GetPodIDsOnNode\<close> returns exactly the identifiers of the pods on the node, or an error if the
  node cannot be looked up or is nil.
\<close>

theorem GetPodIDsOnNode_correct:
  "case GetPodIDsOnNode H name of
     Inl e \<Rightarrow> \<nexists>ni. NodeInfos_Get H name = (Ptr ni, None)
   | Inr ids \<Rightarrow> \<exists>ni. NodeInfos_Get H name = (Ptr ni, None) \<and>
       gm_dom ids = {pod_uid (GetPod x) | x. x \<in> set (ni_GetPods H ni)}"
proof (cases "GetPodIDsOnNode H name")
  case (Inl e)
  then show ?thesis by (auto simp: GetPodIDsOnNode_def split: prod.splits option.splits ptr.splits)
next
  case (Inr ids)
  with GetPodIDsOnNode_keys [OF Inr] show ?thesis by auto
qed

end
