(* ===== verification/VictimProps.thy ===== *)
theory VictimProps
  imports PluginProps
begin

text \<open>
  Properties of the choice of victims, and examples of them on the reference cluster.
\<close>

lemma ref_selection:
  "SelectVictimsOnNode ref_kube ref_fh ref_snap ref_preemptor ref_cluster_node [] =
     Some ([ref_pod ''p1'' ''b'' 1 1000], 0, NewStatus Success [])"
  by code_simp

text \<open>A preemptor of the queue whose pods are on the node.\<close>

definition ref_preemptor_b :: "int pod" where
  "ref_preemptor_b = ref_pod ''p5'' ''b'' 10 1000"

lemma ref_selection_b:
  "SelectVictimsOnNode ref_kube ref_fh ref_snap ref_preemptor_b ref_cluster_node [] =
     Some ([ref_pod ''p1'' ''b'' 1 1000], 0, NewStatus Success [])"
  by code_simp

lemma ref_cluster_pods:
  "\<forall>x \<in> set (ni_GetPods ref_fh ref_cluster_node). pod_ok ref_kube ref_reqs (GetPod x)"
  "distinct (map (pod_uid \<circ> GetPod) (ni_GetPods ref_fh ref_cluster_node))"
  by (simp_all add: ref_fh_def ref_cluster_node_def ref_pod_ok) (simp add: ref_pod_def)

lemma ref_queue_nonneg:
  "\<forall>q. Manager_Get ref_mgr (Ptr ref_preemptor) = Ptr q \<longrightarrow> max_nonneg ref_amount (Quota_Max (queue_quota q))"
  using ref_queue_a ref_max_nonneg by (auto simp: Manager_Get_queue ref_preemptor_def ref_pod_queue)

lemma ref_framework_fh:
  "framework ref_kube ref_amount ref_fh (\<lambda>st. length (snd (snd st))) (\<lambda>x. Suc) (\<lambda>pod v. v < 2)"
  unfolding ref_fh_def by (rule ref_framework.framework_axioms)

text \<open>
  C9. The victims free enough quota: when \<^verbatim>\<open>SelectVictimsOnNode\<close> succeeds for a pod of a queue, the
  pods the snapshot counts in that queue, without the victims of the queue, fit the queue's maximum together
  with the preemptor. The framework is taken to run this plugin's extensions, the pods of the node
  to have distinct identifiers, and requests and the maximum to be non-negative.
\<close>

theorem victims_free_enough_quota:
  assumes "framework K amount H nview nadd nok"
    and "SelectVictimsOnNode K H c pod ni pdbs = Some (vs, k, st)" and "status_IsSuccess st"
    and "ReadQueueSnapshot H c = Inr \<lparr>qss_QueueMgr = qm\<rparr>" and "mgr_balanced K amount reqs qm"
    and "\<forall>x \<in> set (ni_GetPods H ni). pod_ok K reqs (GetPod x)"
    and "distinct (map (pod_uid \<circ> GetPod) (ni_GetPods H ni))" and "reqs_nonneg amount reqs"
    and "pod_queue pod = Some n" and "Manager_GetByName qm n = Ptr q" and "max_nonneg amount (Quota_Max (queue_quota q))"
  shows "fits_max amount reqs (Quota_Max (queue_quota q))
    (mgr_tracked K qm n - pod_uid ` {v \<in> set vs. pod_queue v = Some n}) (pod_req K amount pod)"
  by (rule framework.SelectVictims_quota [OF assms])

theorem victims_free_enough_quota_witness:
  "fits_max ref_amount ref_reqs (Ptr [(''cpu'', 3000)]) (mgr_tracked ref_kube ref_mgr ''b'' - {''p1''})
    (pod_req ref_kube ref_amount ref_preemptor_b)"
proof -
  obtain q where q: "Manager_GetByName ref_mgr ''b'' = Ptr q" "Quota_Max (queue_quota q) = Ptr [(''cpu'', 3000)]"
    using ref_queue_b by blast
  have "pod_queue ref_preemptor_b = Some ''b''" "max_nonneg ref_amount (Quota_Max (queue_quota q))"
    using q(2) ref_max_nonneg by (simp_all add: ref_preemptor_b_def ref_pod_queue)
  moreover have "{v. v = ref_pod ''p1'' ''b'' 1 1000 \<and> pod_queue v = Some ''b''} = {ref_pod ''p1'' ''b'' 1 1000}"
    by (auto simp: ref_pod_queue)
  ultimately show ?thesis
    using victims_free_enough_quota [OF ref_framework_fh ref_selection_b _ ref_fh_facts(3) ref_mgr_run(2) ref_cluster_pods
      ref_reqs_nonneg _ q(1)] q(2)
    by (simp add: ref_pod_def)
qed

text \<open>
  C10. Every victim may be preempted: it is a pod of the node of strictly lower priority; if the
  preemptor has a queue, the rules of both queues allow the preemption, otherwise the victim has
  no queue either. The number reported as violating budgets is at most the number of victims. This
  holds of every answer, without any assumption on the framework.
\<close>

theorem victims_may_be_preempted:
  assumes "SelectVictimsOnNode K H c pod ni pdbs = Some (vs, k, st)" and "ReadQueueSnapshot H c = Inr s"
  shows "k \<le> length vs \<and> (\<forall>v \<in> set vs. v \<in> GetPod ` set (ni_GetPods H ni) \<and>
    sint (PodPriority K v) < sint (PodPriority K pod) \<and> potential_victim K (qss_QueueMgr s) pod v)"
  using SelectVictims_potential [OF assms]
  by (auto simp: potential_victim_def may_preempt_def i32_less_def split: if_splits)

theorem victims_may_be_preempted_witness:
  "may_preempt ref_kube ref_mgr ref_preemptor (ref_pod ''p1'' ''b'' 1 1000)"
proof -
  have "\<not> is_nil (Manager_Get ref_mgr (Ptr ref_preemptor))" by code_simp
  with victims_may_be_preempted [OF ref_selection ref_fh_facts(3)] show ?thesis
    by (simp add: potential_victim_def)
qed

text \<open>
  C11. The selection is the greedy one: with all potential victims removed, the preemptor fits; then,
  over the potential victims that violate a budget and after them the others, each group from the
  most important pod down, every pod with which the preemptor still fits, by the filters and by its
  quota, is kept. The victims are the pods that are not kept, sorted by importance, and the number
  reported is that of the victims that violate a budget.
\<close>

theorem victims_are_greedy:
  assumes "framework K amount H nview nadd nok"
    and "SelectVictimsOnNode K H c pod ni pdbs = Some (vs, k, st)" and "status_IsSuccess st"
    and "ReadQueueSnapshot H c = Inr \<lparr>qss_QueueMgr = qm\<rparr>" and "mgr_balanced K amount reqs qm"
    and "\<forall>q. Manager_Get qm (Ptr pod) = Ptr q \<longrightarrow> max_nonneg amount (Quota_Max (queue_quota q))"
    and "\<forall>x \<in> set (ni_GetPods H ni). pod_ok K reqs (GetPod x)"
    and "distinct (map (pod_uid \<circ> GetPod) (ni_GetPods H ni))"
  shows "\<exists>pvs ev st1 v1 ws w.
    pvs = filter (\<lambda>x. potential_victim K qm pod (GetPod x)) (ni_GetPods H ni) \<and>
    CheckPodRemovalViolations K (SortFunc (\<lambda>a b. CompareImportanceDesc K (GetPod a) (GetPod b)) pvs) pdbs = Some ev \<and>
    sim_each (sim_removePod H pod) pvs (c, ni) = Inr st1 \<and> v1 = (nview st1, snap_tracked K H pod (fst st1)) \<and>
    view_ok K amount reqs nok qm pod v1 \<and>
    greedy (view_ok K amount reqs nok qm pod) (view_add nadd qm pod) (ViolatingPods ev @ NonViolatingPods ev) v1 = (ws, w) \<and>
    vs = SortFunc (CompareImportanceDesc K) (map GetPod ws) \<and>
    k = length (fst (greedy (view_ok K amount reqs nok qm pod) (view_add nadd qm pod) (ViolatingPods ev) v1)) \<and>
    view_ok K amount reqs nok qm pod w"
proof -
  obtain st1 ev ws w where g:
    "CheckPodRemovalViolations K (SortFunc (\<lambda>a b. CompareImportanceDesc K (GetPod a) (GetPod b))
      (filter (\<lambda>x. potential_victim K qm pod (GetPod x)) (ni_GetPods H ni))) pdbs = Some ev"
    "sim_each (sim_removePod H pod) (filter (\<lambda>x. potential_victim K qm pod (GetPod x)) (ni_GetPods H ni)) (c, ni) = Inr st1"
    "view_ok K amount reqs nok qm pod (nview st1, snap_tracked K H pod (fst st1))"
    "greedy (view_ok K amount reqs nok qm pod) (view_add nadd qm pod)
      (ViolatingPods ev @ NonViolatingPods ev) (nview st1, snap_tracked K H pod (fst st1)) = (ws, w)"
    "vs = SortFunc (CompareImportanceDesc K) (map GetPod ws)"
    "k = length (fst (greedy (view_ok K amount reqs nok qm pod) (view_add nadd qm pod) (ViolatingPods ev)
      (nview st1, snap_tracked K H pod (fst st1))))"
    using framework.SelectVictims_greedy [OF assms(1-5) _ assms(7,8)] assms(6) by blast
  have "view_ok K amount reqs nok qm pod w"
    using greedy_fits [of "view_ok K amount reqs nok qm pod", OF g(3),
        of "view_add nadd qm pod" "ViolatingPods ev @ NonViolatingPods ev"] g(4) by simp
  with g show ?thesis by blast
qed

theorem victims_are_greedy_witness:
  "\<exists>pvs ev st1 v1 ws w.
    pvs = filter (\<lambda>x. potential_victim ref_kube ref_mgr ref_preemptor (GetPod x)) (ni_GetPods ref_fh ref_cluster_node) \<and>
    CheckPodRemovalViolations ref_kube (SortFunc (\<lambda>a b. CompareImportanceDesc ref_kube (GetPod a) (GetPod b)) pvs) [] = Some ev \<and>
    sim_each (sim_removePod ref_fh ref_preemptor) pvs (ref_snap, ref_cluster_node) = Inr st1 \<and>
    v1 = (length (snd (snd st1)), snap_tracked ref_kube ref_fh ref_preemptor (fst st1)) \<and>
    greedy (view_ok ref_kube ref_amount ref_reqs (\<lambda>pod v. v < 2) ref_mgr ref_preemptor) (view_add (\<lambda>x. Suc) ref_mgr ref_preemptor)
      (ViolatingPods ev @ NonViolatingPods ev) v1 = (ws, w) \<and>
    [ref_pod ''p1'' ''b'' 1 1000] = SortFunc (CompareImportanceDesc ref_kube) (map GetPod ws)"
proof -
  from victims_are_greedy [OF ref_framework_fh ref_selection _ ref_fh_facts(3) ref_mgr_run(2) ref_queue_nonneg ref_cluster_pods]
  show ?thesis by (simp, blast)
qed

text \<open>
  No victim is needless: for every victim there is a moment in the greedy pass, with the pods
  before it decided, at which the preemptor does not fit together with it, by the filters or by
  its quota.
\<close>

theorem victims_are_needed:
  assumes "framework K amount H nview nadd nok"
    and "SelectVictimsOnNode K H c pod ni pdbs = Some (vs, k, st)" and "status_IsSuccess st"
    and "ReadQueueSnapshot H c = Inr \<lparr>qss_QueueMgr = qm\<rparr>" and "mgr_balanced K amount reqs qm"
    and "\<forall>q. Manager_Get qm (Ptr pod) = Ptr q \<longrightarrow> max_nonneg amount (Quota_Max (queue_quota q))"
    and "\<forall>x \<in> set (ni_GetPods H ni). pod_ok K reqs (GetPod x)"
    and "distinct (map (pod_uid \<circ> GetPod) (ni_GetPods H ni))" and "v \<in> set vs"
  shows "\<exists>pvs st1 ev before x after.
    pvs = filter (\<lambda>x. potential_victim K qm pod (GetPod x)) (ni_GetPods H ni) \<and>
    sim_each (sim_removePod H pod) pvs (c, ni) = Inr st1 \<and>
    CheckPodRemovalViolations K (SortFunc (\<lambda>a b. CompareImportanceDesc K (GetPod a) (GetPod b)) pvs) pdbs = Some ev \<and>
    ViolatingPods ev @ NonViolatingPods ev = before @ x # after \<and> GetPod x = v \<and>
    \<not> view_ok K amount reqs nok qm pod (view_add nadd qm pod x
      (snd (greedy (view_ok K amount reqs nok qm pod) (view_add nadd qm pod) before
        (nview st1, snap_tracked K H pod (fst st1)))))"
proof -
  let ?pvs = "filter (\<lambda>x. potential_victim K qm pod (GetPod x)) (ni_GetPods H ni)"
  obtain st1 ev ws w where
    ev: "CheckPodRemovalViolations K (SortFunc (\<lambda>a b. CompareImportanceDesc K (GetPod a) (GetPod b)) ?pvs) pdbs = Some ev"
    and sim: "sim_each (sim_removePod H pod) ?pvs (c, ni) = Inr st1"
    and g: "greedy (view_ok K amount reqs nok qm pod) (view_add nadd qm pod)
      (ViolatingPods ev @ NonViolatingPods ev) (nview st1, snap_tracked K H pod (fst st1)) = (ws, w)"
    and vs: "vs = SortFunc (CompareImportanceDesc K) (map GetPod ws)"
    using framework.SelectVictims_greedy [OF assms(1-5) _ assms(7,8)] assms(6) by blast
  obtain x where x: "x \<in> set ws" "GetPod x = v" using assms(9) vs by auto
  from x(1) g have "x \<in> set (fst (greedy (view_ok K amount reqs nok qm pod) (view_add nadd qm pod)
      (ViolatingPods ev @ NonViolatingPods ev) (nview st1, snap_tracked K H pod (fst st1))))" by simp
  from greedy_needed [OF this] x(2) ev sim show ?thesis by blast
qed

theorem victims_are_needed_witness:
  "\<exists>(ev :: int violations_result) before x after. ViolatingPods ev @ NonViolatingPods ev = before @ x # after \<and>
    GetPod x = ref_pod ''p1'' ''b'' 1 1000 \<and>
    (\<exists>st1 :: ref_state \<times> ref_node. \<not> view_ok ref_kube ref_amount ref_reqs (\<lambda>pod v. v < 2) ref_mgr ref_preemptor (view_add (\<lambda>x. Suc) ref_mgr ref_preemptor x
      (snd (greedy (view_ok ref_kube ref_amount ref_reqs (\<lambda>pod v. v < 2) ref_mgr ref_preemptor)
        (view_add (\<lambda>x. Suc) ref_mgr ref_preemptor) before
        (length (snd (snd st1)), snap_tracked ref_kube ref_fh ref_preemptor (fst st1))))))"
proof -
  have "status_IsSuccess (NewStatus Success [])" "ref_pod ''p1'' ''b'' 1 1000 \<in> set [ref_pod ''p1'' ''b'' 1 1000]"
    by simp_all
  note victims_are_needed [OF ref_framework_fh ref_selection this(1) ref_fh_facts(3) ref_mgr_run(2) ref_queue_nonneg ref_cluster_pods this(2)]
  then show ?thesis by blast
qed

text \<open>
  C12. The victims are minimal: the preemptor fits with the pods that are kept, and with any one victim
  added to them it does not, by the filters or by its quota. This supposes that the filters of the
  framework do not start to accept a node because a further pod is on it.
\<close>

theorem victims_are_minimal:
  assumes "framework K amount H nview nadd nok"
    and "SelectVictimsOnNode K H c pod ni pdbs = Some (vs, k, st)" and "status_IsSuccess st"
    and "ReadQueueSnapshot H c = Inr \<lparr>qss_QueueMgr = qm\<rparr>" and "mgr_balanced K amount reqs qm"
    and "\<forall>q. Manager_Get qm (Ptr pod) = Ptr q \<longrightarrow> max_nonneg amount (Quota_Max (queue_quota q))"
    and "\<forall>x \<in> set (ni_GetPods H ni). pod_ok K reqs (GetPod x)"
    and "distinct (map (pod_uid \<circ> GetPod) (ni_GetPods H ni))"
    and "reqs_nonneg amount reqs" and "\<forall>x y v. nok pod (nadd x (nadd y v)) \<longrightarrow> nok pod (nadd x v)"
  shows "\<exists>pvs st1 ev ws w.
    pvs = filter (\<lambda>x. potential_victim K qm pod (GetPod x)) (ni_GetPods H ni) \<and>
    sim_each (sim_removePod H pod) pvs (c, ni) = Inr st1 \<and>
    CheckPodRemovalViolations K (SortFunc (\<lambda>a b. CompareImportanceDesc K (GetPod a) (GetPod b)) pvs) pdbs = Some ev \<and>
    greedy (view_ok K amount reqs nok qm pod) (view_add nadd qm pod) (ViolatingPods ev @ NonViolatingPods ev)
      (nview st1, snap_tracked K H pod (fst st1)) = (ws, w) \<and>
    set vs = GetPod ` set ws \<and> view_ok K amount reqs nok qm pod w \<and>
    (\<forall>x \<in> set ws. \<not> view_ok K amount reqs nok qm pod (view_add nadd qm pod x w))"
proof -
  let ?pvs = "filter (\<lambda>x. potential_victim K qm pod (GetPod x)) (ni_GetPods H ni)"
  let ?ok = "view_ok K amount reqs nok qm pod" and ?add = "view_add nadd qm pod"
  have laws: "kube_laws K amount" using framework.axioms [OF assms(1)] by blast
  obtain st1 ev ws w where
    ev: "CheckPodRemovalViolations K (SortFunc (\<lambda>a b. CompareImportanceDesc K (GetPod a) (GetPod b)) ?pvs) pdbs = Some ev"
    and sim: "sim_each (sim_removePod H pod) ?pvs (c, ni) = Inr st1"
    and ok1: "?ok (nview st1, snap_tracked K H pod (fst st1))"
    and S1: "snap_tracked K H pod (fst st1) = snap_tracked K H pod c - (pod_uid \<circ> GetPod) ` {x \<in> set ?pvs. in_queue qm pod x}"
    and g: "greedy ?ok ?add (ViolatingPods ev @ NonViolatingPods ev) (nview st1, snap_tracked K H pod (fst st1)) = (ws, w)"
    and vs: "vs = SortFunc (CompareImportanceDesc K) (map GetPod ws)"
    using framework.SelectVictims_greedy [OF assms(1-5) _ assms(7,8)] assms(6) by blast
  have fin: "finite (snap_tracked K H pod (fst st1))"
    unfolding S1 by (simp add: snap_tracked_def assms(4) kube_laws.finite_mgr_tracked [OF laws] split: option.split)
  have keep: "finite (snd (?add y u))" if "finite (snd u)" for y u using that by (cases u) simp
  have anti: "?ok (?add x u)" if "finite (snd u)" "?ok (?add x (?add y u))" for x y u
    using framework.view_ok_antitone [OF assms(1) _ assms(9) that] assms(10) by blast
  have "\<not> ?ok (?add x w)" if "x \<in> set ws" for x
    using greedy_minimal [of "\<lambda>u. finite (snd u)" ?add ?ok "(nview st1, snap_tracked K H pod (fst st1))" x
        "ViolatingPods ev @ NonViolatingPods ev", OF keep anti] that fin g by simp
  moreover have "?ok w" using greedy_fits [of ?ok _ ?add "ViolatingPods ev @ NonViolatingPods ev", OF ok1] by (simp add: g)
  moreover have "set vs = GetPod ` set ws" by (simp add: vs)
  ultimately show ?thesis using ev sim g by blast
qed

theorem victims_are_minimal_witness:
  "\<exists>ws w. GetPod ` set ws = {ref_pod ''p1'' ''b'' 1 1000} \<and>
    view_ok ref_kube ref_amount ref_reqs (\<lambda>pod v. v < 2) ref_mgr ref_preemptor w \<and>
    list_all (\<lambda>x. \<not> view_ok ref_kube ref_amount ref_reqs (\<lambda>pod v. v < 2) ref_mgr ref_preemptor
      (view_add (\<lambda>x. Suc) ref_mgr ref_preemptor x w)) ws"
proof -
  have "status_IsSuccess (NewStatus Success [])" "\<forall>x y v. Suc (Suc v) < 2 \<longrightarrow> Suc v < (2 :: nat)" by simp_all
  from victims_are_minimal [OF ref_framework_fh ref_selection this(1) ref_fh_facts(3) ref_mgr_run(2) ref_queue_nonneg ref_cluster_pods
      ref_reqs_nonneg this(2)]
  obtain ws w where "set [ref_pod ''p1'' ''b'' 1 1000] = GetPod ` set ws"
    "view_ok ref_kube ref_amount ref_reqs (\<lambda>pod v. v < 2) ref_mgr ref_preemptor w"
    "\<forall>x \<in> set ws. \<not> view_ok ref_kube ref_amount ref_reqs (\<lambda>pod v. v < 2) ref_mgr ref_preemptor
      (view_add (\<lambda>x. Suc) ref_mgr ref_preemptor x w)" by blast
  then show ?thesis
    by (intro exI [of _ ws] exI [of _ w]) (simp only: list_all_iff list.set simp_thms)
qed

text \<open>
  C29. The selection always returns, and an answer that is not a success comes without victims and
  with a count of 0.
\<close>

theorem selection_returns:
  assumes "framework K amount H nview nadd nok" and "label_selectors K"
    and "ReadQueueSnapshot H c = Inr \<lparr>qss_QueueMgr = qm\<rparr>" and "mgr_balanced K amount reqs qm"
    and "\<forall>q. Manager_Get qm (Ptr pod) = Ptr q \<longrightarrow> max_nonneg amount (Quota_Max (queue_quota q))"
    and "\<forall>x \<in> set (ni_GetPods H ni). pod_ok K reqs (GetPod x)"
    and "distinct (map (pod_uid \<circ> GetPod) (ni_GetPods H ni))"
  shows "\<exists>vs k st. SelectVictimsOnNode K H c pod ni pdbs = Some (vs, k, st) \<and>
    (\<not> status_IsSuccess st \<longrightarrow> vs = [] \<and> k = 0)"
proof -
  obtain vs k st where r: "SelectVictimsOnNode K H c pod ni pdbs = Some (vs, k, st)"
    using framework.SelectVictims_defined [OF assms(1-4) _ assms(6,7), of pod pdbs] assms(5) by auto
  have "\<not> status_IsSuccess (st_AsStatus H e)" for e
    using cycle_state.AsStatus_Error [OF framework.axioms(2) [OF assms(1)]] by (simp add: status_IsSuccess_def)
  from SelectVictims_cases [OF r this] r show ?thesis by auto
qed

theorem selection_returns_witness:
  "\<exists>vs k st. SelectVictimsOnNode ref_kube ref_fh ref_snap ref_preemptor ref_cluster_node [] = Some (vs, k, st)"
proof -
  from selection_returns [OF ref_framework_fh ref_selectors.label_selectors_axioms ref_fh_facts(3) ref_mgr_run(2) ref_queue_nonneg
      ref_cluster_pods] show ?thesis by blast
qed

text \<open>
  C30. The victims come sorted: no victim stands before a more important one, so their priorities
  never increase along the list, whichever of them violate a budget.
\<close>

theorem victims_are_sorted:
  assumes "pod_importance K start" and "SelectVictimsOnNode K H c pod ni pdbs = Some (vs, k, st)"
  shows "sorted_wrt (\<lambda>a b. \<not> MoreImportantPod K b a) vs \<and>
    sorted_wrt (\<lambda>a b. sint (PodPriority K b) \<le> sint (PodPriority K a)) vs"
  using SelectVictims_sorted [OF assms(2)] pod_importance.sorted_by_importance [OF assms(1)]
    pod_importance.sorted_by_priority [OF assms(1)] by blast

theorem victims_are_sorted_witness:
  "sorted_wrt (\<lambda>a b. sint (PodPriority ref_kube b) \<le> sint (PodPriority ref_kube a))
    [ref_pod ''p2'' ''b'' 2 1000, ref_pod ''p1'' ''b'' 1 1000]"
proof -
  have "SelectVictimsOnNode ref_kube (ref_handle [ref_cluster_node] (\<lambda>_. []) 1) ref_snap ref_preemptor ref_cluster_node [] =
      Some ([ref_pod ''p2'' ''b'' 2 1000, ref_pod ''p1'' ''b'' 1 1000], 0, NewStatus Success [])" by code_simp
  from victims_are_sorted [OF ref_importance.pod_importance_axioms this] show ?thesis by blast
qed

end
