(* ===== verification/Scheduling.thy ===== *)
theory Scheduling
  imports VictimProps
begin

text \<open>
  The scheduling loop: cycles of PreFilter and Reserve for one pod after the other, pods that are
  unreserved, and the informers' events in between. The steps of this theory are those of the
  plugin and of the synchronizer; what they guarantee together is that no queue exceeds its
  maximum, and that a preemption makes room for its preemptor.
\<close>

section \<open>The loop\<close>

text \<open>
  The state between two steps: the plugin, and the pod that PreFilter has let through and that is
  not reserved yet. kube-scheduler runs one scheduling cycle at a time, so there is at most one.
\<close>

record ('q, 's, 'm) cycle =
  cy_plugin :: "('q, 's, 'm) plugin"
  cy_admitted :: "'q pod option"

abbreviation cy_queues :: "('q, 's, 'm) cycle \<Rightarrow> ('q, 's, 'm) manager" where
  "cy_queues s \<equiv> plugin_queueMgr (cy_plugin s)"

definition mgr_max :: "('q, 's, 'm) manager \<Rightarrow> string \<Rightarrow> 'q resources" where
  "mgr_max qm n = Quota_Max (Queue_Quota (Manager_GetByName qm n))"

definition max_raised :: "('q \<Rightarrow> rat) \<Rightarrow> 'q resources \<Rightarrow> 'q resources \<Rightarrow> bool" where
  "max_raised amount mx mx' \<longleftrightarrow>
     (\<forall>r \<in> gm_dom mx'. r \<in> gm_dom mx \<and> res_amount amount mx r \<le> res_amount amount mx' r)"

definition spec_max :: "('q, 's, 'm) kube \<Rightarrow> 'q queue_obj \<Rightarrow> 'q resources" where
  "spec_max K q = FromResourceList K (qs_max (spec_quota (qo_spec q)))"

text \<open>
  The informer events the loop is exposed to. Maxima are not negative and never lowered, and queues
  do not change between PreFilter and Reserve of a pod. A pod that appears on a node was put there
  by this scheduler, so it is counted already unless its queue does not exist. Everything else,
  deletions of pods and queues and updates of pods, may happen at any time.
\<close>

fun quiet_event :: "('q, 's, 'm) kube \<Rightarrow> ('q \<Rightarrow> rat) \<Rightarrow> ('q, 's, 'm) cycle \<Rightarrow> 'q sync_event \<Rightarrow> bool" where
  "quiet_event K amount s (QueueAdded obj) \<longleftrightarrow> cy_admitted s = None \<and>
     (case as_queue obj of NilP \<Rightarrow> False | Ptr q \<Rightarrow> max_nonneg amount (spec_max K q))"
| "quiet_event K amount s (QueueUpdated oldObj newObj) \<longleftrightarrow> cy_admitted s = None \<and>
     (case as_queue newObj of NilP \<Rightarrow> False | Ptr q \<Rightarrow> max_nonneg amount (spec_max K q) \<and>
       (Manager_GetByName (cy_queues s) (qo_name q) \<noteq> NilP \<longrightarrow>
         max_raised amount (mgr_max (cy_queues s) (qo_name q)) (spec_max K q)))"
| "quiet_event K amount s (QueueDeleted obj) \<longleftrightarrow> \<not> is_nil (as_queue obj)"
| "quiet_event K amount s (PodAdded obj) \<longleftrightarrow> (case as_pod obj of NilP \<Rightarrow> True
     | Ptr p \<Rightarrow> (case pod_queue p of None \<Rightarrow> True | Some n \<Rightarrow>
         Manager_GetByName (cy_queues s) n = NilP \<or> pod_uid p \<in> mgr_tracked K (cy_queues s) n))"
| "quiet_event K amount s (PodUpdated oldObj newObj) \<longleftrightarrow> True"
| "quiet_event K amount s (PodDeleted obj) \<longleftrightarrow> True"

text \<open>
  \<open>HS\<close> holds what the framework may present to a cycle: its nodes, nominated pods and so on.
\<close>

inductive cycle_step :: "('q, 's, 'm) kube \<Rightarrow> ('q \<Rightarrow> rat) \<Rightarrow> (string \<Rightarrow> 'q resource_list) \<Rightarrow> ('q, 's, 'm, 'o, 'c, 'n) handle set \<Rightarrow> ('q, 's, 'm) cycle \<Rightarrow> ('q, 's, 'm) cycle \<Rightarrow> bool"
  for K amount reqs HS where
  cy_admit: "H \<in> HS \<Longrightarrow> PreFilter K H (cy_plugin s) c pod = Some (c', st) \<Longrightarrow> status_IsSuccess st \<Longrightarrow>
    pod_ok K reqs pod \<Longrightarrow> cycle_step K amount reqs HS s (s\<lparr>cy_admitted := Some pod\<rparr>)"
| cy_abandon: "cycle_step K amount reqs HS s (s\<lparr>cy_admitted := None\<rparr>)"
| cy_reserve: "cy_admitted s = Some pod \<Longrightarrow> Reserve K pod (cy_plugin s) = Some (P, st) \<Longrightarrow>
    cycle_step K amount reqs HS s \<lparr>cy_plugin = P, cy_admitted = None\<rparr>"
| cy_unreserve: "Unreserve K pod (cy_plugin s) = Some P \<Longrightarrow> pod_ok K reqs pod \<Longrightarrow>
    cycle_step K amount reqs HS s (s\<lparr>cy_plugin := P\<rparr>)"
| cy_sync: "sync_step K ev (cy_queues s) = Some qm \<Longrightarrow> sync_event_ok K reqs ev \<Longrightarrow> quiet_event K amount s ev \<Longrightarrow>
    cycle_step K amount reqs HS s (s\<lparr>cy_plugin := (cy_plugin s)\<lparr>plugin_queueMgr := qm\<rparr>\<rparr>)"

inductive cycle_reach :: "('q, 's, 'm) kube \<Rightarrow> ('q \<Rightarrow> rat) \<Rightarrow> (string \<Rightarrow> 'q resource_list) \<Rightarrow> ('q, 's, 'm, 'o, 'c, 'n) handle set \<Rightarrow> ('q, 's, 'm) cycle \<Rightarrow> bool"
  for K amount reqs HS where
  cy_init: "plugin_queueMgr P = NewManager \<Longrightarrow> cycle_reach K amount reqs HS \<lparr>cy_plugin = P, cy_admitted = None\<rparr>"
| cy_next: "cycle_reach K amount reqs HS s \<Longrightarrow> cycle_step K amount reqs HS s s' \<Longrightarrow> cycle_reach K amount reqs HS s'"

section \<open>Invariant\<close>

definition cy_fits :: "('q, 's, 'm) kube \<Rightarrow> ('q \<Rightarrow> rat) \<Rightarrow> (string \<Rightarrow> 'q resource_list) \<Rightarrow> ('q, 's, 'm) manager \<Rightarrow> string \<Rightarrow> (string \<Rightarrow> rat) \<Rightarrow> bool" where
  "cy_fits K amount reqs qm n w \<longleftrightarrow> (Manager_GetByName qm n \<noteq> NilP \<longrightarrow>
     max_nonneg amount (mgr_max qm n) \<and> fits_max amount reqs (mgr_max qm n) (mgr_tracked K qm n) w)"

definition cy_inv :: "('q, 's, 'm) kube \<Rightarrow> ('q \<Rightarrow> rat) \<Rightarrow> (string \<Rightarrow> 'q resource_list) \<Rightarrow> ('q, 's, 'm) cycle \<Rightarrow> bool" where
  "cy_inv K amount reqs s \<longleftrightarrow> mgr_balanced K amount reqs (cy_queues s) \<and>
     (\<forall>n. cy_fits K amount reqs (cy_queues s) n (\<lambda>r. 0)) \<and>
     (\<forall>pod. cy_admitted s = Some pod \<longrightarrow> pod_ok K reqs pod \<and>
       (\<forall>n. pod_queue pod = Some n \<longrightarrow> cy_fits K amount reqs (cy_queues s) n (pod_req K amount pod)))"

lemma mgr_max_frame: "queue_frame qm qm' \<Longrightarrow> mgr_max qm' n = mgr_max qm n"
  by (simp add: queue_frame_def mgr_max_def)

lemma mgr_max_Ptr: "Manager_GetByName qm n = Ptr q \<Longrightarrow> mgr_max qm n = Quota_Max (queue_quota q)"
  by (simp add: mgr_max_def)

lemma fits_max_raised:
  "fits_max amount reqs mx S w \<Longrightarrow> max_raised amount mx mx' \<Longrightarrow> fits_max amount reqs mx' S w"
  by (fastforce simp: fits_max_def max_raised_def)

context kube_laws
begin

text \<open>A step that keeps the queues and counts no new pod keeps what fits.\<close>

lemma cy_fits_shrink:
  assumes "cy_fits K amount reqs qm n w" and "queue_frame qm qm'" and "mgr_tracked K qm' n \<subseteq> mgr_tracked K qm n"
    and "reqs_nonneg amount reqs"
  shows "cy_fits K amount reqs qm' n w"
  using assms(1) fits_max_mono [OF _ assms(3) finite_mgr_tracked assms(4)]
  by (auto simp: cy_fits_def mgr_max_frame [OF assms(2)] queue_frame_nil [OF assms(2)])

lemma cy_inv_shrink:
  assumes "cy_inv K amount reqs s" and "mgr_balanced K amount reqs qm'" and "queue_frame (cy_queues s) qm'"
    and "\<And>n. mgr_tracked K qm' n \<subseteq> mgr_tracked K (cy_queues s) n" and "reqs_nonneg amount reqs"
    and "plugin_queueMgr P = qm'"
  shows "cy_inv K amount reqs (s\<lparr>cy_plugin := P\<rparr>)"
  using assms(1,2) cy_fits_shrink [OF _ assms(3,4,5)] by (simp add: cy_inv_def assms(6))

lemma PreFilter_success_fits:
  assumes bal: "mgr_balanced K amount reqs (plugin_queueMgr P)" and ok: "nominated_ok K H reqs"
    and nonneg: "reqs_nonneg amount reqs"
    and q: "pod_queue pod = Some n" "Manager_GetByName (plugin_queueMgr P) n = Ptr q"
    and mx: "max_nonneg amount (Quota_Max (queue_quota q))"
    and pf: "PreFilter K H P c pod = Some (c', st)" "status_IsSuccess st"
  shows "fits_max amount reqs (Quota_Max (queue_quota q)) (mgr_tracked K (plugin_queueMgr P) n) (pod_req K amount pod)"
proof (cases "NodeInfos_List H")
  case (Inl err)
  have "Manager_Get (plugin_queueMgr P) (Ptr pod) = Ptr q" using q by (simp add: Manager_Get_queue)
  with Inl pf Manager_Clone_eq [OF bal] show ?thesis
    by (auto simp: PreFilter_def NewQueueSnapshotState_def status_IsSuccess_def is_nil_def Let_def split: bind_splits)
next
  case (Inr nodes)
  have fin: "finite (mgr_tracked K (plugin_queueMgr P) n \<union> uids_ahead K H pod)"
    by (simp add: finite_mgr_tracked uids_ahead_def Inr)
  have "fits_max amount reqs (Quota_Max (queue_quota q)) (mgr_tracked K (plugin_queueMgr P) n \<union> uids_ahead K H pod)
      (pod_req K amount pod)"
    using PreFilter_result [OF bal ok q Inr mx, of c] pf by (auto simp: status_IsSuccess_def split: if_splits)
  from fits_max_mono [OF this Un_upper1 fin nonneg] show ?thesis .
qed

text \<open>A pod that fits can be counted.\<close>

lemma fits_max_count:
  assumes "fits_max amount reqs mx S (pod_req K amount pod)" and "pod_ok K reqs pod" and "finite S"
    and "reqs_nonneg amount reqs"
  shows "fits_max amount reqs mx (insert (pod_uid pod) S) (\<lambda>r. 0)"
  unfolding fits_max_def
proof
  fix r
  assume r: "r \<in> gm_dom mx"
  have "0 \<le> uid_req amount reqs (pod_uid pod) r" using assms(4) by (simp add: uid_req_def reqs_nonneg_def)
  then have "(\<Sum>u \<in> insert (pod_uid pod) S. uid_req amount reqs u r) \<le> (\<Sum>u \<in> S. uid_req amount reqs u r) + uid_req amount reqs (pod_uid pod) r"
    using assms(3) by (cases "pod_uid pod \<in> S") (simp_all add: insert_absorb)
  also have "\<dots> \<le> res_amount amount mx r"
    using assms(1) r pod_ok_weights(1) [OF assms(2), of amount] by (simp add: fits_max_def)
  finally show "(\<Sum>u \<in> insert (pod_uid pod) S. uid_req amount reqs u r) + 0 \<le> res_amount amount mx r" by simp
qed

lemma cy_inv_admit:
  assumes "cy_inv K amount reqs s" and "nominated_ok K H reqs" and "reqs_nonneg amount reqs"
    and "PreFilter K H (cy_plugin s) c pod = Some (c', st)" and "status_IsSuccess st" and "pod_ok K reqs pod"
  shows "cy_inv K amount reqs (s\<lparr>cy_admitted := Some pod\<rparr>)"
proof -
  have "cy_fits K amount reqs (cy_queues s) n (pod_req K amount pod)" if n: "pod_queue pod = Some n" for n
  proof (cases "Manager_GetByName (cy_queues s) n")
    case (Ptr q)
    have "cy_fits K amount reqs (cy_queues s) n (\<lambda>r. 0)" using assms(1) by (simp add: cy_inv_def)
    then have "max_nonneg amount (Quota_Max (queue_quota q))" by (simp add: cy_fits_def Ptr mgr_max_Ptr)
    with PreFilter_success_fits [OF _ assms(2,3) n Ptr this assms(4,5)] assms(1) show ?thesis
      by (simp add: cy_inv_def cy_fits_def mgr_max_Ptr [OF Ptr])
  qed (simp add: cy_fits_def)
  with assms(1,6) show ?thesis by (simp add: cy_inv_def)
qed

lemma cy_inv_reserve:
  assumes inv: "cy_inv K amount reqs s" and pod: "cy_admitted s = Some pod"
    and res: "Reserve K pod (cy_plugin s) = Some (P, st)" and nonneg: "reqs_nonneg amount reqs"
  shows "cy_inv K amount reqs \<lparr>cy_plugin = P, cy_admitted = None\<rparr>"
proof -
  from inv pod have ok: "pod_ok K reqs pod" and bal: "mgr_balanced K amount reqs (cy_queues s)"
    and fits0: "\<And>n. cy_fits K amount reqs (cy_queues s) n (\<lambda>r. 0)"
    and fits: "\<And>n. pod_queue pod = Some n \<Longrightarrow> cy_fits K amount reqs (cy_queues s) n (pod_req K amount pod)"
    by (simp_all add: cy_inv_def)
  from Manager_AddPod_result [OF bal ok] res obtain qm' where
    qm': "plugin_queueMgr P = qm'" "mgr_balanced K amount reqs qm'" "queue_frame (cy_queues s) qm'"
      "\<forall>n. mgr_tracked K qm' n = (if pod_queue pod = Some n \<and> Manager_GetByName (cy_queues s) n \<noteq> NilP
        then insert (pod_uid pod) (mgr_tracked K (cy_queues s) n) else mgr_tracked K (cy_queues s) n)"
    by (auto simp: Reserve_def)
  have "cy_fits K amount reqs qm' n (\<lambda>r. 0)" for n
    using fits0 [of n] fits [of n] fits_max_count [OF _ ok finite_mgr_tracked nonneg] qm'(4)
    by (auto simp: cy_fits_def mgr_max_frame [OF qm'(3)] queue_frame_nil [OF qm'(3)])
  with qm' show ?thesis by (simp add: cy_inv_def)
qed

lemma cy_inv_unreserve:
  assumes "cy_inv K amount reqs s" and "Unreserve K pod (cy_plugin s) = Some P" and "pod_ok K reqs pod"
    and "reqs_nonneg amount reqs"
  shows "cy_inv K amount reqs (s\<lparr>cy_plugin := P\<rparr>)"
proof -
  from assms(1) have "mgr_balanced K amount reqs (cy_queues s)" by (simp add: cy_inv_def)
  from Manager_DeletePod_result [OF this assms(3)] assms(2) obtain qm' where
    "plugin_queueMgr P = qm'" "mgr_balanced K amount reqs qm'" "queue_frame (cy_queues s) qm'"
    "\<And>n. mgr_tracked K qm' n \<subseteq> mgr_tracked K (cy_queues s) n"
    by (auto simp: Unreserve_def)
  with cy_inv_shrink [OF assms(1) _ _ _ assms(4)] show ?thesis by blast
qed

text \<open>
  Storing a queue under a name while no pod is admitted: what matters is that the new queue fits.
\<close>

lemma cy_inv_store:
  assumes "cy_inv K amount reqs s" and "mgr_balanced K amount reqs qm'" and "cy_admitted s = None"
    and get: "\<And>n'. n' \<noteq> n \<Longrightarrow> Manager_GetByName qm' n' = Manager_GetByName (cy_queues s) n'"
    and fits: "cy_fits K amount reqs qm' n (\<lambda>r. 0)"
  shows "cy_inv K amount reqs (s\<lparr>cy_plugin := (cy_plugin s)\<lparr>plugin_queueMgr := qm'\<rparr>\<rparr>)"
proof -
  have "cy_fits K amount reqs qm' n' (\<lambda>r. 0)" for n'
  proof (cases "n' = n")
    case False
    moreover have "cy_fits K amount reqs (cy_queues s) n' (\<lambda>r. 0)" using assms(1) by (simp add: cy_inv_def)
    ultimately show ?thesis by (simp add: cy_fits_def mgr_max_def mgr_tracked_def get)
  qed (simp add: fits)
  with assms(2,3) show ?thesis by (simp add: cy_inv_def)
qed

lemma fresh_fits:
  assumes "Manager_GetByName qm n = Ptr (fresh_queue K n (mx, lbls, cfg))" and "max_nonneg amount mx"
  shows "cy_fits K amount reqs qm n (\<lambda>r. 0)"
proof -
  have "mgr_max qm n = mx" using assms(1) by (simp add: mgr_max_def Quota_Max_def)
  moreover have "mgr_tracked K qm n = {}" using assms(1) by (rule fresh_tracked)
  ultimately show ?thesis using assms(2) by (auto simp: cy_fits_def fits_max_def max_nonneg_def)
qed

lemma cy_inv_addQueue:
  assumes inv: "cy_inv K amount reqs s" and q: "as_queue obj = Ptr q" and none: "cy_admitted s = None"
    and mx: "max_nonneg amount (spec_max K q)" and qm': "sync_addQueue K obj (cy_queues s) = Some qm'"
  shows "cy_inv K amount reqs (s\<lparr>cy_plugin := (cy_plugin s)\<lparr>plugin_queueMgr := qm'\<rparr>\<rparr>)"
proof -
  let ?cfg = "fst (NewPreemptionConfigFromSpec K (spec_preemption (qo_spec q)))"
  let ?os = "(spec_max K q, Ptr (qo_labels q), ?cfg)"
  have bal: "mgr_balanced K amount reqs (cy_queues s)" using inv by (simp add: cy_inv_def)
  have put: "Manager_Put K (qo_name q) (spec_opts (spec_max K q) (Ptr (qo_labels q)) ?cfg) (cy_queues s) = Some qm'"
    using qm' by (simp add: addQueue_eq [OF q] spec_max_def)
  then have get: "Manager_GetByName qm' n' = (if n' = qo_name q then Ptr (fresh_queue K (qo_name q) ?os)
      else Manager_GetByName (cy_queues s) n')" for n'
    by (simp add: Put_spec GetByName_store)
  have "mgr_balanced K amount reqs qm'"
    using Put_accounts [OF bal, of "spec_max K q" "qo_name q" "Ptr (qo_labels q)" ?cfg] put by (auto simp: spec_max_def)
  moreover have "cy_fits K amount reqs qm' (qo_name q) (\<lambda>r. 0)"
    by (rule fresh_fits [OF _ mx]) (use get in \<open>simp del: fresh_queue.simps\<close>)
  ultimately show ?thesis using cy_inv_store [OF inv _ none, of qm' "qo_name q"] get by simp
qed

lemma cy_inv_updateQueue:
  assumes inv: "cy_inv K amount reqs s" and q: "as_queue obj = Ptr q" and none: "cy_admitted s = None"
    and mx: "max_nonneg amount (spec_max K q)"
    and raised: "Manager_GetByName (cy_queues s) (qo_name q) \<noteq> NilP \<Longrightarrow>
      max_raised amount (mgr_max (cy_queues s) (qo_name q)) (spec_max K q)"
    and qm': "sync_updateQueue K old obj (cy_queues s) = Some qm'"
  shows "cy_inv K amount reqs (s\<lparr>cy_plugin := (cy_plugin s)\<lparr>plugin_queueMgr := qm'\<rparr>\<rparr>)"
proof -
  let ?cfg = "fst (NewPreemptionConfigFromSpec K (spec_preemption (qo_spec q)))"
  let ?os = "(spec_max K q, Ptr (qo_labels q), ?cfg)" and ?n = "qo_name q"
  have bal: "mgr_balanced K amount reqs (cy_queues s)" using inv by (simp add: cy_inv_def)
  have upd: "Manager_Update K ?n (spec_opts (spec_max K q) (Ptr (qo_labels q)) ?cfg) (cy_queues s) = Some qm'"
    using qm' by (simp add: updateQueue_eq [OF q] spec_max_def)
  then have get: "Manager_GetByName qm' n' = (if n' = ?n then Ptr (case Manager_GetByName (cy_queues s) ?n of
      NilP \<Rightarrow> fresh_queue K ?n ?os | Ptr q0 \<Rightarrow> respec_queue ?os q0) else Manager_GetByName (cy_queues s) n')" for n'
    by (simp add: Update_spec GetByName_store)
  have bal': "mgr_balanced K amount reqs qm'" and acc: "mgr_accounts K qm' = (mgr_accounts K (cy_queues s))(?n \<mapsto> mgr_tracked K (cy_queues s) ?n)"
    using Update_accounts [OF bal, of "spec_max K q" ?n "Ptr (qo_labels q)" ?cfg] upd by (auto simp: spec_max_def)
  have "cy_fits K amount reqs qm' ?n (\<lambda>r. 0)"
  proof (cases "Manager_GetByName (cy_queues s) ?n")
    case NilP
    with get [of ?n] show ?thesis by (intro fresh_fits [OF _ mx]) (simp del: fresh_queue.simps)
  next
    case (Ptr q0)
    from mgr_balancedD [OF bal Ptr] obtain quota where "queue_quota q0 = Ptr quota" by metis
    then have "mgr_max qm' ?n = spec_max K q"
      using get [of ?n] Ptr by (simp add: mgr_max_def Quota_SetMax_def Quota_Max_def)
    moreover have "mgr_tracked K qm' ?n = mgr_tracked K (cy_queues s) ?n" by (simp add: mgr_tracked_accounts [of K qm'] acc)
    moreover have "cy_fits K amount reqs (cy_queues s) ?n (\<lambda>r. 0)" using inv by (simp add: cy_inv_def)
    ultimately show ?thesis using raised mx by (auto simp: cy_fits_def Ptr intro: fits_max_raised)
  qed
  with cy_inv_store [OF inv bal' none, of ?n] get show ?thesis by simp
qed

lemma cy_inv_deleteQueue:
  assumes "cy_inv K amount reqs s" and "sync_deleteQueue obj (cy_queues s) = Some qm'"
  shows "cy_inv K amount reqs (s\<lparr>cy_plugin := (cy_plugin s)\<lparr>plugin_queueMgr := qm'\<rparr>\<rparr>)"
proof -
  have bal: "mgr_balanced K amount reqs (cy_queues s)" using assms(1) by (simp add: cy_inv_def)
  obtain n where qm': "qm' = Manager_Delete n (cy_queues s)"
    using assms(2) by (cases "as_queue obj") (auto simp: sync_deleteQueue_def)
  have "cy_fits K amount reqs qm' n w" if "cy_fits K amount reqs (cy_queues s) n w" for n w
    using that by (simp add: qm' cy_fits_def GetByName_delete mgr_max_def mgr_tracked_def)
  with assms(1) mgr_balanced_delete [OF bal] show ?thesis by (simp add: cy_inv_def qm')
qed

text \<open>The handlers of pods keep the queues; counting a pod that is counted changes nothing.\<close>

lemma cy_inv_pods:
  assumes inv: "cy_inv K amount reqs s" and ok: "case pod of NilP \<Rightarrow> True | Ptr p \<Rightarrow> pod_ok K reqs p"
    and nonneg: "reqs_nonneg amount reqs"
    and run: "Manager_DeletePodIfPresent K pod (cy_queues s) = Some (qm', err) \<or>
      Manager_AddPodIfNotPresent K pod (cy_queues s) = Some (qm', err) \<and>
      (case pod of NilP \<Rightarrow> True | Ptr p \<Rightarrow> (case pod_queue p of None \<Rightarrow> True | Some n \<Rightarrow>
        Manager_GetByName (cy_queues s) n = NilP \<or> pod_uid p \<in> mgr_tracked K (cy_queues s) n))"
  shows "cy_inv K amount reqs (s\<lparr>cy_plugin := (cy_plugin s)\<lparr>plugin_queueMgr := qm'\<rparr>\<rparr>)"
proof (cases pod)
  case NilP
  with run have "qm' = cy_queues s" by (auto simp: Manager_DeletePodIfPresent_def Manager_AddPodIfNotPresent_def)
  with inv show ?thesis by simp
next
  case (Ptr p)
  have bal: "mgr_balanced K amount reqs (cy_queues s)" using inv by (simp add: cy_inv_def)
  have p: "pod_ok K reqs p" using ok Ptr by simp
  from run have "mgr_balanced K amount reqs qm' \<and> queue_frame (cy_queues s) qm' \<and>
      (\<forall>n. mgr_tracked K qm' n \<subseteq> mgr_tracked K (cy_queues s) n)"
  proof
    assume "Manager_DeletePodIfPresent K pod (cy_queues s) = Some (qm', err)"
    with Manager_DeletePod_result [OF bal p] show ?thesis by (auto simp: Ptr)
  next
    assume "Manager_AddPodIfNotPresent K pod (cy_queues s) = Some (qm', err) \<and>
      (case pod of NilP \<Rightarrow> True | Ptr p \<Rightarrow> (case pod_queue p of None \<Rightarrow> True | Some n \<Rightarrow>
        Manager_GetByName (cy_queues s) n = NilP \<or> pod_uid p \<in> mgr_tracked K (cy_queues s) n))"
    with Manager_AddPod_result [OF bal p] show ?thesis by (auto simp: Ptr split: if_splits)
  qed
  then show ?thesis by (intro cy_inv_shrink [OF inv _ _ _ nonneg, where qm' = qm']) auto
qed

lemma cy_inv_sync:
  assumes "cy_inv K amount reqs s" and "sync_step K ev (cy_queues s) = Some qm'"
    and "sync_event_ok K reqs ev" and "quiet_event K amount s ev" and "reqs_nonneg amount reqs"
  shows "cy_inv K amount reqs (s\<lparr>cy_plugin := (cy_plugin s)\<lparr>plugin_queueMgr := qm'\<rparr>\<rparr>)"
proof (cases ev)
  case (QueueAdded obj)
  with assms show ?thesis by (cases "as_queue obj") (auto intro: cy_inv_addQueue)
next
  case (QueueUpdated oldObj newObj)
  with assms show ?thesis by (cases "as_queue newObj") (auto intro: cy_inv_updateQueue)
next
  case (QueueDeleted obj)
  with assms show ?thesis by (auto intro: cy_inv_deleteQueue)
next
  case (PodAdded obj)
  with assms cy_inv_pods [OF assms(1) _ assms(5), of "as_pod obj" qm'] show ?thesis
    by (auto simp: sync_addPod_def split: bind_splits)
next
  case (PodUpdated oldObj newObj)
  with assms cy_inv_pods [OF assms(1) _ assms(5), of "as_pod newObj" qm'] show ?thesis
    by (auto simp: sync_updatePod_def Let_def split: bind_splits if_splits)
next
  case (PodDeleted obj)
  with assms cy_inv_pods [OF assms(1) _ assms(5), of "as_pod obj" qm'] show ?thesis
    by (auto simp: sync_deletePod_def split: bind_splits)
qed

lemma cy_inv_step:
  assumes "cycle_step K amount reqs HS s s'" and "cy_inv K amount reqs s" and "reqs_nonneg amount reqs"
    and "\<And>H. H \<in> HS \<Longrightarrow> nominated_ok K H reqs"
  shows "cy_inv K amount reqs s'"
  using assms
proof cases
  case cy_abandon
  with assms(2) show ?thesis by (simp add: cy_inv_def)
qed (auto intro: cy_inv_admit cy_inv_reserve cy_inv_unreserve cy_inv_sync)

lemma cycle_reach_inv:
  assumes "cycle_reach K amount reqs HS s" and "reqs_nonneg amount reqs" and "\<And>H. H \<in> HS \<Longrightarrow> nominated_ok K H reqs"
  shows "cy_inv K amount reqs s"
  using assms(1)
proof induction
  case (cy_init P)
  then show ?case
    by (simp add: cy_inv_def cy_fits_def mgr_balanced_new) (simp add: Manager_GetByName_def NewManager_def)
next
  case (cy_next s s')
  then show ?case using cy_inv_step assms(2,3) by blast
qed

text \<open>The victims' deletions, as the informer delivers them to the live queues.\<close>

lemma delete_all_result:
  assumes "mgr_balanced K amount reqs qm" and "\<forall>v \<in> set vs. pod_ok K reqs v"
  shows "\<exists>qm'. for_each (sync_step K) (map (\<lambda>v. PodDeleted (AnyPod (Ptr v))) vs) qm = Some qm' \<and>
    mgr_balanced K amount reqs qm' \<and> queue_frame qm qm' \<and>
    (\<forall>n. mgr_tracked K qm' n = mgr_tracked K qm n - pod_uid ` {v \<in> set vs. pod_queue v = Some n})"
  using assms
proof (induction vs arbitrary: qm)
  case (Cons v vs)
  from Manager_DeletePod_result [OF Cons.prems(1), of v] Cons.prems(2) obtain qm1 err where
    qm1: "Manager_DeletePodIfPresent K (Ptr v) qm = Some (qm1, err)" "mgr_balanced K amount reqs qm1" "queue_frame qm qm1"
      "\<forall>n. mgr_tracked K qm1 n = (if pod_queue v = Some n then mgr_tracked K qm n - {pod_uid v} else mgr_tracked K qm n)"
    by auto
  from Cons.IH [OF qm1(2)] Cons.prems(2) obtain qm' where
    qm': "for_each (sync_step K) (map (\<lambda>v. PodDeleted (AnyPod (Ptr v))) vs) qm1 = Some qm'"
      "mgr_balanced K amount reqs qm'" "queue_frame qm1 qm'"
      "\<forall>n. mgr_tracked K qm' n = mgr_tracked K qm1 n - pod_uid ` {v \<in> set vs. pod_queue v = Some n}" by auto
  have "for_each (sync_step K) (map (\<lambda>v. PodDeleted (AnyPod (Ptr v))) (v # vs)) qm = Some qm'"
    using qm1(1) qm'(1) by (simp add: sync_deletePod_def)
  moreover have "mgr_tracked K qm' n = mgr_tracked K qm n - pod_uid ` {w \<in> set (v # vs). pod_queue w = Some n}" for n
    using qm1(4) qm'(4) by auto
  ultimately show ?case using qm'(2) queue_frame_trans [OF qm1(3) qm'(3)] by blast
qed (simp add: queue_frame_refl)

end


section \<open>The example\<close>

text \<open>A queue is added, then a pod of it passes PreFilter and is reserved.\<close>

definition ex_event :: "int sync_event" where
  "ex_event = QueueAdded (AnyQueue (Ptr (ref_queue ''b'' 3000)))"

definition ex_plugin :: "(int, ref_selector, ref_map) plugin" where
  "ex_plugin = ref_plugin\<lparr>plugin_queueMgr := the (sync_step ref_kube ex_event NewManager)\<rparr>"

definition ex_reserved :: "(int, ref_selector, ref_map) plugin" where
  "ex_reserved = fst (the (Reserve ref_kube ref_pod_b ex_plugin))"

lemma ex_run:
  "sync_step ref_kube ex_event NewManager = Some (plugin_queueMgr ex_plugin)"
  "map_option (\<lambda>(c, st). status_IsSuccess st) (PreFilter ref_kube ref_fh ex_plugin [] ref_pod_b) = Some True"
  "Reserve ref_kube ref_pod_b ex_plugin = Some (ex_reserved, NewStatus Success [''''])"
  "Quota_Max (Queue_Quota (Manager_GetByName (plugin_queueMgr ex_reserved) ''b'')) = Ptr [(''cpu'', 3000)]"
  "gm_get (Quota_Used (Queue_Quota (Manager_GetByName (plugin_queueMgr ex_reserved) ''b''))) ''cpu'' = Some 1000"
  "\<not> is_nil (Manager_GetByName (plugin_queueMgr ex_reserved) ''b'')"
  by code_simp+

lemma ex_reach:
  "cycle_reach ref_kube ref_amount ref_reqs {ref_fh} \<lparr>cy_plugin = ex_reserved, cy_admitted = None\<rparr>"
proof -
  let ?reach = "cycle_reach ref_kube ref_amount ref_reqs {ref_fh}"
  let ?P = "ref_plugin\<lparr>plugin_queueMgr := NewManager\<rparr>"
  have "?reach \<lparr>cy_plugin = ?P, cy_admitted = None\<rparr>" by (rule cy_init) simp
  moreover have "max_nonneg ref_amount (spec_max ref_kube (ref_queue ''b'' 3000))"
    using ref_max_nonneg by (simp add: spec_max_def ref_queue_def ref_quantity.FromResourceList_eq gm_wf_Ptr)
  then have ev: "quiet_event ref_kube ref_amount \<lparr>cy_plugin = ?P, cy_admitted = None\<rparr> ex_event"
    "sync_event_ok ref_kube ref_reqs ex_event" by (simp_all add: ex_event_def queue_obj_ok_def is_nil_def)
  have "sync_step ref_kube ex_event (plugin_queueMgr ?P) = Some (plugin_queueMgr ex_plugin)"
    "?P\<lparr>plugin_queueMgr := plugin_queueMgr ex_plugin\<rparr> = ex_plugin"
    using ex_run(1) by (simp_all add: ex_plugin_def)
  then have "cycle_step ref_kube ref_amount ref_reqs {ref_fh} \<lparr>cy_plugin = ?P, cy_admitted = None\<rparr>
      \<lparr>cy_plugin = ex_plugin, cy_admitted = None\<rparr>"
    using cy_sync [OF _ ev(2,1), of "plugin_queueMgr ex_plugin"] by simp
  ultimately have "?reach \<lparr>cy_plugin = ex_plugin, cy_admitted = None\<rparr>" by (rule cy_next)
  moreover obtain c st where "PreFilter ref_kube ref_fh ex_plugin [] ref_pod_b = Some (c, st)" "status_IsSuccess st"
    using ex_run(2) by (auto split: prod.splits)
  then have "cycle_step ref_kube ref_amount ref_reqs {ref_fh} \<lparr>cy_plugin = ex_plugin, cy_admitted = None\<rparr>
      \<lparr>cy_plugin = ex_plugin, cy_admitted = Some ref_pod_b\<rparr>"
    using cy_admit [of ref_fh "{ref_fh}" ref_kube "\<lparr>cy_plugin = ex_plugin, cy_admitted = None\<rparr>"]
    by (simp add: ref_pod_b_def ref_pod_ok)
  ultimately have "?reach \<lparr>cy_plugin = ex_plugin, cy_admitted = Some ref_pod_b\<rparr>" by (rule cy_next)
  then show ?thesis by (rule cy_next) (rule cy_reserve, simp, simp add: ex_run(3))
qed

definition ex_state :: ref_state where
  "ex_state = fst (the (PreFilter ref_kube ref_fh ref_plugin [] ref_preemptor_b))"

lemma ex_preempt:
  "map_option fst (PreFilter ref_kube ref_fh ref_plugin [] ref_preemptor_b) = Some ex_state"
  "SelectVictimsOnNode ref_kube ref_fh ex_state ref_preemptor_b ref_cluster_node [] =
     Some ([ref_pod ''p1'' ''b'' 1 1000], 0, NewStatus Success [])"
  "uids_ahead ref_kube ref_fh ref_preemptor_b = {}"
  by code_simp+

section \<open>Properties\<close>

text \<open>
  C2. No queue ever exceeds its maximum: in every state the scheduling loop can reach, the usage of
  a queue is at most its maximum on every resource the maximum names. This holds although pods are
  unreserved, deleted and updated, and queues added, raised and deleted, between any two cycles. The
  hypotheses are those of \<open>cycle_step\<close>: queues do not change within a cycle and are not lowered, and
  pods of a queue get to nodes through this scheduler only.
\<close>

theorem quota_never_exceeded:
  assumes "kube_laws K amount" and "reqs_nonneg amount reqs" and "\<forall>H \<in> HS. nominated_ok K H reqs"
    and "cycle_reach K amount reqs HS s" and "Manager_GetByName (plugin_queueMgr (cy_plugin s)) n = Ptr q"
    and "r \<in> gm_dom (Quota_Max (queue_quota q))"
  shows "mgr_used amount (plugin_queueMgr (cy_plugin s)) n r \<le> res_amount amount (Quota_Max (queue_quota q)) r"
proof -
  have inv: "cy_inv K amount reqs s" using kube_laws.cycle_reach_inv [OF assms(1,4,2)] assms(3) by blast
  then have "fits_max amount reqs (Quota_Max (queue_quota q)) (mgr_tracked K (cy_queues s) n) (\<lambda>r. 0)"
    using mgr_max_Ptr [OF assms(5)] assms(5) by (simp add: cy_inv_def cy_fits_def) (metis ptr.distinct(1))
  moreover have "mgr_balanced K amount reqs (cy_queues s)" using inv by (simp add: cy_inv_def)
  ultimately show ?thesis
    using kube_laws.mgr_used_sum [OF assms(1), of reqs "cy_queues s"] assms(6) by (simp add: fits_max_def)
qed

theorem quota_never_exceeded_witness:
  "mgr_used ref_amount (plugin_queueMgr ex_reserved) ''b'' ''cpu'' \<le> 3 \<and>
   mgr_used ref_amount (plugin_queueMgr ex_reserved) ''b'' ''cpu'' = 1"
proof -
  obtain q where q: "Manager_GetByName (plugin_queueMgr ex_reserved) ''b'' = Ptr q"
    "Quota_Max (queue_quota q) = Ptr [(''cpu'', 3000)]"
    using ex_run(4,6) by (cases "Manager_GetByName (plugin_queueMgr ex_reserved) ''b''") (auto simp: is_nil_def)
  then have "mgr_used ref_amount (plugin_queueMgr ex_reserved) ''b'' ''cpu'' \<le> res_amount ref_amount (Ptr [(''cpu'', 3000)]) ''cpu''"
    using quota_never_exceeded [OF ref_laws.kube_laws_axioms ref_reqs_nonneg _ ex_reach, of "''b''" q "''cpu''"]
      ref_fh_facts(1) by (simp add: gm_dom_def gm_keys_def)
  then show ?thesis using ex_run(5) by (simp add: res_amount_def ref_amount_def mgr_used_def)
qed

text \<open>
  A later cycle, with the plugin \<open>P'\<close> and the framework \<open>H'\<close>, without newcomers: the queue has kept its maximum and
  counts none but the pods of \<open>uids\<close>, and no nominated pod is ahead of the preemptor that was not before.
\<close>

definition no_newcomers :: "('q, 's, 'm) kube \<Rightarrow> ('q \<Rightarrow> rat) \<Rightarrow> (string \<Rightarrow> 'q resource_list) \<Rightarrow> ('q, 's, 'm, 'x, 'c, 'n) handle \<Rightarrow> 'q pod \<Rightarrow> string \<Rightarrow>
    'q resources \<Rightarrow> string set \<Rightarrow> ('q, 's, 'm) plugin \<Rightarrow> ('q, 's, 'm, 'x, 'c, 'n) handle \<Rightarrow> bool" where
  "no_newcomers K amount reqs H pod n mx uids P' H' \<longleftrightarrow> mgr_balanced K amount reqs (plugin_queueMgr P') \<and>
     Manager_GetByName (plugin_queueMgr P') n \<noteq> NilP \<and> mgr_max (plugin_queueMgr P') n = mx \<and> mgr_tracked K (plugin_queueMgr P') n \<subseteq> uids \<and>
     nominated_ok K H' reqs \<and> (\<exists>nodes'. NodeInfos_List H' = Inr nodes') \<and> uids_ahead K H' pod \<subseteq> uids_ahead K H pod"

text \<open>
  C4. A preemption makes room. Let PreFilter have put its snapshot into the cycle state and
  \<^verbatim>\<open>SelectVictimsOnNode\<close> have found victims on a node whose pods are no nominated ones. The handlers deal with
  the victims' deletions, delivered as the pods themselves (a tombstone would release nothing), and the
  preemptor's queue then counts what it counted without the victims. From then on PreFilter lets the preemptor
  through in every cycle without newcomers: whatever has happened to the manager meanwhile, the queue still has
  its maximum, it counts no pod it did not count then (no other pod has been reserved in it or reported to
  it), and no further nominated pod is ahead of the preemptor.
\<close>

theorem preemption_makes_room:
  assumes "framework K amount H nview nadd nok" and "mgr_balanced K amount reqs (plugin_queueMgr P)"
    and "nominated_ok K H reqs" and "reqs_nonneg amount reqs" and "NodeInfos_List H = Inr nodes"
    and "pod_queue pod = Some n" and "Manager_GetByName (plugin_queueMgr P) n = Ptr q"
    and "max_nonneg amount (Quota_Max (queue_quota q))"
    and "PreFilter K H P c pod = Some (c1, st1)"
    and "SelectVictimsOnNode K H c1 pod ni pdbs = Some (vs, k, st)" and "status_IsSuccess st"
    and "\<forall>x \<in> set (ni_GetPods H ni). pod_ok K reqs (GetPod x) \<and> pod_uid (GetPod x) \<notin> uids_ahead K H pod"
    and "distinct (map (pod_uid \<circ> GetPod) (ni_GetPods H ni))"
  shows "\<exists>qm'. for_each (sync_step K) (map (\<lambda>v. PodDeleted (AnyPod (Ptr v))) vs) (plugin_queueMgr P) = Some qm' \<and>
    no_newcomers K amount reqs H pod n (Quota_Max (queue_quota q))
      (mgr_tracked K (plugin_queueMgr P) n - pod_uid ` {v \<in> set vs. pod_queue v = Some n}) (P\<lparr>plugin_queueMgr := qm'\<rparr>) H \<and>
    (\<forall>P' H' c'. no_newcomers K amount reqs H pod n (Quota_Max (queue_quota q))
        (mgr_tracked K (plugin_queueMgr P) n - pod_uid ` {v \<in> set vs. pod_queue v = Some n}) P' H' \<longrightarrow>
      (\<exists>c2 st2. PreFilter K H' P' c' pod = Some (c2, st2) \<and> status_IsSuccess st2))"
proof -
  let ?mx = "Quota_Max (queue_quota q)" and ?qm = "plugin_queueMgr P"
  let ?gone = "pod_uid ` {v \<in> set vs. pod_queue v = Some n}"
  have laws: "kube_laws K amount" and cs: "cycle_state H" using framework.axioms [OF assms(1)] by blast+
  obtain snap where snap: "c1 = set_snapshot H c snap" "mgr_balanced K amount reqs snap" "queue_frame ?qm snap"
      "mgr_tracked K snap n = mgr_tracked K ?qm n \<union> uids_ahead K H pod"
    using kube_laws.PreFilter_result [OF laws assms(2,3,6,7,5,8), of c] assms(9) by auto
  have rd: "ReadQueueSnapshot H c1 = Inr \<lparr>qss_QueueMgr = snap\<rparr>"
    unfolding snap(1) by (rule cycle_state.Read_set_snapshot [OF cs])
  obtain q1 where q1: "Manager_GetByName snap n = Ptr q1" "Quota_Max (queue_quota q1) = ?mx"
    using queue_frame_nil [OF snap(3), of n] mgr_max_frame [OF snap(3), of n] assms(7)
    by (cases "Manager_GetByName snap n") (simp_all add: mgr_max_def)
  have fits: "fits_max amount reqs ?mx (mgr_tracked K snap n - ?gone) (pod_req K amount pod)"
    using framework.SelectVictims_quota [OF assms(1,10,11) rd snap(2) _ assms(13,4,6) q1(1)] assms(8,12) q1(2) by auto
  have vs: "set vs \<subseteq> GetPod ` set (ni_GetPods H ni)" using SelectVictims_potential [OF assms(10) rd] by auto
  then have ok: "\<forall>v \<in> set vs. pod_ok K reqs v" using assms(12) by auto
  obtain qm' where qm': "for_each (sync_step K) (map (\<lambda>v. PodDeleted (AnyPod (Ptr v))) vs) ?qm = Some qm'"
      "mgr_balanced K amount reqs qm'" "queue_frame ?qm qm'" "mgr_tracked K qm' n = mgr_tracked K ?qm n - ?gone"
    using kube_laws.delete_all_result [OF laws assms(2) ok] by blast
  have max: "mgr_max qm' n = ?mx" "Manager_GetByName qm' n \<noteq> NilP"
    using queue_frame_nil [OF qm'(3), of n] mgr_max_frame [OF qm'(3), of n] assms(7) by (simp_all add: mgr_max_def)
  have gone: "?gone \<inter> uids_ahead K H pod = {}" using vs assms(12) by blast
  have later: "\<exists>c2 st2. PreFilter K H' P' c' pod = Some (c2, st2) \<and> status_IsSuccess st2"
    if "no_newcomers K amount reqs H pod n ?mx (mgr_tracked K ?qm n - ?gone) P' H'" for P' H' c'
  proof -
    from that obtain nodes' where P': "mgr_balanced K amount reqs (plugin_queueMgr P')" "Manager_GetByName (plugin_queueMgr P') n \<noteq> NilP"
      "mgr_max (plugin_queueMgr P') n = ?mx" "mgr_tracked K (plugin_queueMgr P') n \<subseteq> mgr_tracked K ?qm n - ?gone"
      and H': "nominated_ok K H' reqs" "NodeInfos_List H' = Inr nodes'" "uids_ahead K H' pod \<subseteq> uids_ahead K H pod"
      unfolding no_newcomers_def by blast
    obtain q2 where q2: "Manager_GetByName (plugin_queueMgr P') n = Ptr q2" "Quota_Max (queue_quota q2) = ?mx"
      using P'(2,3) by (cases "Manager_GetByName (plugin_queueMgr P') n") (simp_all add: mgr_max_def)
    have "mgr_tracked K (plugin_queueMgr P') n \<union> uids_ahead K H' pod \<subseteq> mgr_tracked K snap n - ?gone"
      using H'(3) P'(4) gone by (auto simp: snap(4))
    from kube_laws.fits_max_mono [OF laws fits this _ assms(4)]
    have "fits_max amount reqs ?mx (mgr_tracked K (plugin_queueMgr P') n \<union> uids_ahead K H' pod) (pod_req K amount pod)"
      by (simp add: kube_laws.finite_mgr_tracked [OF laws])
    with kube_laws.PreFilter_result [OF laws P'(1) H'(1) assms(6) q2(1) H'(2), of c'] q2(2) assms(8)
    show ?thesis by (auto simp: status_IsSuccess_def)
  qed
  have "no_newcomers K amount reqs H pod n ?mx (mgr_tracked K ?qm n - ?gone) (P\<lparr>plugin_queueMgr := qm'\<rparr>) H"
    using qm'(2,4) max assms(3,5) by (simp add: no_newcomers_def)
  with qm'(1) later show ?thesis by blast
qed

theorem preemption_makes_room_witness:
  "\<exists>qm' c2 st2. for_each (sync_step ref_kube) [PodDeleted (AnyPod (Ptr (ref_pod ''p1'' ''b'' 1 1000)))] ref_mgr = Some qm' \<and>
    PreFilter ref_kube ref_fh (ref_plugin\<lparr>plugin_queueMgr := qm'\<rparr>) [] ref_preemptor_b = Some (c2, st2) \<and> status_IsSuccess st2"
proof -
  obtain st1 where pf: "PreFilter ref_kube ref_fh ref_plugin [] ref_preemptor_b = Some (ex_state, st1)"
    using ex_preempt(1) by auto
  obtain q where q: "Manager_GetByName (plugin_queueMgr ref_plugin) ''b'' = Ptr q" "Quota_Max (queue_quota q) = Ptr [(''cpu'', 3000)]"
    using ref_queue_b by (auto simp: ref_plugin_def)
  have b: "pod_queue ref_preemptor_b = Some ''b''" "max_nonneg ref_amount (Quota_Max (queue_quota q))"
    using q(2) ref_max_nonneg by (simp_all add: ref_preemptor_b_def ref_pod_queue)
  have ok: "\<forall>x \<in> set (ni_GetPods ref_fh ref_cluster_node). pod_ok ref_kube ref_reqs (GetPod x) \<and>
      pod_uid (GetPod x) \<notin> uids_ahead ref_kube ref_fh ref_preemptor_b"
    using ref_cluster_pods(1) by (simp add: ex_preempt(3))
  have succ: "status_IsSuccess (NewStatus Success [])" by simp
  note room = preemption_makes_room [OF ref_framework_fh ref_mgr_balanced ref_fh_facts(1) ref_reqs_nonneg ref_fh_facts(2) b(1) q(1) b(2)
      pf ex_preempt(2) succ ok ref_cluster_pods(2)]
  from room obtain qm' where
    qm': "for_each (sync_step ref_kube) (map (\<lambda>v. PodDeleted (AnyPod (Ptr v))) [ref_pod ''p1'' ''b'' 1 1000]) (plugin_queueMgr ref_plugin) = Some qm'"
    "\<exists>c2 st2. PreFilter ref_kube ref_fh (ref_plugin\<lparr>plugin_queueMgr := qm'\<rparr>) [] ref_preemptor_b = Some (c2, st2) \<and> status_IsSuccess st2"
    by blast
  then show ?thesis by (simp add: ref_plugin_def del: for_each.simps)
qed

end
