(* ===== verification/InformerFactory.thy ===== *)
theory InformerFactory
  imports QueueApi
begin

text \<open>
  The shared informer factory of the Queue resource (\<^verbatim>\<open>client/informers/externalversions\<close>): a registry of
  informers by type that starts each of them once. A \<^verbatim>\<open>reflect.Type\<close> is its name. An informer itself
  is code of client-go, of a type \<open>'i\<close>; the record \<open>informer_api\<close> holds what the factory calls of it. A
  goroutine that \<^verbatim>\<open>wg.Go\<close> starts is the type of its informer in \<open>sif_wg\<close>, in the order of the starts.
\<close>

section \<open>The factory\<close>

record ('i, 'f) informer_api =
  inf_SetTransform :: "'f \<Rightarrow> 'i \<Rightarrow> 'i"
  inf_HasSynced :: "'i \<Rightarrow> bool"

record ('c, 'i, 'w, 'f) shared_informer_factory =
  sif_client :: 'c
  sif_namespace :: string
  sif_tweakListOptions :: "'w ptr"
  sif_defaultResync :: int
  sif_customResync :: "(string, int) gomap"
  sif_transform :: "'f ptr"
  sif_informerName :: "string ptr"
  sif_informers :: "(string, 'i) gomap"
  sif_startedInformers :: "(string, bool) gomap"
  sif_wg :: "string list"
  sif_shuttingDown :: bool

type_synonym ('c, 'i, 'w, 'f) informer_option =
  "('c, 'i, 'w, 'f) shared_informer_factory \<Rightarrow> ('c, 'i, 'w, 'f) shared_informer_factory option"

text \<open>The configuration of \<^verbatim>\<open>WithCustomResyncConfig\<close> lists the types of its keys with their periods.\<close>

definition WithCustomResyncConfig :: "(string \<times> int) list \<Rightarrow> ('c, 'i, 'w, 'f) informer_option" where
  "WithCustomResyncConfig resyncConfig = for_each (\<lambda>(k, v) factory. do {
     customResync \<leftarrow> gm_set (sif_customResync factory) k v;
     Some (factory\<lparr>sif_customResync := customResync\<rparr>) }) resyncConfig"

definition WithTweakListOptions :: "'w ptr \<Rightarrow> ('c, 'i, 'w, 'f) informer_option" where
  "WithTweakListOptions tweakListOptions factory = Some (factory\<lparr>sif_tweakListOptions := tweakListOptions\<rparr>)"

definition WithInformerNamespace :: "string \<Rightarrow> ('c, 'i, 'w, 'f) informer_option" where
  "WithInformerNamespace namespace factory = Some (factory\<lparr>sif_namespace := namespace\<rparr>)"

definition WithTransform :: "'f ptr \<Rightarrow> ('c, 'i, 'w, 'f) informer_option" where
  "WithTransform transform factory = Some (factory\<lparr>sif_transform := transform\<rparr>)"

definition WithInformerName :: "string ptr \<Rightarrow> ('c, 'i, 'w, 'f) informer_option" where
  "WithInformerName informerName factory = Some (factory\<lparr>sif_informerName := informerName\<rparr>)"

definition NewSharedInformerFactoryWithOptions :: "'c \<Rightarrow> int \<Rightarrow> ('c, 'i, 'w, 'f) informer_option list \<Rightarrow> ('c, 'i, 'w, 'f) shared_informer_factory option" where
  "NewSharedInformerFactoryWithOptions client defaultResync options = for_each (\<lambda>opt. opt) options
     \<lparr>sif_client = client, sif_namespace = '''', sif_tweakListOptions = NilP, sif_defaultResync = defaultResync,
       sif_customResync = gm_make, sif_transform = NilP, sif_informerName = NilP, sif_informers = gm_make,
       sif_startedInformers = gm_make, sif_wg = [], sif_shuttingDown = False\<rparr>"

definition NewSharedInformerFactory :: "'c \<Rightarrow> int \<Rightarrow> ('c, 'i, 'w, 'f) shared_informer_factory option" where
  "NewSharedInformerFactory client defaultResync = NewSharedInformerFactoryWithOptions client defaultResync []"

definition NewFilteredSharedInformerFactory :: "'c \<Rightarrow> int \<Rightarrow> string \<Rightarrow> 'w ptr \<Rightarrow> ('c, 'i, 'w, 'f) shared_informer_factory option" where
  "NewFilteredSharedInformerFactory client defaultResync namespace tweakListOptions =
     NewSharedInformerFactoryWithOptions client defaultResync
       [WithInformerNamespace namespace, WithTweakListOptions tweakListOptions]"

section \<open>Running informers\<close>

definition start_informer :: "string \<times> 'i \<Rightarrow> ('c, 'i, 'w, 'f) informer_option" where
  "start_informer = (\<lambda>(informerType, informer) f.
     if gm_get (sif_startedInformers f) informerType = Some True then Some f
     else do {
       started \<leftarrow> gm_set (sif_startedInformers f) informerType True;
       Some (f\<lparr>sif_wg := sif_wg f @ [informerType], sif_startedInformers := started\<rparr>) })"

definition StartWithContext :: "('c, 'i, 'w, 'f) informer_option" where
  "StartWithContext f = (if sif_shuttingDown f then Some f
     else for_each start_informer (gm_entries (sif_informers f)) f)"

text \<open>\<^verbatim>\<open>Shutdown\<close> up to its wait for the goroutines.\<close>

definition Shutdown :: "('c, 'i, 'w, 'f) shared_informer_factory \<Rightarrow> ('c, 'i, 'w, 'f) shared_informer_factory" where
  "Shutdown f = f\<lparr>sif_shuttingDown := True\<rparr>"

record sync_result =
  sr_Synced :: "(string, bool) gomap"
  sr_Err :: "string option"

text \<open>
  \<^verbatim>\<open>WaitForCacheSyncWithContext\<close> after its wait: \<open>api\<close> and \<open>cause\<close> are what \<^verbatim>\<open>HasSynced\<close> and
  \<^verbatim>\<open>context.Cause\<close> return then.
\<close>

definition WaitForCacheSyncWithContext :: "('i, 'f) informer_api \<Rightarrow> string option \<Rightarrow> ('c, 'i, 'w, 'f) shared_informer_factory \<Rightarrow> sync_result" where
  "WaitForCacheSyncWithContext api cause f =
     (let informers = filter (\<lambda>(informerType, informer). gm_get (sif_startedInformers f) informerType = Some True)
          (gm_entries (sif_informers f));
        synced = map (\<lambda>(informType, informer). (informType, inf_HasSynced api informer)) informers;
        failed = list_ex (\<lambda>(informType, hasSynced). \<not> hasSynced) synced
      in \<lparr>sr_Synced = Ptr synced, sr_Err = (if failed then cause else None)\<rparr>)"

definition WaitForCacheSync :: "('i, 'f) informer_api \<Rightarrow> string option \<Rightarrow> ('c, 'i, 'w, 'f) shared_informer_factory \<Rightarrow> (string, bool) gomap" where
  "WaitForCacheSync api cause f = sr_Synced (WaitForCacheSyncWithContext api cause f)"

section \<open>Requesting informers\<close>

definition InformerFor :: "('i, 'f) informer_api \<Rightarrow> string \<Rightarrow> ('c \<Rightarrow> int \<Rightarrow> 'i) \<Rightarrow> ('c, 'i, 'w, 'f) shared_informer_factory \<Rightarrow> ('i \<times> ('c, 'i, 'w, 'f) shared_informer_factory) option" where
  "InformerFor api informerType newFunc f = (case gm_get (sif_informers f) informerType of
     Some informer \<Rightarrow> Some (informer, f)
   | None \<Rightarrow> do {
       let resyncPeriod = (case gm_get (sif_customResync f) informerType of Some p \<Rightarrow> p | None \<Rightarrow> sif_defaultResync f);
       let informer = newFunc (sif_client f) resyncPeriod;
       let informer = (case sif_transform f of NilP \<Rightarrow> informer | Ptr t \<Rightarrow> inf_SetTransform api t informer);
       informers \<leftarrow> gm_set (sif_informers f) informerType informer;
       Some (informer, f\<lparr>sif_informers := informers\<rparr>) })"

text \<open>
  The informer of queues, \<^verbatim>\<open>Scheduling().V1().Queues().Informer()\<close>: \<open>newInformer\<close> stands for client-go's
  constructor, given the client, the resync period and the name and list options of the factory. The
  generic access of \<^verbatim>\<open>ForResource\<close> knows this resource only.
\<close>

definition QueueType :: string where
  "QueueType = ''*v1.Queue''"

definition Queues_Informer :: "('i, 'f) informer_api \<Rightarrow> ('c \<Rightarrow> int \<Rightarrow> string ptr \<Rightarrow> 'w ptr \<Rightarrow> 'i) \<Rightarrow> ('c, 'i, 'w, 'f) shared_informer_factory \<Rightarrow> ('i \<times> ('c, 'i, 'w, 'f) shared_informer_factory) option" where
  "Queues_Informer api newInformer f =
     InformerFor api QueueType (\<lambda>client resyncPeriod. newInformer client resyncPeriod (sif_informerName f) (sif_tweakListOptions f)) f"

datatype group_version_resource = GVR (gvr_group: string) (gvr_version: string) (gvr_resource: string)

definition ForResource :: "('i, 'f) informer_api \<Rightarrow> ('c \<Rightarrow> int \<Rightarrow> string ptr \<Rightarrow> 'w ptr \<Rightarrow> 'i) \<Rightarrow> (group_version_resource \<Rightarrow> string) \<Rightarrow> group_version_resource \<Rightarrow> ('c, 'i, 'w, 'f) shared_informer_factory \<Rightarrow> (string + (string \<times> string) \<times> 'i \<times> ('c, 'i, 'w, 'f) shared_informer_factory) option" where
  "ForResource api newInformer gvr_String resource f =
     (if resource = GVR GroupName ''v1'' ''queues'' then do {
        (informer, f') \<leftarrow> Queues_Informer api newInformer f;
        Some (Inr ((gvr_group resource, gvr_resource resource), informer, f')) }
      else Some (Inl (''no informer found for '' @ gvr_String resource)))"


section \<open>Histories of calls\<close>

datatype ('c, 'i) factory_op =
    RequestInformer string "'c \<Rightarrow> int \<Rightarrow> 'i"
  | StartAll
  | ShutDown

fun factory_step :: "('i, 'f) informer_api \<Rightarrow> ('c, 'i) factory_op \<Rightarrow> ('c, 'i, 'w, 'f) shared_informer_factory \<Rightarrow> ('c, 'i, 'w, 'f) shared_informer_factory option" where
  "factory_step api (RequestInformer t newFunc) f = map_option snd (InformerFor api t newFunc f)"
| "factory_step api StartAll f = StartWithContext f"
| "factory_step api ShutDown f = Some (Shutdown f)"

definition sif_invar :: "('c, 'i, 'w, 'f) shared_informer_factory \<Rightarrow> bool" where
  "sif_invar f \<longleftrightarrow> sif_informers f \<noteq> NilP \<and> sif_startedInformers f \<noteq> NilP \<and> distinct (sif_wg f) \<and>
     set (sif_wg f) \<subseteq> gm_dom (sif_informers f) \<and>
     (\<forall>t. t \<in> set (sif_wg f) \<longleftrightarrow> gm_get (sif_startedInformers f) t = Some True)"

lemma sif_invar_new:
  "NewSharedInformerFactory client resync = Some f \<Longrightarrow> sif_invar f \<and> \<not> sif_shuttingDown f"
  by (auto simp: NewSharedInformerFactory_def NewSharedInformerFactoryWithOptions_def sif_invar_def gm_make_def)

text \<open>The loop of \<^verbatim>\<open>Start\<close> starts the informers it visits and that do not run.\<close>

lemma start_informer_result:
  assumes "sif_invar f" and "fst e \<in> gm_dom (sif_informers f)"
  shows "\<exists>f'. start_informer e f = Some f' \<and> sif_invar f' \<and> sif_informers f' = sif_informers f \<and>
    sif_shuttingDown f' = sif_shuttingDown f \<and> set (sif_wg f') = insert (fst e) (set (sif_wg f))"
proof (cases "gm_get (sif_startedInformers f) (fst e) = Some True")
  case True
  with assms(1) show ?thesis by (auto simp: start_informer_def split_beta sif_invar_def)
next
  case False
  from assms(1) obtain m where m: "gm_set (sif_startedInformers f) (fst e) True = Some m" "m \<noteq> NilP"
    by (cases "sif_startedInformers f") (auto simp: sif_invar_def)
  let ?f' = "f\<lparr>sif_wg := sif_wg f @ [fst e], sif_startedInformers := m\<rparr>"
  have "sif_invar ?f'" using assms False m(2) by (auto simp: sif_invar_def gm_get_set [OF m(1)])
  with m(1) False show ?thesis by (simp add: start_informer_def split_beta)
qed

lemma start_each_result:
  assumes "sif_invar f" and "fst ` set es \<subseteq> gm_dom (sif_informers f)"
  shows "\<exists>f'. for_each start_informer es f = Some f' \<and> sif_invar f' \<and> sif_informers f' = sif_informers f \<and>
    sif_shuttingDown f' = sif_shuttingDown f \<and> set (sif_wg f') = set (sif_wg f) \<union> fst ` set es"
  using assms
proof (induction es arbitrary: f)
  case (Cons e es)
  from start_informer_result [OF Cons.prems(1), of e] Cons.prems(2) obtain f1 where
    "start_informer e f = Some f1" "sif_invar f1" "sif_informers f1 = sif_informers f"
    "sif_shuttingDown f1 = sif_shuttingDown f" "set (sif_wg f1) = insert (fst e) (set (sif_wg f))" by auto
  with Cons.IH [of f1] Cons.prems(2) show ?case by auto
qed simp

lemma Start_result:
  assumes "sif_invar f"
  shows "\<exists>f'. StartWithContext f = Some f' \<and> sif_invar f' \<and> sif_shuttingDown f' = sif_shuttingDown f \<and>
    (if sif_shuttingDown f then f' = f else sif_informers f' = sif_informers f \<and> set (sif_wg f') = gm_dom (sif_informers f))"
  using start_each_result [OF assms, of "gm_entries (sif_informers f)"] assms
  by (auto simp: StartWithContext_def gm_dom_def gm_keys_def sif_invar_def)

lemma InformerFor_result:
  assumes "sif_invar f"
  shows "\<exists>i f'. InformerFor api t newFunc f = Some (i, f') \<and> sif_invar f' \<and> gm_get (sif_informers f') t = Some i \<and>
    sif_wg f' = sif_wg f \<and> sif_shuttingDown f' = sif_shuttingDown f \<and>
    (\<forall>u. u \<noteq> t \<longrightarrow> gm_get (sif_informers f') u = gm_get (sif_informers f) u)"
proof (cases "gm_get (sif_informers f) t")
  case None
  let ?i = "case sif_transform f of NilP \<Rightarrow> newFunc (sif_client f) (case gm_get (sif_customResync f) t of Some p \<Rightarrow> p | None \<Rightarrow> sif_defaultResync f)
    | Ptr tr \<Rightarrow> inf_SetTransform api tr (newFunc (sif_client f) (case gm_get (sif_customResync f) t of Some p \<Rightarrow> p | None \<Rightarrow> sif_defaultResync f))"
  from assms obtain m where m: "gm_set (sif_informers f) t ?i = Some m" "m \<noteq> NilP"
    by (cases "sif_informers f") (auto simp: sif_invar_def)
  have "sif_invar (f\<lparr>sif_informers := m\<rparr>)"
    using assms m(2) by (auto simp: sif_invar_def gm_dom_iff gm_get_set [OF m(1)])
  then show ?thesis
    using None m by (simp add: InformerFor_def Let_def gm_get_set [OF m(1)])
qed (simp add: InformerFor_def assms)

lemma factory_step_result:
  assumes "sif_invar f"
  shows "\<exists>f'. factory_step api op f = Some f' \<and> sif_invar f' \<and>
    sif_shuttingDown f' = (sif_shuttingDown f \<or> op = ShutDown) \<and> (sif_shuttingDown f \<longrightarrow> sif_wg f' = sif_wg f)"
proof (cases op)
  case (RequestInformer t newFunc)
  with InformerFor_result [OF assms, of api t newFunc] show ?thesis by auto
next
  case StartAll
  with Start_result [OF assms] show ?thesis by auto
next
  case ShutDown
  with assms show ?thesis by (simp add: Shutdown_def sif_invar_def)
qed

lemma factory_run_result:
  assumes "sif_invar f"
  shows "\<exists>f'. for_each (factory_step api) ops f = Some f' \<and> sif_invar f' \<and>
    sif_shuttingDown f' = (sif_shuttingDown f \<or> ShutDown \<in> set ops) \<and> (sif_shuttingDown f \<longrightarrow> sif_wg f' = sif_wg f)"
  using assms
proof (induction ops arbitrary: f)
  case (Cons op ops)
  from factory_step_result [OF Cons.prems, of api op] obtain f1 where
    "factory_step api op f = Some f1" "sif_invar f1" "sif_shuttingDown f1 = (sif_shuttingDown f \<or> op = ShutDown)"
    "sif_shuttingDown f \<longrightarrow> sif_wg f1 = sif_wg f" by blast
  with Cons.IH [of f1] show ?case by auto
qed simp

section \<open>Properties\<close>

text \<open>
  C31. Whatever informers are requested and however often the factory is started and shut down, no
  call panics, every informer runs at most once, a start leaves no requested informer behind unless
  the factory is shutting down, and after a shutdown none is started.
\<close>

theorem informers_start_once:
  assumes "NewSharedInformerFactory client resync = Some f0"
  shows "\<exists>f f'. for_each (factory_step api) ops f0 = Some f \<and> distinct (sif_wg f) \<and>
    sif_shuttingDown f = (ShutDown \<in> set ops) \<and> StartWithContext f = Some f' \<and> distinct (sif_wg f') \<and>
    (if ShutDown \<in> set ops then sif_wg f' = sif_wg f else set (sif_wg f') = gm_dom (sif_informers f)) \<and>
    (\<forall>ops'. map_option sif_wg (for_each (factory_step api) (ShutDown # ops') f) = Some (sif_wg f))"
proof -
  have "sif_invar f0" "\<not> sif_shuttingDown f0" using sif_invar_new [OF assms] by auto
  with factory_run_result [of f0 api ops] obtain f where
    f: "for_each (factory_step api) ops f0 = Some f" "sif_invar f" "sif_shuttingDown f = (ShutDown \<in> set ops)" by auto
  have inv: "sif_invar (Shutdown f)" "sif_shuttingDown (Shutdown f)" "sif_wg (Shutdown f) = sif_wg f"
    using f(2) by (simp_all add: Shutdown_def sif_invar_def)
  have "map_option sif_wg (for_each (factory_step api) (ShutDown # ops') f) = Some (sif_wg f)" for ops'
    using factory_run_result [OF inv(1), of api ops'] inv(2,3) by auto
  with f Start_result [OF f(2)] show ?thesis by (auto simp: sif_invar_def split: if_splits)
qed

definition ex_informer_api :: "(string \<times> int, unit) informer_api" where
  "ex_informer_api = \<lparr>inf_SetTransform = (\<lambda>_ i. i), inf_HasSynced = (\<lambda>_. True)\<rparr>"

definition ex_factory_ops :: "(string, string \<times> int) factory_op list" where
  "ex_factory_ops = [RequestInformer QueueType Pair, StartAll, RequestInformer ''*v1.Node'' Pair]"

theorem informers_start_once_witness:
  "\<exists>f f' :: (string, string \<times> int, unit, unit) shared_informer_factory.
    for_each (factory_step ex_informer_api) ex_factory_ops (the (NewSharedInformerFactory ''client'' 0)) = Some f \<and>
    StartWithContext f = Some f' \<and> distinct (sif_wg f') \<and> set (sif_wg f') = gm_dom (sif_informers f)"
proof -
  have "NewSharedInformerFactory ''client'' 0 = Some (the (NewSharedInformerFactory ''client'' 0) ::
      (string, string \<times> int, unit, unit) shared_informer_factory)"
    by (simp add: NewSharedInformerFactory_def NewSharedInformerFactoryWithOptions_def)
  from informers_start_once [OF this, of ex_informer_api ex_factory_ops] show ?thesis
    by (auto simp: ex_factory_ops_def simp del: for_each.simps)
qed

end
