(* ===== verification/Clientset.thy ===== *)
theory Clientset
  imports QueueApi
begin

text \<open>
  The generated clients of the Queue resource: \<^verbatim>\<open>client/clientset/scheduling/clientset.go\<close> and
  \<^verbatim>\<open>client/clientset/scheduling/typed/scheduling/v1/scheduling_client.go\<close>.

  What they call of client-go is the record \<open>rest_lib\<close>; a call that can fail returns a sum with the
  error on the left. A \<^verbatim>\<open>*rest.Config\<close> is dereferenced first, so each constructor is an \<open>option\<close> whose
  \<open>None\<close> is the nil dereference; the copy the code makes of the configuration is the value here, which
  leaves the caller's alone. \<^verbatim>\<open>QPS\<close> is a number; the code compares it with 0 and passes it on.
\<close>

record ('l, 'n, 'o) rest_config =
  rc_UserAgent :: string
  rc_RateLimiter :: "'l ptr"
  rc_QPS :: rat
  rc_Burst :: int
  rc_GroupVersion :: "(string \<times> string) ptr"
  rc_APIPath :: string
  rc_NegotiatedSerializer :: "'n ptr"
  rc_other :: 'o

record ('l, 'n, 'o, 'h, 'r, 'd) rest_lib =
  DefaultKubernetesUserAgent :: string
  HTTPClientFor :: "('l, 'n, 'o) rest_config \<Rightarrow> string + 'h"
  RESTClientForConfigAndClient :: "('l, 'n, 'o) rest_config \<Rightarrow> 'h \<Rightarrow> string + 'r"
  NewDiscoveryClientForConfigAndClient :: "('l, 'n, 'o) rest_config \<Rightarrow> 'h \<Rightarrow> string + 'd"
  NewDiscoveryClient :: "'r \<Rightarrow> 'd"
  NewTokenBucketRateLimiter :: "rat \<Rightarrow> int \<Rightarrow> 'l"
  GeneratedSerializer :: 'n

section \<open>The client of the API group\<close>

record 'r v1_client =
  v1_restClient :: "'r ptr"

definition v1_SchemeGroupVersion :: "string \<times> string" where
  "v1_SchemeGroupVersion = (GroupName, ''v1'')"

definition with_UserAgent :: "('l, 'n, 'o, 'h, 'r, 'd) rest_lib \<Rightarrow> ('l, 'n, 'o) rest_config \<Rightarrow> ('l, 'n, 'o) rest_config" where
  "with_UserAgent L c = (if rc_UserAgent c = '''' then c\<lparr>rc_UserAgent := DefaultKubernetesUserAgent L\<rparr> else c)"

definition v1_setConfigDefaults :: "('l, 'n, 'o, 'h, 'r, 'd) rest_lib \<Rightarrow> ('l, 'n, 'o) rest_config \<Rightarrow> ('l, 'n, 'o) rest_config" where
  "v1_setConfigDefaults L config = with_UserAgent L (config\<lparr>rc_GroupVersion := Ptr v1_SchemeGroupVersion,
     rc_APIPath := ''/apis'', rc_NegotiatedSerializer := Ptr (GeneratedSerializer L)\<rparr>)"

definition v1_NewForConfigAndClient :: "('l, 'n, 'o, 'h, 'r, 'd) rest_lib \<Rightarrow> ('l, 'n, 'o) rest_config ptr \<Rightarrow> 'h \<Rightarrow> (string + 'r v1_client) option" where
  "v1_NewForConfigAndClient L c http = do {
     config \<leftarrow> deref c;
     Some (case RESTClientForConfigAndClient L (v1_setConfigDefaults L config) http of
       Inl err \<Rightarrow> Inl err
     | Inr client \<Rightarrow> Inr \<lparr>v1_restClient = Ptr client\<rparr>) }"

definition v1_NewForConfig :: "('l, 'n, 'o, 'h, 'r, 'd) rest_lib \<Rightarrow> ('l, 'n, 'o) rest_config ptr \<Rightarrow> (string + 'r v1_client) option" where
  "v1_NewForConfig L c = do {
     config \<leftarrow> deref c;
     let config = v1_setConfigDefaults L config;
     case HTTPClientFor L config of
       Inl err \<Rightarrow> Some (Inl err)
     | Inr httpClient \<Rightarrow> v1_NewForConfigAndClient L (Ptr config) httpClient }"

text \<open>A panic on an error of the constructor.\<close>

definition or_die :: "(string + 'a) option \<Rightarrow> 'a option" where
  "or_die r = (case r of Some (Inr x) \<Rightarrow> Some x | _ \<Rightarrow> None)"

definition v1_NewForConfigOrDie :: "('l, 'n, 'o, 'h, 'r, 'd) rest_lib \<Rightarrow> ('l, 'n, 'o) rest_config ptr \<Rightarrow> 'r v1_client option" where
  "v1_NewForConfigOrDie L c = or_die (v1_NewForConfig L c)"

definition v1_New :: "'r ptr \<Rightarrow> 'r v1_client" where
  "v1_New c = \<lparr>v1_restClient = c\<rparr>"

definition v1_RESTClient :: "'r v1_client ptr \<Rightarrow> 'r ptr" where
  "v1_RESTClient c = (case c of NilP \<Rightarrow> NilP | Ptr cv \<Rightarrow> v1_restClient cv)"

section \<open>The clientset\<close>

record ('r, 'd) clientset =
  cs_DiscoveryClient :: 'd
  cs_schedulingV1 :: "'r v1_client"

definition Clientset_SchedulingV1 :: "('r, 'd) clientset ptr \<Rightarrow> 'r v1_client option" where
  "Clientset_SchedulingV1 c = do { cs \<leftarrow> deref c; Some (cs_schedulingV1 cs) }"

definition Clientset_Discovery :: "('r, 'd) clientset ptr \<Rightarrow> 'd ptr" where
  "Clientset_Discovery c = (case c of NilP \<Rightarrow> NilP | Ptr cs \<Rightarrow> Ptr (cs_DiscoveryClient cs))"

definition burst_error :: string where
  "burst_error = ''burst is required to be greater than 0 when RateLimiter is not set and QPS is set to greater than 0''"

definition needs_limiter :: "('l, 'n, 'o) rest_config \<Rightarrow> bool" where
  "needs_limiter c \<longleftrightarrow> is_nil (rc_RateLimiter c) \<and> rc_QPS c > 0"

definition limited :: "('l, 'n, 'o, 'h, 'r, 'd) rest_lib \<Rightarrow> ('l, 'n, 'o) rest_config \<Rightarrow> ('l, 'n, 'o) rest_config" where
  "limited L config = (if needs_limiter config
     then config\<lparr>rc_RateLimiter := Ptr (NewTokenBucketRateLimiter L (rc_QPS config) (rc_Burst config))\<rparr> else config)"

definition Clientset_NewForConfigAndClient :: "('l, 'n, 'o, 'h, 'r, 'd) rest_lib \<Rightarrow> ('l, 'n, 'o) rest_config ptr \<Rightarrow> 'h \<Rightarrow> (string + ('r, 'd) clientset) option" where
  "Clientset_NewForConfigAndClient L c httpClient = do {
     config \<leftarrow> deref c;
     if needs_limiter config \<and> rc_Burst config \<le> 0 then Some (Inl burst_error)
     else do {
       let config = limited L config;
       r \<leftarrow> v1_NewForConfigAndClient L (Ptr config) httpClient;
       Some (case r of
         Inl err \<Rightarrow> Inl err
       | Inr v1 \<Rightarrow> (case NewDiscoveryClientForConfigAndClient L config httpClient of
           Inl err \<Rightarrow> Inl err
         | Inr disc \<Rightarrow> Inr \<lparr>cs_DiscoveryClient = disc, cs_schedulingV1 = v1\<rparr>)) } }"

definition Clientset_NewForConfig :: "('l, 'n, 'o, 'h, 'r, 'd) rest_lib \<Rightarrow> ('l, 'n, 'o) rest_config ptr \<Rightarrow> (string + ('r, 'd) clientset) option" where
  "Clientset_NewForConfig L c = do {
     config \<leftarrow> deref c;
     let config = with_UserAgent L config;
     case HTTPClientFor L config of
       Inl err \<Rightarrow> Some (Inl err)
     | Inr httpClient \<Rightarrow> Clientset_NewForConfigAndClient L (Ptr config) httpClient }"

definition Clientset_NewForConfigOrDie :: "('l, 'n, 'o, 'h, 'r, 'd) rest_lib \<Rightarrow> ('l, 'n, 'o) rest_config ptr \<Rightarrow> ('r, 'd) clientset option" where
  "Clientset_NewForConfigOrDie L c = or_die (Clientset_NewForConfig L c)"

definition Clientset_New :: "('l, 'n, 'o, 'h, 'r, 'd) rest_lib \<Rightarrow> 'r \<Rightarrow> ('r, 'd) clientset" where
  "Clientset_New L c = \<lparr>cs_DiscoveryClient = NewDiscoveryClient L c, cs_schedulingV1 = v1_New (Ptr c)\<rparr>"

section \<open>Lemmas\<close>

lemma with_UserAgent_simps [simp]:
  "rc_RateLimiter (with_UserAgent L c) = rc_RateLimiter c" "rc_QPS (with_UserAgent L c) = rc_QPS c"
  "rc_Burst (with_UserAgent L c) = rc_Burst c" "needs_limiter (with_UserAgent L c) = needs_limiter c"
  "rc_UserAgent c \<noteq> '''' \<Longrightarrow> with_UserAgent L c = c"
  by (simp_all add: with_UserAgent_def needs_limiter_def)

lemma v1_defaults_keep:
  "rc_UserAgent c \<noteq> '''' \<Longrightarrow> v1_setConfigDefaults L c = c\<lparr>rc_GroupVersion := Ptr (''scheduling.kaschnit.github.io'', ''v1''),
     rc_APIPath := ''/apis'', rc_NegotiatedSerializer := Ptr (GeneratedSerializer L)\<rparr>"
  by (simp add: v1_setConfigDefaults_def v1_SchemeGroupVersion_def GroupName_def)

text \<open>Only a nil configuration panics.\<close>

lemma NewForConfig_defined: "\<exists>r. Clientset_NewForConfig L (Ptr c) = Some r"
proof -
  have "\<exists>r. Clientset_NewForConfigAndClient L (Ptr c') http = Some r" for c' http
    by (simp add: Clientset_NewForConfigAndClient_def v1_NewForConfigAndClient_def Let_def)
  then show ?thesis by (auto simp: Clientset_NewForConfig_def Let_def split: sum.split)
qed

lemma or_die_Some: "or_die r = Some x \<longleftrightarrow> r = Some (Inr x)"
  by (cases r) (auto simp: or_die_def split: sum.splits)

text \<open>
  The documentation of \<^verbatim>\<open>NewForConfig\<close> says that it is equivalent to \<^verbatim>\<open>NewForConfigAndClient(c, httpClient)\<close>
  with the client \<^verbatim>\<open>rest.HTTPClientFor(c)\<close> gives. It is when \<open>c\<close> names a user agent; otherwise the HTTP client
  and the discovery client are those of another configuration.
\<close>

lemma NewForConfig_is_NewForConfigAndClient:
  assumes "rc_UserAgent c \<noteq> ''''"
  shows "Clientset_NewForConfig L (Ptr c) = (case HTTPClientFor L c of
      Inl err \<Rightarrow> Some (Inl err) | Inr httpClient \<Rightarrow> Clientset_NewForConfigAndClient L (Ptr c) httpClient)"
  using assms by (simp add: Clientset_NewForConfig_def)

text \<open>A client-go whose clients remember the configuration and the HTTP client they were built from.\<close>

definition recording_lib :: "(rat \<times> int, unit, unit, string, (rat \<times> int, unit, unit) rest_config \<times> string, (rat \<times> int, unit, unit) rest_config \<times> string) rest_lib" where
  "recording_lib = \<lparr>DefaultKubernetesUserAgent = ''scheduler/v1'', HTTPClientFor = (\<lambda>c. Inr (rc_UserAgent c)),
     RESTClientForConfigAndClient = (\<lambda>c h. Inr (c, h)), NewDiscoveryClientForConfigAndClient = (\<lambda>c h. Inr (c, h)),
     NewDiscoveryClient = id, NewTokenBucketRateLimiter = Pair, GeneratedSerializer = ()\<rparr>"

definition plain_config :: "rat \<Rightarrow> int \<Rightarrow> (rat \<times> int, unit, unit) rest_config" where
  "plain_config qps burst = \<lparr>rc_UserAgent = '''', rc_RateLimiter = NilP, rc_QPS = qps, rc_Burst = burst, rc_GroupVersion = NilP,
     rc_APIPath = '''', rc_NegotiatedSerializer = NilP, rc_other = ()\<rparr>"

theorem NewForConfig_not_as_documented:
  "HTTPClientFor recording_lib (plain_config 0 0) = Inr '''' \<and>
   Clientset_NewForConfig recording_lib (Ptr (plain_config 0 0)) \<noteq>
     Clientset_NewForConfigAndClient recording_lib (Ptr (plain_config 0 0)) ''''"
  by (simp add: Clientset_NewForConfig_def Clientset_NewForConfigAndClient_def v1_NewForConfigAndClient_def recording_lib_def
      plain_config_def with_UserAgent_def limited_def needs_limiter_def Let_def)

section \<open>Specification\<close>

text \<open>
  The configuration that takes effect for \<open>c\<close>: it differs from \<open>c\<close> in the user agent, the default one where \<open>c\<close>
  names none, and in the rate limiter, a token bucket where \<open>c\<close> asks for a rate and brings no limiter, which
  requires a burst above 0.
\<close>

definition effective_config :: "('l, 'n, 'o, 'h, 'r, 'd) rest_lib \<Rightarrow> ('l, 'n, 'o) rest_config \<Rightarrow> ('l, 'n, 'o) rest_config \<Rightarrow> bool" where
  "effective_config L c cfg \<longleftrightarrow> cfg\<lparr>rc_UserAgent := rc_UserAgent c, rc_RateLimiter := rc_RateLimiter c\<rparr> = c \<and>
     rc_UserAgent cfg = (if rc_UserAgent c = '''' then DefaultKubernetesUserAgent L else rc_UserAgent c) \<and>
     (if rc_RateLimiter c = NilP \<and> 0 < rc_QPS c
      then 0 < rc_Burst c \<and> rc_RateLimiter cfg = Ptr (NewTokenBucketRateLimiter L (rc_QPS c) (rc_Burst c))
      else rc_RateLimiter cfg = rc_RateLimiter c)"

text \<open>A clientset whose two clients share one configuration and one HTTP client.\<close>

definition clients_share :: "('l, 'n, 'o, 'h, 'r, 'd) rest_lib \<Rightarrow> ('l, 'n, 'o) rest_config \<Rightarrow> 'h \<Rightarrow> ('r, 'd) clientset \<Rightarrow> bool" where
  "clients_share L cfg http cs \<longleftrightarrow> NewDiscoveryClientForConfigAndClient L cfg http = Inr (cs_DiscoveryClient cs) \<and>
     (\<exists>rest. v1_restClient (cs_schedulingV1 cs) = Ptr rest \<and>
       RESTClientForConfigAndClient L (cfg\<lparr>rc_GroupVersion := Ptr (''scheduling.kaschnit.github.io'', ''v1''), rc_APIPath := ''/apis'',
         rc_NegotiatedSerializer := Ptr (GeneratedSerializer L)\<rparr>) http = Inr rest)"

lemma effective_config_limited:
  "effective_config L c cfg \<longleftrightarrow> \<not> (needs_limiter c \<and> rc_Burst c \<le> 0) \<and> cfg = limited L (with_UserAgent L c)"
  by (cases c; cases cfg) (auto simp: effective_config_def limited_def needs_limiter_def with_UserAgent_def is_nil_iff)

lemma NewForConfigAndClient_result:
  fixes L :: "('l, 'n, 'o, 'h, 'r, 'd) rest_lib"
  assumes "rc_UserAgent c \<noteq> ''''"
  shows "Clientset_NewForConfigAndClient L (Ptr c) http = Some (Inr cs) \<longleftrightarrow> (\<exists>cfg. effective_config L c cfg \<and> clients_share L cfg http cs)"
proof -
  have "rc_UserAgent (limited L c) \<noteq> ''''" using assms by (simp add: limited_def)
  note v1 = v1_defaults_keep [OF this]
  show ?thesis using assms
    by (cases cs; cases "cs_schedulingV1 cs") (auto simp: Clientset_NewForConfigAndClient_def v1_NewForConfigAndClient_def v1 effective_config_limited
        clients_share_def Let_def split: sum.splits)
qed

section \<open>Properties\<close>

text \<open>
  C32. Building the clientset of the queues, for a client-go whose default user agent is not empty.
  \<^verbatim>\<open>NewForConfig\<close> yields a clientset exactly when the configuration that takes effect exists (a configuration
  with a rate, no limiter and no positive burst is refused), the HTTP client for it is made before
  the limiter is, and both clients can be built; the clientset is then the one whose discovery client
  and group client were built from that one configuration, so that they share one limiter, one user
  agent and one HTTP client. Where the configuration names a user agent this is
  \<^verbatim>\<open>NewForConfigAndClient\<close> with the client of \<^verbatim>\<open>HTTPClientFor\<close>, as documented; where it names none, it is what the default user agent
  gives. \<^verbatim>\<open>NewForConfigOrDie\<close> returns exactly what \<^verbatim>\<open>NewForConfig\<close> returns without an error, and a nil
  configuration panics.
\<close>

theorem clientset_construction:
  fixes L :: "('l, 'n, 'o, 'h, 'r, 'd) rest_lib" and c :: "('l, 'n, 'o) rest_config"
  assumes "DefaultKubernetesUserAgent L \<noteq> ''''"
  shows "(Clientset_NewForConfig L (Ptr c) = Some (Inr cs) \<longleftrightarrow> (\<exists>cfg http. effective_config L c cfg \<and>
      HTTPClientFor L (cfg\<lparr>rc_RateLimiter := rc_RateLimiter c\<rparr>) = Inr http \<and> clients_share L cfg http cs)) \<and>
    (rc_UserAgent c \<noteq> '''' \<longrightarrow> Clientset_NewForConfig L (Ptr c) = (case HTTPClientFor L c of
      Inl err \<Rightarrow> Some (Inl err) | Inr http \<Rightarrow> Clientset_NewForConfigAndClient L (Ptr c) http)) \<and>
    (rc_UserAgent c = '''' \<longrightarrow> Clientset_NewForConfig L (Ptr c) =
      Clientset_NewForConfig L (Ptr (c\<lparr>rc_UserAgent := DefaultKubernetesUserAgent L\<rparr>))) \<and>
    (Clientset_NewForConfigOrDie L (Ptr c) = Some cs \<longleftrightarrow> Clientset_NewForConfig L (Ptr c) = Some (Inr cs)) \<and>
    Clientset_NewForConfig L NilP = None"
proof (intro conjI impI)
  let ?c = "with_UserAgent L c"
  have agent: "rc_UserAgent ?c \<noteq> ''''" using assms by (simp add: with_UserAgent_def)
  have cfg: "cfg\<lparr>rc_RateLimiter := rc_RateLimiter c\<rparr> = ?c" if "effective_config L c cfg" for cfg
    using that by (cases c) (auto simp: effective_config_limited limited_def with_UserAgent_def)
  have eff: "effective_config L ?c cfg \<longleftrightarrow> effective_config L c cfg" for cfg
    using agent by (simp add: effective_config_limited)
  have "Clientset_NewForConfig L (Ptr c) = (case HTTPClientFor L ?c of
      Inl err \<Rightarrow> Some (Inl err) | Inr http \<Rightarrow> Clientset_NewForConfigAndClient L (Ptr ?c) http)"
    by (simp add: Clientset_NewForConfig_def Let_def)
  then show "Clientset_NewForConfig L (Ptr c) = Some (Inr cs) \<longleftrightarrow> (\<exists>cfg http. effective_config L c cfg \<and>
      HTTPClientFor L (cfg\<lparr>rc_RateLimiter := rc_RateLimiter c\<rparr>) = Inr http \<and> clients_share L cfg http cs)"
    using NewForConfigAndClient_result [OF agent, of L _ cs, unfolded eff] cfg
    by (cases "HTTPClientFor L ?c") auto
  show "Clientset_NewForConfig L (Ptr c) = (case HTTPClientFor L c of
      Inl err \<Rightarrow> Some (Inl err) | Inr http \<Rightarrow> Clientset_NewForConfigAndClient L (Ptr c) http)" if "rc_UserAgent c \<noteq> ''''"
    using that by (rule NewForConfig_is_NewForConfigAndClient)
  show "Clientset_NewForConfig L (Ptr c) = Clientset_NewForConfig L (Ptr (c\<lparr>rc_UserAgent := DefaultKubernetesUserAgent L\<rparr>))"
    if "rc_UserAgent c = ''''"
    using that by (simp add: Clientset_NewForConfig_def with_UserAgent_def)
qed (simp_all add: Clientset_NewForConfigOrDie_def or_die_Some Clientset_NewForConfig_def)

text \<open>A configuration without a user agent or a limiter that asks for 5 requests a second, 10 at once.\<close>

theorem clientset_construction_witness:
  "\<exists>cs cfg. Clientset_NewForConfig recording_lib (Ptr (plain_config 5 10)) = Some (Inr cs) \<and>
    effective_config recording_lib (plain_config 5 10) cfg \<and> rc_UserAgent cfg = ''scheduler/v1'' \<and> rc_RateLimiter cfg = Ptr (5, 10) \<and>
    cs_DiscoveryClient cs = (cfg, ''scheduler/v1'')"
proof -
  let ?cfg = "(plain_config 5 10)\<lparr>rc_UserAgent := ''scheduler/v1'', rc_RateLimiter := Ptr (5, 10)\<rparr>"
  let ?rest = "?cfg\<lparr>rc_GroupVersion := Ptr (''scheduling.kaschnit.github.io'', ''v1''), rc_APIPath := ''/apis'', rc_NegotiatedSerializer := Ptr ()\<rparr>"
  let ?cs = "\<lparr>cs_DiscoveryClient = (?cfg, ''scheduler/v1''), cs_schedulingV1 = \<lparr>v1_restClient = Ptr (?rest, ''scheduler/v1'')\<rparr>\<rparr>"
  have eff: "effective_config recording_lib (plain_config 5 10) ?cfg"
    by (simp add: effective_config_def recording_lib_def plain_config_def)
  moreover have "clients_share recording_lib ?cfg ''scheduler/v1'' ?cs" by (simp add: clients_share_def recording_lib_def)
  moreover have "HTTPClientFor recording_lib (?cfg\<lparr>rc_RateLimiter := rc_RateLimiter (plain_config 5 10)\<rparr>) = Inr ''scheduler/v1''"
    by (simp add: recording_lib_def)
  moreover have "DefaultKubernetesUserAgent recording_lib \<noteq> ''''" by (simp add: recording_lib_def)
  ultimately have "Clientset_NewForConfig recording_lib (Ptr (plain_config 5 10)) = Some (Inr ?cs)"
    using clientset_construction [of recording_lib "plain_config 5 10" ?cs] by blast
  with eff show ?thesis by (intro exI [of _ ?cs] exI [of _ ?cfg]) simp
qed

end
