(* ===== verification/Startup.thy ===== *)
theory Startup
  imports Scheduling InformerFactory Clientset
begin

text \<open>
  How the plugin comes up: the constructors \<^verbatim>\<open>NewPlugin\<close>, \<^verbatim>\<open>NewSynchronizer\<close> and
  \<^verbatim>\<open>NewClusterResourceTracker\<close> with their error exits and the order in which they register handlers and
  start informers, how the pod informer's events reach the handlers, the loop around the status
  rounds, and the conversion of the scheduler's configuration.

  The core informer factory and the event handlers' registration are client-go's. What the
  constructors ask of them is recorded in a list of calls; whether a registration fails is the
  parameter \<open>addErr\<close>.
\<close>

section \<open>Constructors\<close>

datatype startup_call =
    AddEventHandler string
  | FactoryStart string
  | FactoryWaitForCacheSync string
  | GoStatusUpdateLoop

definition NewClusterResourceTracker :: "('q, 's, 'm) kube \<Rightarrow> (string \<Rightarrow> string option) \<Rightarrow> startup_call list \<Rightarrow> (startup_call list \<times> (string + 'q node_aggregator)) option" where
  "NewClusterResourceTracker K addErr calls = do {
     counter \<leftarrow> NewNodeAllocatableAggregator K [];
     Some (case addErr ''nodes'' of
       Some err \<Rightarrow> (calls @ [AddEventHandler ''nodes''], Inl err)
     | None \<Rightarrow> (calls @ [AddEventHandler ''nodes'', FactoryStart ''core'', FactoryWaitForCacheSync ''core''], Inr counter)) }"

text \<open>
  The result of \<^verbatim>\<open>NewSynchronizer\<close> is the tracker and the scheduling factory, in which the queue
  informer now runs; the queue manager is the one it is given.
\<close>

definition NewSynchronizer :: "('q, 's, 'm) kube \<Rightarrow> ('i, 'f) informer_api \<Rightarrow> ('c \<Rightarrow> int \<Rightarrow> string ptr \<Rightarrow> 'w ptr \<Rightarrow> 'i) \<Rightarrow> (string \<Rightarrow> string option) \<Rightarrow> ('c, 'i, 'w, 'f) shared_informer_factory \<Rightarrow> (startup_call list \<times> (string + 'q node_aggregator \<times> ('c, 'i, 'w, 'f) shared_informer_factory)) option" where
  "NewSynchronizer K api newInformer addErr schedInformerFactory = do {
     (queueInformer, factory) \<leftarrow> Queues_Informer api newInformer schedInformerFactory;
     case addErr ''queues'' of
       Some err \<Rightarrow> Some ([AddEventHandler ''queues''], Inl err)
     | None \<Rightarrow> do {
         factory' \<leftarrow> StartWithContext factory;
         let calls = [AddEventHandler ''queues'', FactoryStart ''scheduling'', FactoryWaitForCacheSync ''scheduling'',
           AddEventHandler ''pods''];
         case addErr ''pods'' of
           Some err \<Rightarrow> Some (calls, Inl err)
         | None \<Rightarrow> do {
             (calls', r) \<leftarrow> NewClusterResourceTracker K addErr (calls @ [FactoryStart ''core'', FactoryWaitForCacheSync ''core'']);
             Some (case r of
               Inl err \<Rightarrow> (calls', Inl err)
             | Inr resTracker \<Rightarrow> (calls' @ [GoStatusUpdateLoop], Inr (resTracker, factory'))) } } }"

record quota_aware_preemption_args =
  args_MaxCandidateNodes :: "int32 ptr"

text \<open>
  \<^verbatim>\<open>NewPlugin\<close>: \<open>DecodeInto\<close> decodes the arguments, \<open>kubeConfig\<close> is what the framework's \<^verbatim>\<open>fh.KubeConfig()\<close>
  returns, from which the modelled \<^verbatim>\<open>schedclients.NewForConfig\<close> builds the clientset over client-go (\<open>L\<close>),
  and \<open>enableAsync\<close> is the feature gate.
\<close>

definition NewPlugin :: "('q, 's, 'm) kube \<Rightarrow> ('l, 'n, 'o, 'h, 'r, 'd) rest_lib \<Rightarrow> ('i, 'f) informer_api \<Rightarrow> (('r, 'd) clientset \<Rightarrow> int \<Rightarrow> string ptr \<Rightarrow> 'w ptr \<Rightarrow> 'i) \<Rightarrow> (string \<Rightarrow> string option) \<Rightarrow> ('a \<Rightarrow> string + quota_aware_preemption_args) \<Rightarrow> ('l, 'n, 'o) rest_config ptr \<Rightarrow> bool \<Rightarrow> 'a \<Rightarrow> (startup_call list \<times> (string + ('q, 's, 'm) plugin \<times> 'q node_aggregator \<times> (('r, 'd) clientset, 'i, 'w, 'f) shared_informer_factory)) option" where
  "NewPlugin K L api newInformer addErr DecodeInto kubeConfig enableAsync rawArgs = (case DecodeInto rawArgs of
     Inl err \<Rightarrow> Some ([], Inl err)
   | Inr args \<Rightarrow> do {
       let queueMgr = NewManager;
       c \<leftarrow> Clientset_NewForConfig L kubeConfig;
       case c of
         Inl err \<Rightarrow> Some ([], Inl err)
       | Inr schedClientset \<Rightarrow> do {
           _ \<leftarrow> Clientset_SchedulingV1 (Ptr schedClientset);
           factory \<leftarrow> NewSharedInformerFactory schedClientset 0;
           (calls, r) \<leftarrow> NewSynchronizer K api newInformer addErr factory;
           Some (calls, case r of
             Inl err \<Rightarrow> Inl err
           | Inr (resTracker, factory') \<Rightarrow> Inr (\<lparr>plugin_queueMgr = queueMgr, plugin_EnableAsyncPreemption = enableAsync,
               plugin_MaxCandidateNodes = args_MaxCandidateNodes args\<rparr>, resTracker, factory')) } })"

section \<open>The scheduler's configuration\<close>

text \<open>
  The versioned and the internal configuration, each with its type's version and kind; \<open>Default\<close> and
  \<open>Convert\<close> are those of the scheme, and a conversion that fails may leave a result behind.
\<close>

record 'r sched_config =
  cfg_APIVersion :: string
  cfg_Kind :: string
  cfg_rest :: 'r

definition KubeSchedulerConfigurationKind :: string where
  "KubeSchedulerConfigurationKind = ''KubeSchedulerConfiguration''"

definition ToConfigAPIWithDefaults :: "('r sched_config \<Rightarrow> 'r sched_config) \<Rightarrow> ('r sched_config \<Rightarrow> 'p sched_config \<times> string option) \<Rightarrow> string \<Rightarrow> 'r sched_config \<Rightarrow> 'p sched_config \<times> string option" where
  "ToConfigAPIWithDefaults Default Convert schemeGroupVersion cfg =
     (let cfg = Default cfg;
        cfg = (if cfg_APIVersion cfg = '''' then cfg\<lparr>cfg_APIVersion := schemeGroupVersion\<rparr> else cfg);
        cfg = (if cfg_Kind cfg = '''' then cfg\<lparr>cfg_Kind := KubeSchedulerConfigurationKind\<rparr> else cfg)
      in case Convert cfg of
        (apiCfg, Some err) \<Rightarrow> (apiCfg, Some err)
      | (apiCfg, None) \<Rightarrow> (apiCfg\<lparr>cfg_APIVersion := cfg_APIVersion cfg, cfg_Kind := cfg_Kind cfg\<rparr>, None))"

lemma ToConfigAPIWithDefaults_typed:
  assumes "ToConfigAPIWithDefaults Default Convert schemeGroupVersion cfg = (apiCfg, None)" and "schemeGroupVersion \<noteq> ''''"
  shows "cfg_APIVersion apiCfg \<noteq> '''' \<and> cfg_Kind apiCfg \<noteq> ''''"
  using assms
  by (auto simp: ToConfigAPIWithDefaults_def Let_def KubeSchedulerConfigurationKind_def split: prod.splits option.splits if_splits)

section \<open>The status loop\<close>

text \<open>
  Each turn of \<^verbatim>\<open>statusUpdateLoop\<close> waits for the context to be done or for five seconds to pass;
  \<open>turns\<close> are the outcomes, with the tracker and the queues at the time. The loop sends the patches of
  every round before the context is done, and returns if it is.
\<close>

datatype ('q, 's, 'm) loop_turn = CtxDone | TimerFired "'q node_aggregator" "('q, 's, 'm) manager"

fun statusUpdateLoop :: "('q, 's, 'm) kube \<Rightarrow> ('q quota_status \<Rightarrow> 'b option) \<Rightarrow> ('q, 's, 'm) loop_turn list \<Rightarrow> ((string \<times> 'b) list \<times> bool) option" where
  "statusUpdateLoop K marshal [] = Some ([], False)"
| "statusUpdateLoop K marshal (CtxDone # turns) = Some ([], True)"
| "statusUpdateLoop K marshal (TimerFired resTracker queueMgr # turns) = do {
     patches \<leftarrow> status_update_round K marshal resTracker queueMgr;
     (rest, returned) \<leftarrow> statusUpdateLoop K marshal turns;
     Some (patches @ rest, returned) }"

section \<open>The pod informer\<close>

text \<open>
  The registration wraps the pod handlers into client-go's \<^verbatim>\<open>FilteringResourceEventHandler\<close>: an object
  that starts to pass the filter with an update counts as added, one that stops to pass as deleted.
\<close>

datatype 'q raw_event = RawAdd "'q any_obj" | RawUpdate "'q any_obj" "'q any_obj" | RawDelete "'q any_obj"

locale filtering_handler =
  fixes dispatch :: "('q any_obj \<Rightarrow> bool) \<Rightarrow> 'q raw_event \<Rightarrow> 'q sync_event list"
  assumes dispatch_add: "dispatch f (RawAdd obj) = (if f obj then [PodAdded obj] else [])"
    and dispatch_update: "dispatch f (RawUpdate oldObj newObj) =
      (if f newObj \<and> f oldObj then [PodUpdated oldObj newObj]
       else if f newObj then [PodAdded newObj] else if f oldObj then [PodDeleted oldObj] else [])"
    and dispatch_delete: "dispatch f (RawDelete obj) = (if f obj then [PodDeleted obj] else [])"

fun raw_objects :: "'q raw_event \<Rightarrow> 'q any_obj list" where
  "raw_objects (RawAdd obj) = [obj]"
| "raw_objects (RawUpdate oldObj newObj) = [oldObj, newObj]"
| "raw_objects (RawDelete obj) = [obj]"

definition handle_raw :: "('q, 's, 'm) kube \<Rightarrow> (('q any_obj \<Rightarrow> bool) \<Rightarrow> 'q raw_event \<Rightarrow> 'q sync_event list) \<Rightarrow> 'q raw_event \<Rightarrow> ('q, 's, 'm) manager \<Rightarrow> ('q, 's, 'm) manager option" where
  "handle_raw K dispatch ev qm =
     (if list_ex (\<lambda>obj. pod_FilterFunc obj = None) (raw_objects ev) then None
      else for_each (sync_step K) (dispatch (\<lambda>obj. pod_FilterFunc obj = Some True) ev) qm)"

fun ref_dispatch :: "('q any_obj \<Rightarrow> bool) \<Rightarrow> 'q raw_event \<Rightarrow> 'q sync_event list" where
  "ref_dispatch f (RawAdd obj) = (if f obj then [PodAdded obj] else [])"
| "ref_dispatch f (RawUpdate oldObj newObj) = (case (f oldObj, f newObj) of
     (True, True) \<Rightarrow> [PodUpdated oldObj newObj] | (False, True) \<Rightarrow> [PodAdded newObj]
   | (True, False) \<Rightarrow> [PodDeleted oldObj] | (False, False) \<Rightarrow> [])"
| "ref_dispatch f (RawDelete obj) = (if f obj then [PodDeleted obj] else [])"

interpretation ref_filtering: filtering_handler ref_dispatch
  by unfold_locales auto

section \<open>Lemmas\<close>

lemma NewNodeAllocatableAggregator_empty: "NewNodeAllocatableAggregator K [] = Some new_aggregator"
  by (simp add: NewNodeAllocatableAggregator_def NodeAggregator_PutAll_def new_aggregator_def)

definition startup_order :: "startup_call list" where
  "startup_order = [AddEventHandler ''queues'', FactoryStart ''scheduling'', FactoryWaitForCacheSync ''scheduling'',
     AddEventHandler ''pods'', FactoryStart ''core'', FactoryWaitForCacheSync ''core'',
     AddEventHandler ''nodes'', FactoryStart ''core'', FactoryWaitForCacheSync ''core'', GoStatusUpdateLoop]"

lemma NewSynchronizer_result:
  assumes "NewSharedInformerFactory client 0 = Some f"
  shows "\<exists>calls r. NewSynchronizer K api newInformer addErr f = Some (calls, r) \<and>
    (case r of
       Inl err \<Rightarrow> calls = takeWhile (\<lambda>c. c \<noteq> last calls) startup_order @ [last calls] \<and>
         (\<exists>name. last calls = AddEventHandler name \<and> addErr name = Some err)
     | Inr (tracker, f') \<Rightarrow> calls = startup_order \<and> tracker = new_aggregator \<and> sif_wg f' = [QueueType] \<and>
         addErr ''queues'' = None \<and> addErr ''pods'' = None \<and> addErr ''nodes'' = None)"
proof -
  have "sif_informers f = gm_make" "sif_startedInformers f = gm_make" "sif_wg f = []" "\<not> sif_shuttingDown f" "sif_transform f = NilP"
    using assms by (auto simp: NewSharedInformerFactory_def NewSharedInformerFactoryWithOptions_def)
  then show ?thesis
    by (simp add: NewSynchronizer_def Queues_Informer_def InformerFor_def Let_def gm_make_def StartWithContext_def
        start_informer_def NewClusterResourceTracker_def NewNodeAllocatableAggregator_empty startup_order_def split: option.split)
qed

lemma statusUpdateLoop_rounds:
  "statusUpdateLoop K marshal turns = Some (patches, returned) \<Longrightarrow> returned = (CtxDone \<in> set turns) \<and>
     patches = concat (map (\<lambda>t. case t of CtxDone \<Rightarrow> [] | TimerFired tr qm \<Rightarrow> the (status_update_round K marshal tr qm))
       (takeWhile (\<lambda>t. t \<noteq> CtxDone) turns))"
  by (induction K marshal turns arbitrary: patches returned rule: statusUpdateLoop.induct) (auto split: bind_splits)

text \<open>Counting pods and adding queues, one event after the other, in the abstract accounts.\<close>

lemma acc_add_queues:
  "fold acc_step (map (\<lambda>q. QueueAdded (AnyQueue (Ptr q))) qs) a n =
     (if n \<in> qo_name ` set qs then Some {} else a n)"
  by (induction qs arbitrary: a) auto

lemma acc_add_pods:
  "fold acc_step (map (\<lambda>p. PodAdded (AnyPod (Ptr p))) ps) a n =
     map_option (\<lambda>S. S \<union> pod_uid ` {p \<in> set ps. pod_queue p = Some n}) (a n)"
proof (induction ps arbitrary: a)
  case Nil
  show ?case by (simp add: option.map_ident)
next
  case (Cons p ps)
  have "acc_step (PodAdded (AnyPod (Ptr p))) a n =
      map_option (\<lambda>S. S \<union> pod_uid ` {x. x = p \<and> pod_queue x = Some n}) (a n)"
    by (cases "a n") (auto simp: acc_count_def split: option.split)
  moreover have "(S \<union> pod_uid ` {x. x = p \<and> pod_queue x = Some n}) \<union> pod_uid ` {x \<in> set ps. pod_queue x = Some n} =
      S \<union> pod_uid ` {x \<in> set (p # ps). pod_queue x = Some n}" for S by auto
  ultimately show ?case using Cons.IH [of "acc_step (PodAdded (AnyPod (Ptr p))) a"]
    by (simp add: option.map_comp comp_def)
qed

section \<open>Properties\<close>

text \<open>
  C21. When the queues of the cluster reach the synchronizer before the pods, it counts after
  start-up exactly the pods of each queue. A pod that arrives before its queue is lost: adding the
  queue starts its account empty.
\<close>

theorem startup_counts_every_pod:
  assumes "kube_laws K amount" and "\<forall>p \<in> set ps. pod_ok K reqs p"
  shows "(\<exists>qm. for_each (sync_step K) (map (\<lambda>q. QueueAdded (AnyQueue (Ptr q))) qs @ map (\<lambda>p. PodAdded (AnyPod (Ptr p))) ps)
      NewManager = Some qm \<and>
      (\<forall>n. mgr_accounts K qm n =
        (if n \<in> qo_name ` set qs then Some (pod_uid ` {p \<in> set ps. pod_queue p = Some n}) else None))) \<and>
    (\<exists>qm. for_each (sync_step K) (map (\<lambda>p. PodAdded (AnyPod (Ptr p))) ps @ map (\<lambda>q. QueueAdded (AnyQueue (Ptr q))) qs)
      NewManager = Some qm \<and>
      (\<forall>n. mgr_accounts K qm n = (if n \<in> qo_name ` set qs then Some {} else None)))"
proof -
  let ?qs = "map (\<lambda>q. QueueAdded (AnyQueue (Ptr q))) qs" and ?ps = "map (\<lambda>p. PodAdded (AnyPod (Ptr p))) ps"
  have ok: "\<forall>ev \<in> set (?qs @ ?ps). sync_event_ok K reqs ev" "\<forall>ev \<in> set (?ps @ ?qs). sync_event_ok K reqs ev"
    using assms(2) by (auto simp: queue_obj_ok_def is_nil_def)
  show ?thesis
    using kube_laws.sync_run_refines [OF assms(1) mgr_balanced_new ok(1)]
      kube_laws.sync_run_refines [OF assms(1) mgr_balanced_new ok(2)]
    by (auto simp: mgr_accounts_new acc_add_queues acc_add_pods)
qed

theorem startup_counts_every_pod_witness:
  "\<exists>qm. for_each (sync_step ref_kube) (map (\<lambda>q. QueueAdded (AnyQueue (Ptr q))) [ref_queue ''b'' 3000] @
      map (\<lambda>p. PodAdded (AnyPod (Ptr p))) [ref_pod ''p1'' ''b'' 1 1000]) NewManager = Some qm \<and>
    mgr_accounts ref_kube qm ''b'' = Some {''p1''}"
proof -
  have "\<forall>p \<in> set [ref_pod ''p1'' ''b'' 1 1000]. pod_ok ref_kube ref_reqs p" by (simp add: ref_pod_ok)
  from conjunct1 [OF startup_counts_every_pod [OF ref_laws.kube_laws_axioms this, of "[ref_queue ''b'' 3000]"]]
  obtain qm where qm: "for_each (sync_step ref_kube) (map (\<lambda>q. QueueAdded (AnyQueue (Ptr q))) [ref_queue ''b'' 3000] @
      map (\<lambda>p. PodAdded (AnyPod (Ptr p))) [ref_pod ''p1'' ''b'' 1 1000]) NewManager = Some qm"
    "mgr_accounts ref_kube qm ''b'' = (if ''b'' \<in> qo_name ` set [ref_queue ''b'' 3000] then
      Some (pod_uid ` {p \<in> set [ref_pod ''p1'' ''b'' 1 1000]. pod_queue p = Some ''b''}) else None)" by blast
  have "{p \<in> set [ref_pod ''p1'' ''b'' 1 1000]. pod_queue p = Some ''b''} = {ref_pod ''p1'' ''b'' 1 1000}"
    by (auto simp: ref_pod_queue)
  with qm show ?thesis by (simp add: ref_queue_def ref_pod_def del: for_each.simps)
qed

text \<open>
  C20. The life of a pod as the events of its informer tell it. An event on a pod without a node, its
  appearance, an update or its deletion, changes nothing; the event that binds it to a node counts it in its queue, once, whether or not \<^verbatim>\<open>Reserve\<close> has
  counted it before the binding; and its end, by an update to a terminal phase or by a deletion that carries
  the pod, releases it. A deletion delivered as a tombstone leaves it counted. The pod's updates keep its
  identifier, its queue and its requests.
\<close>

theorem pod_lifecycle:
  assumes "filtering_handler dispatch" and "kube_laws K amount" and "mgr_balanced K amount reqs qm"
    and "pod_ok K reqs bound" and "pod_ok K reqs ended"
    and "pod_queue bound = Some n" and "pod_queue ended = Some n" and "pod_uid ended = pod_uid bound"
    and "spec_nodeName fresh = ''''" and "spec_nodeName fresh' = ''''" and "spec_nodeName bound \<noteq> ''''" and "spec_nodeName ended \<noteq> ''''"
    and "IsNonTerminal (Ptr bound)" and "IsTerminal (Ptr ended)"
    and "Manager_GetByName qm n \<noteq> NilP"
  shows "handle_raw K dispatch (RawAdd (AnyPod (Ptr fresh))) qm = Some qm \<and>
    handle_raw K dispatch (RawUpdate (AnyPod (Ptr fresh)) (AnyPod (Ptr fresh'))) qm = Some qm \<and>
    handle_raw K dispatch (RawDelete (AnyPod (Ptr fresh))) qm = Some qm \<and>
    (\<exists>qm1 qm2 qm3.
      handle_raw K dispatch (RawUpdate (AnyPod (Ptr fresh)) (AnyPod (Ptr bound))) qm = Some qm1 \<and>
      mgr_tracked K qm1 n = insert (pod_uid bound) (mgr_tracked K qm n) \<and>
      (\<forall>r. mgr_used amount qm1 n r = (\<Sum>u \<in> insert (pod_uid bound) (mgr_tracked K qm n). uid_req amount reqs u r)) \<and>
      handle_raw K dispatch (RawUpdate (AnyPod (Ptr bound)) (AnyPod (Ptr ended))) qm1 = Some qm2 \<and>
      mgr_tracked K qm2 n = mgr_tracked K qm n - {pod_uid bound} \<and>
      handle_raw K dispatch (RawDelete (AnyPod (Ptr bound))) qm1 = Some qm3 \<and>
      mgr_tracked K qm3 n = mgr_tracked K qm n - {pod_uid bound} \<and>
      (\<forall>r. mgr_used amount qm2 n r = (\<Sum>u \<in> mgr_tracked K qm n - {pod_uid bound}. uid_req amount reqs u r)) \<and>
      (\<forall>r. mgr_used amount qm3 n r = (\<Sum>u \<in> mgr_tracked K qm n - {pod_uid bound}. uid_req amount reqs u r)) \<and>
      handle_raw K dispatch (RawDelete (DeletedFinalStateUnknown (AnyPod (Ptr bound)))) qm1 = Some qm1)"
proof -
  note d = filtering_handler.dispatch_add [OF assms(1)] filtering_handler.dispatch_update [OF assms(1)]
    filtering_handler.dispatch_delete [OF assms(1)]
  note used = kube_laws.mgr_used_sum [OF assms(2)]
  have phases: "\<not> IsTerminal (Ptr bound)" "\<not> IsNonTerminal (Ptr ended)"
    using assms(13,14) by (auto simp: IsTerminal_def IsNonTerminal_def IsTerminalPhase_def IsNonTerminalPhase_def)
  obtain qm1 err1 where qm1: "Manager_AddPodIfNotPresent K (Ptr bound) qm = Some (qm1, err1)" "mgr_balanced K amount reqs qm1"
      "mgr_tracked K qm1 n = insert (pod_uid bound) (mgr_tracked K qm n)"
    using kube_laws.Manager_AddPod_result [OF assms(2-4)] assms(6,15) by auto
  obtain qm2 err2 where qm2: "Manager_DeletePodIfPresent K (Ptr ended) qm1 = Some (qm2, err2)" "mgr_balanced K amount reqs qm2"
      "mgr_tracked K qm2 n = mgr_tracked K qm n - {pod_uid bound}"
    using kube_laws.Manager_DeletePod_result [OF assms(2) qm1(2) assms(5)] assms(7,8) qm1(3) by auto
  obtain qm3 err3 where qm3: "Manager_DeletePodIfPresent K (Ptr bound) qm1 = Some (qm3, err3)" "mgr_balanced K amount reqs qm3"
      "mgr_tracked K qm3 n = mgr_tracked K qm n - {pod_uid bound}"
    using kube_laws.Manager_DeletePod_result [OF assms(2) qm1(2) assms(4)] assms(6) qm1(3) by auto
  have "Manager_DeletePodIfPresent K NilP qm1 = Some (qm1, None)" by (simp add: Manager_DeletePodIfPresent_def)
  then show ?thesis
    using assms(9-12) phases qm1(1,3) qm2(1,3) qm3(1,3) used [OF qm1(2), of n] used [OF qm2(2), of n] used [OF qm3(2), of n]
    by (simp add: handle_raw_def d sync_addPod_def sync_updatePod_def sync_deletePod_def)
qed

definition ex_pod :: "string \<Rightarrow> string \<Rightarrow> int pod" where
  "ex_pod node phase = ref_pod_b\<lparr>spec_nodeName := node, status_phase := phase\<rparr>"

lemma ex_pod_facts:
  "pod_ok ref_kube ref_reqs (ex_pod node phase)" "pod_queue (ex_pod node phase) = Some ''b''"
  "pod_uid (ex_pod node phase) = ''p4''" "spec_nodeName (ex_pod node phase) = node" "status_phase (ex_pod node phase) = phase"
  by (simp_all add: ex_pod_def ref_pod_b_def ref_pod_def pod_ok_def ref_pod_requests_def ref_reqs_def pod_queue_def LabelKeyQueue_eq)

theorem pod_lifecycle_witness:
  "\<exists>qm1 qm2. handle_raw ref_kube ref_dispatch (RawUpdate (AnyPod (Ptr (ex_pod '''' ''Pending''))) (AnyPod (Ptr (ex_pod ''node'' ''Running'')))) ref_mgr = Some qm1 \<and>
    mgr_tracked ref_kube qm1 ''b'' = {''p1'', ''p2'', ''p4''} \<and>
    handle_raw ref_kube ref_dispatch (RawUpdate (AnyPod (Ptr (ex_pod ''node'' ''Running''))) (AnyPod (Ptr (ex_pod ''node'' ''Succeeded'')))) qm1 = Some qm2 \<and>
    mgr_tracked ref_kube qm2 ''b'' = {''p1'', ''p2''} \<and>
    handle_raw ref_kube ref_dispatch (RawDelete (DeletedFinalStateUnknown (AnyPod (Ptr (ex_pod ''node'' ''Running''))))) qm1 = Some qm1"
proof -
  have t: "mgr_tracked ref_kube ref_mgr ''b'' = {''p1'', ''p2''}" by (simp add: mgr_tracked_accounts ref_mgr_accounts)
  have "IsNonTerminal (Ptr (ex_pod ''node'' ''Running''))" "IsTerminal (Ptr (ex_pod ''node'' ''Succeeded''))"
    by (simp_all add: IsTerminal_def IsNonTerminal_def IsTerminalPhase_def IsNonTerminalPhase_def ex_pod_facts)
  moreover have "Manager_GetByName ref_mgr ''b'' \<noteq> NilP" using ref_queue_b by auto
  ultimately have "\<exists>qm1 qm2 qm3.
      handle_raw ref_kube ref_dispatch (RawUpdate (AnyPod (Ptr (ex_pod '''' ''Pending''))) (AnyPod (Ptr (ex_pod ''node'' ''Running'')))) ref_mgr = Some qm1 \<and>
      mgr_tracked ref_kube qm1 ''b'' = insert ''p4'' (mgr_tracked ref_kube ref_mgr ''b'') \<and>
      handle_raw ref_kube ref_dispatch (RawUpdate (AnyPod (Ptr (ex_pod ''node'' ''Running''))) (AnyPod (Ptr (ex_pod ''node'' ''Succeeded'')))) qm1 = Some qm2 \<and>
      mgr_tracked ref_kube qm2 ''b'' = mgr_tracked ref_kube ref_mgr ''b'' - {''p4''} \<and>
      handle_raw ref_kube ref_dispatch (RawDelete (DeletedFinalStateUnknown (AnyPod (Ptr (ex_pod ''node'' ''Running''))))) qm1 = Some qm1"
    using pod_lifecycle [OF ref_filtering.filtering_handler_axioms ref_laws.kube_laws_axioms ref_mgr_run(2),
        of "ex_pod ''node'' ''Running''" "ex_pod ''node'' ''Succeeded''" "''b''" "ex_pod '''' ''Pending''" "ex_pod '''' ''Pending''"]
    by (auto simp: ex_pod_facts)
  then show ?thesis by (simp add: t insert_commute)
qed

end
