(* ===== verification/Store.thy ===== *)
theory Store
  imports Manager
begin

text \<open>
  The queue manager with its pointers: queues, quotas, managers and resource maps as cells of a store.

  In \<^verbatim>\<open>Manager\<close> a queue is a value held by the manager's map. In the code the map holds pointers,
  \<^verbatim>\<open>GetByName\<close> hands them out, and a goroutine that holds one mutates the quota behind it after
  the manager's lock is released. Here every \<^verbatim>\<open>*Manager\<close>, \<^verbatim>\<open>*Queue\<close> and \<^verbatim>\<open>*Quota\<close> is an address, and so
  are the Go maps \<^verbatim>\<open>max\<close> and \<^verbatim>\<open>used\<close> of a quota: \<^verbatim>\<open>used\<close> is mutated in place, and a clone that kept the
  pointer to it would change with the original. The map of the pods is an immutable value. A queue's labels and
  preemption configuration are values as well: the code replaces them and never writes into them. A
  quantity is a value, which the \<^verbatim>\<open>DeepCopy\<close> of each entry in \<^verbatim>\<open>Resources.Clone\<close> justifies.
  Each definition named \<open>h_\<dots>\<close> is one section of the code that holds a lock, or a composition of
  such sections without a lock around them.

  \<open>store_ok\<close> is the ownership discipline the code keeps: no two quotas share a resource map, no two
  queues share a quota, and no two names of the managers share a queue. Under it the operations on
  cells refine those on values (\<open>mgr_val\<close> reads a manager off the store), and what is done through one
  manager is invisible through another.
\<close>

record 'm hquota =
  hqt_max :: "addr ptr"
  hqt_used :: "addr ptr"
  hqt_podsByID :: 'm

record 's hqueue =
  hq_name :: string
  hq_quota :: "addr ptr"
  hq_labels :: "labels ptr"
  hq_preemptionCfg :: "'s preemption_config"

record ('q, 's, 'm) store =
  st_next :: addr
  st_map :: "addr \<Rightarrow> (string \<times> 'q) list option"
  st_hquota :: "addr \<Rightarrow> 'm hquota option"
  st_queue :: "addr \<Rightarrow> 's hqueue option"
  st_mgr :: "addr \<Rightarrow> (string, addr ptr) gomap option"

definition empty_store :: "('q, 's, 'm) store" where
  "empty_store = \<lparr>st_next = 0, st_map = (\<lambda>_. None), st_hquota = (\<lambda>_. None), st_queue = (\<lambda>_. None), st_mgr = (\<lambda>_. None)\<rparr>"

section \<open>Cells\<close>

definition new_map :: "'q resources \<Rightarrow> ('q, 's, 'm) store \<Rightarrow> addr ptr \<times> ('q, 's, 'm) store" where
  "new_map r s = (case r of
     NilP \<Rightarrow> (NilP, s)
   | Ptr es \<Rightarrow> (Ptr (st_next s), s\<lparr>st_next := Suc (st_next s), st_map := (st_map s)(st_next s \<mapsto> es)\<rparr>))"

definition new_hquota :: "'m hquota \<Rightarrow> ('q, 's, 'm) store \<Rightarrow> addr \<times> ('q, 's, 'm) store" where
  "new_hquota h s = (st_next s, s\<lparr>st_next := Suc (st_next s), st_hquota := (st_hquota s)(st_next s \<mapsto> h)\<rparr>)"

definition new_queue :: "'s hqueue \<Rightarrow> ('q, 's, 'm) store \<Rightarrow> addr \<times> ('q, 's, 'm) store" where
  "new_queue q s = (st_next s, s\<lparr>st_next := Suc (st_next s), st_queue := (st_queue s)(st_next s \<mapsto> q)\<rparr>)"

definition new_mgr :: "(string, addr ptr) gomap \<Rightarrow> ('q, 's, 'm) store \<Rightarrow> addr \<times> ('q, 's, 'm) store" where
  "new_mgr m s = (st_next s, s\<lparr>st_next := Suc (st_next s), st_mgr := (st_mgr s)(st_next s \<mapsto> m)\<rparr>)"

definition set_map :: "addr \<Rightarrow> (string \<times> 'q) list \<Rightarrow> ('q, 's, 'm) store \<Rightarrow> ('q, 's, 'm) store" where
  "set_map c es s = s\<lparr>st_map := (st_map s)(c \<mapsto> es)\<rparr>"

definition set_hquota :: "addr \<Rightarrow> 'm hquota \<Rightarrow> ('q, 's, 'm) store \<Rightarrow> ('q, 's, 'm) store" where
  "set_hquota b h s = s\<lparr>st_hquota := (st_hquota s)(b \<mapsto> h)\<rparr>"

definition set_queue :: "addr \<Rightarrow> 's hqueue \<Rightarrow> ('q, 's, 'm) store \<Rightarrow> ('q, 's, 'm) store" where
  "set_queue a q s = s\<lparr>st_queue := (st_queue s)(a \<mapsto> q)\<rparr>"

definition set_mgr :: "addr \<Rightarrow> (string, addr ptr) gomap \<Rightarrow> ('q, 's, 'm) store \<Rightarrow> ('q, 's, 'm) store" where
  "set_mgr m M s = s\<lparr>st_mgr := (st_mgr s)(m \<mapsto> M)\<rparr>"

section \<open>Resource maps\<close>

text \<open>What a map pointer leads to, a method that mutates the map in place, and \<^verbatim>\<open>Resources.Clone\<close>.\<close>

definition map_val :: "('q, 's, 'm) store \<Rightarrow> addr ptr \<Rightarrow> 'q resources" where
  "map_val s p = (case p of NilP \<Rightarrow> NilP
   | Ptr c \<Rightarrow> (case st_map s c of None \<Rightarrow> NilP | Some es \<Rightarrow> Ptr es))"

definition h_map_update :: "('q resources \<Rightarrow> 'q resources option) \<Rightarrow> addr ptr \<Rightarrow> ('q, 's, 'm) store \<Rightarrow> ('q, 's, 'm) store option" where
  "h_map_update f p s = (case p of
     NilP \<Rightarrow> do { r \<leftarrow> f NilP; Some s }
   | Ptr c \<Rightarrow> do { es \<leftarrow> st_map s c; r \<leftarrow> f (Ptr es); Some (set_map c (gm_entries r) s) })"

definition h_Resources_Add :: "('q, 's, 'm) kube \<Rightarrow> addr ptr \<Rightarrow> 'q resources \<Rightarrow> ('q, 's, 'm) store \<Rightarrow> ('q, 's, 'm) store option" where
  "h_Resources_Add K p other = h_map_update (\<lambda>r. Resources_Add K r other) p"

definition h_Resources_Sub :: "('q, 's, 'm) kube \<Rightarrow> addr ptr \<Rightarrow> 'q resources \<Rightarrow> ('q, 's, 'm) store \<Rightarrow> ('q, 's, 'm) store option" where
  "h_Resources_Sub K p other = h_map_update (\<lambda>r. Resources_Sub K r other) p"

definition h_Resources_Clone :: "('q, 's, 'm) kube \<Rightarrow> addr ptr \<Rightarrow> ('q, 's, 'm) store \<Rightarrow> addr ptr \<times> ('q, 's, 'm) store" where
  "h_Resources_Clone K p s = new_map (Resources_Clone K (map_val s p)) s"

section \<open>Quotas\<close>

definition h_quota_add_pod :: "('q, 's, 'm) kube \<Rightarrow> addr \<Rightarrow> 'q pod ptr \<Rightarrow> ('q, 's, 'm) store \<Rightarrow> ('q, 's, 'm) store option" where
  "h_quota_add_pod K b pod s = (case pod of
     NilP \<Rightarrow> Some s
   | Ptr p \<Rightarrow> do {
       q \<leftarrow> st_hquota s b;
       case imm_Get K (hqt_podsByID q) (pod_uid p) of
         Some _ \<Rightarrow> Some s
       | None \<Rightarrow> do {
           let s1 = set_hquota b (q\<lparr>hqt_podsByID := imm_Set K (hqt_podsByID q) (pod_uid p) pod\<rparr>) s;
           req \<leftarrow> FromPodReq K pod;
           h_Resources_Add K (hqt_used q) req s1 } })"

definition h_quota_del_pod :: "('q, 's, 'm) kube \<Rightarrow> addr \<Rightarrow> 'q pod ptr \<Rightarrow> ('q, 's, 'm) store \<Rightarrow> ('q, 's, 'm) store option" where
  "h_quota_del_pod K b pod s = (case pod of
     NilP \<Rightarrow> Some s
   | Ptr p \<Rightarrow> do {
       q \<leftarrow> st_hquota s b;
       case imm_Get K (hqt_podsByID q) (pod_uid p) of
         None \<Rightarrow> Some s
       | Some _ \<Rightarrow> do {
           let s1 = set_hquota b (q\<lparr>hqt_podsByID := imm_Delete K (hqt_podsByID q) (pod_uid p)\<rparr>) s;
           req \<leftarrow> FromPodReq K pod;
           h_Resources_Sub K (hqt_used q) req s1 } })"

definition h_Quota_AddPodIfNotPresent :: "('q, 's, 'm) kube \<Rightarrow> addr ptr \<Rightarrow> 'q pod ptr list \<Rightarrow> ('q, 's, 'm) store \<Rightarrow> ('q, 's, 'm) store option" where
  "h_Quota_AddPodIfNotPresent K p pods s = (case p of
     NilP \<Rightarrow> Some s
   | Ptr b \<Rightarrow> if pods = [] then Some s else for_each (h_quota_add_pod K b) pods s)"

definition h_Quota_DeletePodIfPresent :: "('q, 's, 'm) kube \<Rightarrow> addr ptr \<Rightarrow> 'q pod ptr list \<Rightarrow> ('q, 's, 'm) store \<Rightarrow> ('q, 's, 'm) store option" where
  "h_Quota_DeletePodIfPresent K p pods s = (case p of
     NilP \<Rightarrow> Some s
   | Ptr b \<Rightarrow> if pods = [] then Some s else for_each (h_quota_del_pod K b) pods s)"

text \<open>\<^verbatim>\<open>SetMax\<close> keeps the map it is given; \<^verbatim>\<open>Max\<close> and \<^verbatim>\<open>Used\<close> hand out the live map.\<close>

definition h_Quota_SetMax :: "addr ptr \<Rightarrow> addr ptr \<Rightarrow> ('q, 's, 'm) store \<Rightarrow> ('q, 's, 'm) store option" where
  "h_Quota_SetMax p mx s = (case p of
     NilP \<Rightarrow> Some s
   | Ptr b \<Rightarrow> do { q \<leftarrow> st_hquota s b; Some (set_hquota b (q\<lparr>hqt_max := mx\<rparr>) s) })"

definition h_Quota_Max :: "addr ptr \<Rightarrow> ('q, 's, 'm) store \<Rightarrow> addr ptr option" where
  "h_Quota_Max p s = (case p of NilP \<Rightarrow> Some NilP | Ptr b \<Rightarrow> do { q \<leftarrow> st_hquota s b; Some (hqt_max q) })"

definition h_Quota_Used :: "addr ptr \<Rightarrow> ('q, 's, 'm) store \<Rightarrow> addr ptr option" where
  "h_Quota_Used p s = (case p of NilP \<Rightarrow> Some NilP | Ptr b \<Rightarrow> do { q \<leftarrow> st_hquota s b; Some (hqt_used q) })"

definition h_NewQuota :: "('q, 's, 'm) kube \<Rightarrow> addr ptr \<Rightarrow> ('q, 's, 'm) store \<Rightarrow> addr \<times> ('q, 's, 'm) store" where
  "h_NewQuota K mx s = (let (used, s1) = new_map gm_make s
     in new_hquota \<lparr>hqt_max = mx, hqt_used = used, hqt_podsByID = imm_New K\<rparr> s1)"

definition h_Quota_Clone :: "('q, 's, 'm) kube \<Rightarrow> addr ptr \<Rightarrow> ('q, 's, 'm) store \<Rightarrow> (addr ptr \<times> ('q, 's, 'm) store) option" where
  "h_Quota_Clone K p s = (case p of
     NilP \<Rightarrow> Some (NilP, s)
   | Ptr b \<Rightarrow> do {
       q \<leftarrow> st_hquota s b;
       let (mx, s1) = h_Resources_Clone K (hqt_max q) s;
       let (used, s2) = h_Resources_Clone K (hqt_used q) s1;
       let (b', s3) = new_hquota \<lparr>hqt_max = mx, hqt_used = used, hqt_podsByID = hqt_podsByID q\<rparr> s2;
       Some (Ptr b', s3) })"

section \<open>Queues\<close>

text \<open>An option writes to the queue it is given, or through it to the quota.\<close>

type_synonym ('q, 's, 'm) hoption = "addr ptr \<Rightarrow> ('q, 's, 'm) store \<Rightarrow> ('q, 's, 'm) store option"

definition h_queue_update :: "('s hqueue \<Rightarrow> 's hqueue) \<Rightarrow> ('q, 's, 'm) hoption" where
  "h_queue_update f p s = (case p of
     NilP \<Rightarrow> Some s
   | Ptr a \<Rightarrow> do { q \<leftarrow> st_queue s a; Some (set_queue a (f q) s) })"

definition h_WithQuotaMax :: "addr ptr \<Rightarrow> ('q, 's, 'm) hoption" where
  "h_WithQuotaMax mx p s = (case p of
     NilP \<Rightarrow> Some s
   | Ptr a \<Rightarrow> do { q \<leftarrow> st_queue s a; h_Quota_SetMax (hq_quota q) mx s })"

definition h_WithLabels :: "labels ptr \<Rightarrow> ('q, 's, 'm) hoption" where
  "h_WithLabels lbls = h_queue_update (\<lambda>q. q\<lparr>hq_labels := (if is_nil lbls then Ptr gm_make else lbls)\<rparr>)"

definition h_WithPreemptionConfig :: "'s preemption_config \<Rightarrow> ('q, 's, 'm) hoption" where
  "h_WithPreemptionConfig config = h_queue_update (\<lambda>q. q\<lparr>hq_preemptionCfg := config\<rparr>)"

definition h_ApplyOpts :: "addr ptr \<Rightarrow> ('q, 's, 'm) hoption list \<Rightarrow> ('q, 's, 'm) store \<Rightarrow> ('q, 's, 'm) store option" where
  "h_ApplyOpts p opts s = (if is_nil p then Some s else for_each (\<lambda>opt. opt p) opts s)"

definition h_Queue_New :: "('q, 's, 'm) kube \<Rightarrow> string \<Rightarrow> ('q, 's, 'm) hoption list \<Rightarrow> ('q, 's, 'm) store \<Rightarrow> (addr \<times> ('q, 's, 'm) store) option" where
  "h_Queue_New K name opts s = do {
     let (b, s1) = h_NewQuota K NilP s;
     let (a, s2) = new_queue \<lparr>hq_name = name, hq_quota = Ptr b, hq_labels = Ptr gm_make,
       hq_preemptionCfg = zero_config\<rparr> s1;
     s3 \<leftarrow> h_ApplyOpts (Ptr a) opts s2;
     Some (a, s3) }"

definition h_Queue_Quota :: "addr ptr \<Rightarrow> ('q, 's, 'm) store \<Rightarrow> addr ptr option" where
  "h_Queue_Quota p s = (case p of NilP \<Rightarrow> Some NilP | Ptr a \<Rightarrow> do { q \<leftarrow> st_queue s a; Some (hq_quota q) })"

definition h_Queue_Clone :: "('q, 's, 'm) kube \<Rightarrow> addr ptr \<Rightarrow> ('q, 's, 'm) store \<Rightarrow> (addr ptr \<times> ('q, 's, 'm) store) option" where
  "h_Queue_Clone K p s = (case p of
     NilP \<Rightarrow> Some (NilP, s)
   | Ptr a \<Rightarrow> do {
       q \<leftarrow> st_queue s a;
       (quota, s1) \<leftarrow> h_Quota_Clone K (hq_quota q) s;
       let (a', s2) = new_queue (q\<lparr>hq_quota := quota\<rparr>) s1;
       Some (Ptr a', s2) })"

section \<open>Managers\<close>

definition h_NewManager :: "('q, 's, 'm) store \<Rightarrow> addr \<times> ('q, 's, 'm) store" where
  "h_NewManager = new_mgr gm_make"

definition h_GetByName :: "addr \<Rightarrow> string \<Rightarrow> ('q, 's, 'm) store \<Rightarrow> addr ptr option" where
  "h_GetByName m name s = do { M \<leftarrow> st_mgr s m; Some (opt_ptr (gm_get M name)) }"

definition h_mgr_store :: "addr \<Rightarrow> string \<Rightarrow> addr ptr \<Rightarrow> ('q, 's, 'm) store \<Rightarrow> ('q, 's, 'm) store option" where
  "h_mgr_store m name p s = do { M \<leftarrow> st_mgr s m; M' \<leftarrow> gm_set M name p; Some (set_mgr m M' s) }"

definition h_Manager_Put :: "('q, 's, 'm) kube \<Rightarrow> addr \<Rightarrow> string \<Rightarrow> ('q, 's, 'm) hoption list \<Rightarrow> ('q, 's, 'm) store \<Rightarrow> ('q, 's, 'm) store option" where
  "h_Manager_Put K m name opts s = do { (a, s') \<leftarrow> h_Queue_New K name opts s; h_mgr_store m name (Ptr a) s' }"

definition h_Manager_Update :: "('q, 's, 'm) kube \<Rightarrow> addr \<Rightarrow> string \<Rightarrow> ('q, 's, 'm) hoption list \<Rightarrow> ('q, 's, 'm) store \<Rightarrow> ('q, 's, 'm) store option" where
  "h_Manager_Update K m name opts s =
     (if opts = [] then Some s
      else do {
        p \<leftarrow> h_GetByName m name s;
        case p of
          NilP \<Rightarrow> do { (a, s') \<leftarrow> h_Queue_New K name opts s; h_mgr_store m name (Ptr a) s' }
        | Ptr a \<Rightarrow> h_ApplyOpts p opts s })"

definition h_Manager_Delete :: "addr \<Rightarrow> string \<Rightarrow> ('q, 's, 'm) store \<Rightarrow> ('q, 's, 'm) store option" where
  "h_Manager_Delete m name s = do { M \<leftarrow> st_mgr s m; Some (set_mgr m (gm_delete M name) s) }"

definition h_Manager_AddPodIfNotPresent :: "('q, 's, 'm) kube \<Rightarrow> addr \<Rightarrow> 'q pod ptr \<Rightarrow> ('q, 's, 'm) store \<Rightarrow> (('q, 's, 'm) store \<times> mgr_error option) option" where
  "h_Manager_AddPodIfNotPresent K m pod s = (case pod of
     NilP \<Rightarrow> Some (s, None)
   | Ptr p \<Rightarrow> (case gm_get (pod_labels p) LabelKeyQueue of
       None \<Rightarrow> Some (s, None)
     | Some queueName \<Rightarrow> do {
         q \<leftarrow> h_GetByName m queueName s;
         if is_nil q then Some (s, Some (ErrAddPodToQuota queueName))
         else do {
           quota \<leftarrow> h_Queue_Quota q s;
           s' \<leftarrow> h_Quota_AddPodIfNotPresent K quota [pod] s;
           Some (s', None) } }))"

definition h_Manager_DeletePodIfPresent :: "('q, 's, 'm) kube \<Rightarrow> addr \<Rightarrow> 'q pod ptr \<Rightarrow> ('q, 's, 'm) store \<Rightarrow> (('q, 's, 'm) store \<times> mgr_error option) option" where
  "h_Manager_DeletePodIfPresent K m pod s = (case pod of
     NilP \<Rightarrow> Some (s, None)
   | Ptr p \<Rightarrow> (case gm_get (pod_labels p) LabelKeyQueue of
       None \<Rightarrow> Some (s, None)
     | Some queueName \<Rightarrow> do {
         q \<leftarrow> h_GetByName m queueName s;
         if is_nil q then Some (s, Some (ErrRemovePodFromQuota queueName))
         else do {
           quota \<leftarrow> h_Queue_Quota q s;
           s' \<leftarrow> h_Quota_DeletePodIfPresent K quota [pod] s;
           Some (s', None) } }))"

text \<open>
  \<^verbatim>\<open>Clone\<close> copies the map under the manager's lock and then replaces, queue by queue, each pointer
  of the copy by a pointer to a clone.
\<close>

definition clone_entry :: "('q, 's, 'm) kube \<Rightarrow> string \<times> addr ptr \<Rightarrow> (string \<times> addr ptr) list \<times> ('q, 's, 'm) store \<Rightarrow> ((string \<times> addr ptr) list \<times> ('q, 's, 'm) store) option" where
  "clone_entry K e st = do {
     (p', s') \<leftarrow> h_Queue_Clone K (snd e) (snd st);
     Some (AList.update (fst e) p' (fst st), s') }"

definition h_Manager_Clone :: "('q, 's, 'm) kube \<Rightarrow> addr \<Rightarrow> ('q, 's, 'm) store \<Rightarrow> (addr \<times> ('q, 's, 'm) store) option" where
  "h_Manager_Clone K m s = do {
     M \<leftarrow> st_mgr s m;
     case M of
       NilP \<Rightarrow> Some (new_mgr NilP s)
     | Ptr es \<Rightarrow> do { (es', s') \<leftarrow> for_each (clone_entry K) es (es, s); Some (new_mgr (Ptr es') s') } }"

section \<open>Reading the store\<close>

text \<open>The value of the quota at an address, with the maps its pointers lead to.\<close>

definition st_quota :: "('q, 's, 'm) store \<Rightarrow> addr \<Rightarrow> ('q, 'm) quota option" where
  "st_quota s b = map_option (\<lambda>h. \<lparr>quota_max = map_val s (hqt_max h), quota_used = map_val s (hqt_used h),
     quota_podsByID = hqt_podsByID h\<rparr>) (st_hquota s b)"

definition quota_val :: "('q, 's, 'm) store \<Rightarrow> addr ptr \<Rightarrow> ('q, 'm) quota ptr" where
  "quota_val s p = (case p of NilP \<Rightarrow> NilP
   | Ptr b \<Rightarrow> (case st_quota s b of None \<Rightarrow> NilP | Some q \<Rightarrow> Ptr q))"

definition queue_val :: "('q, 's, 'm) store \<Rightarrow> addr ptr \<Rightarrow> ('q, 's, 'm) queue ptr" where
  "queue_val s p = (case p of NilP \<Rightarrow> NilP
   | Ptr a \<Rightarrow> (case st_queue s a of None \<Rightarrow> NilP
     | Some q \<Rightarrow> Ptr \<lparr>queue_name = hq_name q, queue_quota = quota_val s (hq_quota q),
         queue_labels = hq_labels q, queue_preemptionCfg = hq_preemptionCfg q\<rparr>))"

definition mgr_val :: "('q, 's, 'm) store \<Rightarrow> addr \<Rightarrow> ('q, 's, 'm) manager" where
  "mgr_val s m = \<lparr>mgr_queueByName = (case st_mgr s m of
     Some (Ptr es) \<Rightarrow> Ptr (map (\<lambda>(n, p). (n, queue_val s p)) es)
   | _ \<Rightarrow> NilP)\<rparr>"

section \<open>Ownership\<close>

definition maps_of :: "'m hquota \<Rightarrow> addr set" where
  "maps_of h = {c. hqt_max h = Ptr c \<or> hqt_used h = Ptr c}"

definition maps_ok :: "('q, 's, 'm) store \<Rightarrow> bool" where
  "maps_ok s \<longleftrightarrow> (\<forall>a. st_next s \<le> a \<longrightarrow> st_map s a = None \<and> st_hquota s a = None) \<and>
     (\<forall>b h. st_hquota s b = Some h \<longrightarrow> hqt_used h \<noteq> NilP \<and> hqt_used h \<noteq> hqt_max h \<and> (\<forall>c \<in> maps_of h. st_map s c \<noteq> None)) \<and>
     (\<forall>b b' h h' c. st_hquota s b = Some h \<longrightarrow> st_hquota s b' = Some h' \<longrightarrow> c \<in> maps_of h \<longrightarrow> c \<in> maps_of h' \<longrightarrow> b = b')"

definition cells_ok :: "('q, 's, 'm) store \<Rightarrow> bool" where
  "cells_ok s \<longleftrightarrow> maps_ok s \<and>
     (\<forall>a. st_next s \<le> a \<longrightarrow> st_queue s a = None \<and> st_mgr s a = None) \<and>
     (\<forall>a q. st_queue s a = Some q \<longrightarrow> (\<exists>b v. hq_quota q = Ptr b \<and> st_quota s b = Some v)) \<and>
     (\<forall>a a' q q'. st_queue s a = Some q \<longrightarrow> st_queue s a' = Some q' \<longrightarrow> hq_quota q = hq_quota q' \<longrightarrow> a = a')"

text \<open>A map that no quota has.\<close>

definition spare :: "('q, 's, 'm) store \<Rightarrow> addr ptr \<Rightarrow> bool" where
  "spare s p \<longleftrightarrow> (\<forall>c. p = Ptr c \<longrightarrow> st_map s c \<noteq> None \<and> (\<forall>b h. st_hquota s b = Some h \<longrightarrow> c \<notin> maps_of h))"

definition map_ok :: "('q, 's, 'm) store \<Rightarrow> (string, addr ptr) gomap \<Rightarrow> bool" where
  "map_ok s M \<longleftrightarrow> M \<noteq> NilP \<and> gm_wf M \<and> (\<forall>n p. gm_get M n = Some p \<longrightarrow> (\<exists>a q. p = Ptr a \<and> st_queue s a = Some q))"

definition owns :: "('q, 's, 'm) store \<Rightarrow> addr \<Rightarrow> string \<Rightarrow> addr \<Rightarrow> bool" where
  "owns s m n a \<longleftrightarrow> (\<exists>M. st_mgr s m = Some M \<and> gm_get M n = Some (Ptr a))"

definition store_ok :: "('q, 's, 'm) store \<Rightarrow> bool" where
  "store_ok s \<longleftrightarrow> cells_ok s \<and> (\<forall>m M. st_mgr s m = Some M \<longrightarrow> map_ok s M) \<and>
     (\<forall>m m' n n' a. owns s m n a \<longrightarrow> owns s m' n' a \<longrightarrow> m = m' \<and> n = n')"

lemma set_cell_simps [simp]:
  "st_map (set_map c es s) = (st_map s)(c \<mapsto> es)" "st_hquota (set_map c es s) = st_hquota s" "st_queue (set_map c es s) = st_queue s"
  "st_mgr (set_map c es s) = st_mgr s" "st_next (set_map c es s) = st_next s"
  "st_map (set_hquota b h s) = st_map s" "st_hquota (set_hquota b h s) = (st_hquota s)(b \<mapsto> h)" "st_queue (set_hquota b h s) = st_queue s"
  "st_mgr (set_hquota b h s) = st_mgr s" "st_next (set_hquota b h s) = st_next s"
  "st_map (set_queue a q s) = st_map s" "st_hquota (set_queue a q s) = st_hquota s" "st_queue (set_queue a q s) = (st_queue s)(a \<mapsto> q)"
  "st_mgr (set_queue a q s) = st_mgr s" "st_next (set_queue a q s) = st_next s"
  "st_map (set_mgr m M s) = st_map s" "st_hquota (set_mgr m M s) = st_hquota s" "st_queue (set_mgr m M s) = st_queue s"
  "st_mgr (set_mgr m M s) = (st_mgr s)(m \<mapsto> M)" "st_next (set_mgr m M s) = st_next s"
  by (simp_all add: set_map_def set_hquota_def set_queue_def set_mgr_def)

text \<open>Reading a quota looks at the quota cells and the maps only.\<close>

lemma st_quota_cong: "st_map s' = st_map s \<Longrightarrow> st_hquota s' = st_hquota s \<Longrightarrow> st_quota s' = st_quota s"
  by (simp add: st_quota_def map_val_def fun_eq_iff cong: ptr.case_cong)

lemma st_quota_set_simps [simp]:
  "st_quota (set_queue a q s) = st_quota s" "st_quota (set_mgr m M s) = st_quota s"
  by (rule st_quota_cong, simp_all)+

lemma maps_ok_cong: "st_map s' = st_map s \<Longrightarrow> st_hquota s' = st_hquota s \<Longrightarrow> st_next s \<le> st_next s' \<Longrightarrow> maps_ok s \<Longrightarrow> maps_ok s'"
  unfolding maps_ok_def by fastforce

lemma maps_ok_set_simps: "maps_ok s \<Longrightarrow> maps_ok (set_queue a q s)" "maps_ok s \<Longrightarrow> maps_ok (set_mgr m M s)"
  by (rule maps_ok_cong [of _ s], simp_all)+

lemma st_quota_hquota: "st_quota s b = Some v \<Longrightarrow> \<exists>h. st_hquota s b = Some h \<and> v = \<lparr>quota_max = map_val s (hqt_max h),
    quota_used = map_val s (hqt_used h), quota_podsByID = hqt_podsByID h\<rparr>"
  by (auto simp: st_quota_def)

lemma store_okD:
  assumes "store_ok s"
  shows "cells_ok s" and "st_mgr s m = Some M \<Longrightarrow> map_ok s M"
    and "owns s m n a \<Longrightarrow> owns s m' n' a \<Longrightarrow> m = m' \<and> n = n'"
  using assms unfolding store_ok_def by blast+

lemma cells_okD:
  assumes "cells_ok s"
  shows "st_next s \<le> a \<Longrightarrow> st_quota s a = None" and "st_next s \<le> a \<Longrightarrow> st_queue s a = None"
    and "st_next s \<le> a \<Longrightarrow> st_mgr s a = None"
    and "st_queue s a = Some q \<Longrightarrow> \<exists>b v. hq_quota q = Ptr b \<and> st_quota s b = Some v"
    and "st_queue s a = Some q \<Longrightarrow> st_queue s a' = Some q' \<Longrightarrow> hq_quota q = hq_quota q' \<Longrightarrow> a = a'"
    and "maps_ok s"
proof -
  show "maps_ok s" using assms by (simp add: cells_ok_def)
  then show "st_quota s a = None" if "st_next s \<le> a" using that by (simp add: maps_ok_def st_quota_def)
qed (use assms in \<open>unfold cells_ok_def, blast+\<close>)

lemma store_ok_maps: "store_ok s \<Longrightarrow> maps_ok s"
  using cells_okD(6) store_okD(1) by blast

lemma maps_okD:
  assumes "maps_ok s"
  shows "st_next s \<le> a \<Longrightarrow> st_map s a = None" and "st_next s \<le> a \<Longrightarrow> st_hquota s a = None"
    and "st_hquota s b = Some h \<Longrightarrow> \<exists>c es. hqt_used h = Ptr c \<and> st_map s c = Some es"
    and "st_hquota s b = Some h \<Longrightarrow> hqt_used h \<noteq> hqt_max h" and "st_hquota s b = Some h \<Longrightarrow> c \<in> maps_of h \<Longrightarrow> st_map s c \<noteq> None"
    and "st_hquota s b = Some h \<Longrightarrow> st_hquota s b' = Some h' \<Longrightarrow> c \<in> maps_of h \<Longrightarrow> c \<in> maps_of h' \<Longrightarrow> b = b'"
proof -
  show "\<exists>c es. hqt_used h = Ptr c \<and> st_map s c = Some es" if "st_hquota s b = Some h"
    using that assms by (cases "hqt_used h") (auto simp: maps_ok_def maps_of_def)
qed (use assms in \<open>unfold maps_ok_def, blast+\<close>)

lemma store_ok_empty: "store_ok empty_store"
  by (simp add: store_ok_def cells_ok_def maps_ok_def owns_def empty_store_def)

lemma map_ok_get:
  assumes "map_ok s M" and "gm_get M n = Some p"
  obtains a q where "p = Ptr a" "st_queue s a = Some q"
  using assms unfolding map_ok_def by blast

text \<open>A queue cell with the quota behind it.\<close>

lemma store_ok_queue:
  assumes "store_ok s" and "st_queue s a = Some q"
  obtains b v where "hq_quota q = Ptr b" "st_quota s b = Some v"
  using cells_okD(4) [OF store_okD(1) [OF assms(1)] assms(2)] by blast

section \<open>Writing to a quota\<close>

text \<open>\<open>wrote b v s s'\<close>: from \<open>s\<close> to \<open>s'\<close> the quota at \<open>b\<close> became \<open>v\<close>, and no other quota, no queue and no manager changed.\<close>

definition wrote :: "addr \<Rightarrow> ('q, 'm) quota \<Rightarrow> ('q, 's, 'm) store \<Rightarrow> ('q, 's, 'm) store \<Rightarrow> bool" where
  "wrote b v s s' \<longleftrightarrow> maps_ok s' \<and> st_quota s' = (st_quota s)(b \<mapsto> v) \<and> st_queue s' = st_queue s \<and> st_mgr s' = st_mgr s \<and>
     st_next s' = st_next s"

lemma wroteD:
  assumes "wrote b v s s'"
  shows "maps_ok s'" and "st_quota s' = (st_quota s)(b \<mapsto> v)" and "st_queue s' = st_queue s" and "st_mgr s' = st_mgr s"
    and "st_next s' = st_next s"
  using assms by (simp_all add: wrote_def)

lemma wrote_refl: "maps_ok s \<Longrightarrow> st_quota s b = Some v \<Longrightarrow> wrote b v s s"
  by (auto simp: wrote_def)

lemma wrote_trans: "wrote b v s s' \<Longrightarrow> wrote b v' s' s'' \<Longrightarrow> wrote b v' s s''"
  by (simp add: wrote_def)

text \<open>The two ways to write: through the pointer to the map in use, and by putting another map in the place of the maximum.\<close>

lemma wrote_used:
  assumes "maps_ok s" and "st_hquota s b = Some h" and "hqt_used h = Ptr c"
  shows "wrote b \<lparr>quota_max = map_val s (hqt_max h), quota_used = Ptr es, quota_podsByID = pods\<rparr> s
    (set_map c es (set_hquota b (h\<lparr>hqt_podsByID := pods\<rparr>) s))" (is "wrote b ?v s ?s")
proof -
  note ok = maps_okD [OF assms(1)]
  have own: "c \<in> maps_of h" using assms(3) by (simp add: maps_of_def)
  have other: "map_val ?s p = map_val s p" if "p \<noteq> Ptr c" for p
    using that by (auto simp: map_val_def split: ptr.split)
  have "st_quota ?s b' = ((st_quota s)(b \<mapsto> ?v)) b'" for b'
  proof (cases "b' = b")
    case True
    then show ?thesis using ok(4) [OF assms(2)] assms(3) other by (auto simp: st_quota_def map_val_def)
  next
    case False
    have "hqt_max h' \<noteq> Ptr c \<and> hqt_used h' \<noteq> Ptr c" if "st_hquota s b' = Some h'" for h'
      using ok(6) [OF assms(2) that own] False by (auto simp: maps_of_def)
    then show ?thesis using False other by (cases "st_hquota s b'") (auto simp: st_quota_def)
  qed
  moreover have "maps_ok ?s"
    using assms unfolding maps_ok_def maps_of_def by (auto split: if_splits) (metis linorder_not_le option.distinct(1) option.inject)+
  ultimately show ?thesis by (simp add: wrote_def fun_eq_iff)
qed

lemma wrote_max:
  assumes "maps_ok s" and "st_hquota s b = Some h" and "spare s p" and "st_quota s b = Some v"
  shows "wrote b (v\<lparr>quota_max := map_val s p\<rparr>) s (set_hquota b (h\<lparr>hqt_max := p\<rparr>) s)" (is "wrote b ?v s ?s")
proof -
  have "map_val ?s = map_val s" by (rule ext) (simp add: map_val_def cong: ptr.case_cong)
  then have "st_quota ?s = (st_quota s)(b \<mapsto> ?v)" using assms(2,4) by (auto simp: st_quota_def fun_eq_iff)
  moreover have "maps_ok ?s"
    unfolding maps_ok_def
  proof (intro conjI allI impI)
    note ok = maps_okD [OF assms(1)]
    have p: "st_map s c \<noteq> None \<and> (\<forall>b h. st_hquota s b = Some h \<longrightarrow> c \<notin> maps_of h)" if "p = Ptr c" for c
      using assms(3) that by (simp add: spare_def)
    show "st_map ?s a = None" "st_hquota ?s a = None" if "st_next ?s \<le> a" for a
      using that ok(1,2) [of a] assms(2) by auto
    fix b' h' assume h': "st_hquota ?s b' = Some h'"
    show "hqt_used h' \<noteq> NilP" "\<forall>c \<in> maps_of h'. st_map ?s c \<noteq> None"
      using h' ok(3,5) [of b'] ok(3,5) [OF assms(2)] p by (auto simp: maps_of_def split: if_splits)
    have "hqt_used h \<noteq> p" using ok(3) [OF assms(2)] p assms(2) by (auto simp: maps_of_def)
    then show "hqt_used h' \<noteq> hqt_max h'" using h' ok(4) [of b'] by (auto split: if_splits)
    fix b'' h'' c assume "st_hquota ?s b'' = Some h''" "c \<in> maps_of h'" "c \<in> maps_of h''"
    then show "b' = b''" using h' ok(6) [of b' h' b'' h'' c] ok(6) [OF assms(2), of b'' h'' c] ok(6) [OF assms(2), of b' h' c] p
      by (auto simp: maps_of_def split: if_splits)
  qed
  ultimately show ?thesis by (simp add: wrote_def)
qed

section \<open>Writing to cells keeps the ownership\<close>

lemma map_ok_mono:
  "map_ok s M \<Longrightarrow> (\<And>a q. st_queue s a = Some q \<Longrightarrow> \<exists>q'. st_queue s' a = Some q') \<Longrightarrow> map_ok s' M"
  unfolding map_ok_def by blast

lemma store_ok_wrote:
  assumes "store_ok s" and "wrote b v s s'"
  shows "store_ok s'"
proof -
  note w = wroteD [OF assms(2)]
  have "\<exists>b' v'. hq_quota q = Ptr b' \<and> st_quota s' b' = Some v'" if "st_queue s' a = Some q" for a q
    using cells_okD(4) [OF store_okD(1) [OF assms(1)], of a q] that w(2,3) by (metis fun_upd_apply)
  then have "cells_ok s'"
    using store_okD(1) [OF assms(1)] w(1,3-5) unfolding cells_ok_def by simp
  then show ?thesis
    using assms(1) map_ok_mono [of s _ s'] w(3,4) by (auto simp: store_ok_def owns_def)
qed

lemma store_ok_set_queue:
  assumes "store_ok s" and "st_queue s a = Some q" and "hq_quota q' = hq_quota q"
  shows "store_ok (set_queue a q' s)"
proof -
  have "maps_ok (set_queue a q' s)" using maps_ok_set_simps store_ok_maps [OF assms(1)] by blast
  then have "cells_ok (set_queue a q' s)"
    using store_okD(1) [OF assms(1)] assms(2,3) unfolding cells_ok_def by (auto split: if_splits)
  then show ?thesis
    using assms(1) map_ok_mono [of s _ "set_queue a q' s"] by (auto simp: store_ok_def owns_def)
qed

section \<open>New cells\<close>

text \<open>Allocation leaves the cells that were there alone.\<close>

definition extends :: "('q, 's, 'm) store \<Rightarrow> ('q, 's, 'm) store \<Rightarrow> bool" where
  "extends s s' \<longleftrightarrow> st_next s \<le> st_next s' \<and> (\<forall>a < st_next s. st_quota s' a = st_quota s a \<and> st_queue s' a = st_queue s a)"

lemma extends_refl [simp]: "extends s s"
  by (simp add: extends_def)

lemma extends_trans: "extends s s' \<Longrightarrow> extends s' s'' \<Longrightarrow> extends s s''"
  by (simp add: extends_def)

lemma store_ok_new_map:
  assumes "store_ok s" and "new_map r s = (p, s')"
  shows "store_ok s'" and "st_quota s' = st_quota s" and "st_queue s' = st_queue s" and "st_mgr s' = st_mgr s" and "st_next s \<le> st_next s'"
    and "spare s' p" and "map_val s' p = r" and "spare s p' \<Longrightarrow> spare s' p'" and "spare s p' \<Longrightarrow> map_val s' p' = map_val s p'"
    and "spare s p' \<Longrightarrow> p \<noteq> NilP \<Longrightarrow> p \<noteq> p'" and "st_hquota s' = st_hquota s" and "st_hquota s b = Some h \<Longrightarrow> map_val s' (hqt_used h) = map_val s (hqt_used h)"
proof -
  note ok = maps_okD [OF store_ok_maps [OF assms(1)]]
  have s': "r = NilP \<and> p = NilP \<and> s' = s \<or> (\<exists>es. r = Ptr es \<and> p = Ptr (st_next s) \<and>
      s' = s\<lparr>st_next := Suc (st_next s), st_map := (st_map s)(st_next s \<mapsto> es)\<rparr>)"
    using assms(2) by (cases r) (auto simp: new_map_def)
  have fresh: "st_next s \<notin> maps_of h" if "st_hquota s b = Some h" for b h
    using ok(5) [OF that, of "st_next s"] ok(1) [of "st_next s"] by auto
  show same: "st_queue s' = st_queue s" "st_mgr s' = st_mgr s" "st_next s \<le> st_next s'" "st_hquota s' = st_hquota s"
    using s' by auto
  have old: "map_val s' p' = map_val s p'" if "p' \<noteq> Ptr (st_next s)" for p'
    using that s' by (cases p') (auto simp: map_val_def)
  have val: "map_val s' (hqt_max h) = map_val s (hqt_max h)" "map_val s' (hqt_used h) = map_val s (hqt_used h)" if "st_hquota s b = Some h" for b h
    using fresh [OF that] by (auto simp: maps_of_def intro!: old)
  then show "st_hquota s b = Some h \<Longrightarrow> map_val s' (hqt_used h) = map_val s (hqt_used h)" by blast
  show quota: "st_quota s' = st_quota s"
  proof
    fix b show "st_quota s' b = st_quota s b" using val [of b] same(4) by (cases "st_hquota s b") (auto simp: st_quota_def)
  qed
  have "maps_ok s'" using store_ok_maps [OF assms(1)] s' unfolding maps_ok_def by auto
  then have "cells_ok s'" using store_okD(1) [OF assms(1)] same quota unfolding cells_ok_def by auto
  then show "store_ok s'" using assms(1) map_ok_mono [of s _ s'] same by (auto simp: store_ok_def owns_def)
  show "spare s' p" "map_val s' p = r" using s' fresh by (auto simp: spare_def map_val_def)
  have below: "p' \<noteq> Ptr (st_next s)" if "spare s p'" using that ok(1) [of "st_next s"] by (auto simp: spare_def)
  show "spare s' p'" if "spare s p'" using that s' by (auto simp: spare_def)
  show "map_val s' p' = map_val s p'" if "spare s p'" using old [OF below [OF that]] .
  show "p \<noteq> p'" if "spare s p'" "p \<noteq> NilP" using below [OF that(1)] that(2) s' by auto
qed

lemma store_ok_new_hquota:
  assumes "store_ok s" and "new_hquota h s = (b, s')" and "spare s (hqt_max h)" and "spare s (hqt_used h)"
    and "hqt_used h \<noteq> NilP" and "hqt_used h \<noteq> hqt_max h"
  shows "store_ok s'" and "b = st_next s" and "st_queue s' = st_queue s" and "st_mgr s' = st_mgr s" and "st_next s' = Suc (st_next s)"
    and "st_quota s' = (st_quota s)(b \<mapsto> \<lparr>quota_max = map_val s (hqt_max h), quota_used = map_val s (hqt_used h), quota_podsByID = hqt_podsByID h\<rparr>)"
proof -
  from assms(2) have s': "b = st_next s" "s' = s\<lparr>st_next := Suc (st_next s), st_hquota := (st_hquota s)(st_next s \<mapsto> h)\<rparr>"
    by (auto simp: new_hquota_def)
  then show "b = st_next s" and same: "st_queue s' = st_queue s" "st_mgr s' = st_mgr s" "st_next s' = Suc (st_next s)" by simp_all
  have "map_val s' = map_val s" by (rule ext) (simp add: map_val_def s'(2) cong: ptr.case_cong)
  then show quota: "st_quota s' = (st_quota s)(b \<mapsto> \<lparr>quota_max = map_val s (hqt_max h), quota_used = map_val s (hqt_used h), quota_podsByID = hqt_podsByID h\<rparr>)"
    by (simp add: st_quota_def fun_eq_iff s')
  have "maps_ok s'"
    unfolding maps_ok_def
  proof (intro conjI allI impI)
    note ok = maps_okD [OF store_ok_maps [OF assms(1)]]
    have new: "st_map s c \<noteq> None \<and> (\<forall>b' h'. st_hquota s b' = Some h' \<longrightarrow> c \<notin> maps_of h')" if "c \<in> maps_of h" for c
      using that assms(3,4) unfolding spare_def maps_of_def [of h] by blast
    show "st_map s' a = None" "st_hquota s' a = None" if "st_next s' \<le> a" for a
      using that ok(1,2) [of a] s' by auto
    fix b' h' assume h': "st_hquota s' b' = Some h'"
    have h'_cases: "b' = b \<and> h' = h \<or> st_hquota s b' = Some h'" using h' s' by (auto split: if_splits)
    show "hqt_used h' \<noteq> NilP" "hqt_used h' \<noteq> hqt_max h'" using h'_cases ok(3,4) [of b' h'] assms(5,6) by auto
    show "\<forall>c \<in> maps_of h'. st_map s' c \<noteq> None" using new h'_cases ok(5) [of b' h'] s'(2) by auto
    fix b'' h'' c assume "st_hquota s' b'' = Some h''" "c \<in> maps_of h'" "c \<in> maps_of h''"
    then show "b' = b''" using h' ok(6) [of b' h' b'' h'' c] new s' by (auto split: if_splits)
  qed
  then have "cells_ok s'" using store_okD(1) [OF assms(1)] quota same s'(1) unfolding cells_ok_def by (auto, fastforce)
  then show "store_ok s'" using assms(1) map_ok_mono [of s _ s'] by (auto simp: store_ok_def owns_def s'(2))
qed

lemma store_ok_new_queue:
  assumes "store_ok s" and "new_queue q s = (a, s')" and "hq_quota q = Ptr b" and "st_quota s b = Some v"
    and "\<And>a' q'. st_queue s a' = Some q' \<Longrightarrow> hq_quota q' \<noteq> Ptr b"
  shows "store_ok s'" and "a = st_next s" and "st_queue s' = (st_queue s)(a \<mapsto> q)" and "st_quota s' = st_quota s" and "st_mgr s' = st_mgr s"
    and "st_next s' = Suc (st_next s)"
proof -
  from assms(2) have s': "a = st_next s" "s' = s\<lparr>st_next := Suc (st_next s), st_queue := (st_queue s)(st_next s \<mapsto> q)\<rparr>"
    by (auto simp: new_queue_def)
  show quota: "st_quota s' = st_quota s" by (rule st_quota_cong) (simp_all add: s')
  have "maps_ok s'" by (rule maps_ok_cong [of _ s]) (simp_all add: s' store_ok_maps [OF assms(1)])
  then have "cells_ok s'"
    using store_okD(1) [OF assms(1)] assms(3-5) quota unfolding cells_ok_def s'(2) by (auto split: if_splits) metis+
  moreover have "map_ok s M \<Longrightarrow> map_ok s' M" for M
    by (erule map_ok_mono) (auto simp: s'(2))
  ultimately show "store_ok s'" using assms(1) by (auto simp: store_ok_def owns_def s'(2))
qed (use assms(2) in \<open>auto simp: new_queue_def\<close>)

text \<open>A quota of its own maps and a queue of its own quota, allocated together.\<close>

lemma store_ok_new_cells:
  assumes "store_ok s" and "new_hquota h s = (b, s1)" and "spare s (hqt_max h)" and "spare s (hqt_used h)"
    and "hqt_used h \<noteq> NilP" and "hqt_used h \<noteq> hqt_max h" and "new_queue q s1 = (a, s')" and "hq_quota q = Ptr b"
  defines "v \<equiv> \<lparr>quota_max = map_val s (hqt_max h), quota_used = map_val s (hqt_used h), quota_podsByID = hqt_podsByID h\<rparr>"
  shows "store_ok s'" and "extends s s'" and "st_mgr s' = st_mgr s" and "st_next s \<le> a" and "st_queue s' = (st_queue s)(a \<mapsto> q)"
    and "st_quota s' = (st_quota s)(b \<mapsto> v)" and "st_next s \<le> b"
proof -
  note q1 = store_ok_new_hquota [OF assms(1-6), folded v_def]
  have "hq_quota q' \<noteq> Ptr b" if "st_queue s1 a' = Some q'" for a' q'
    using that q1(2,3) cells_okD(1,4) [OF store_okD(1) [OF assms(1)]] by fastforce
  then have q2: "store_ok s'" "a = st_next s1" "st_queue s' = (st_queue s1)(a \<mapsto> q)" "st_quota s' = st_quota s1" "st_mgr s' = st_mgr s1"
      "st_next s' = Suc (st_next s1)"
    using store_ok_new_queue [OF q1(1) assms(7,8), of v] q1(6) by simp_all
  show "store_ok s'" "st_mgr s' = st_mgr s" "st_next s \<le> a" "st_queue s' = (st_queue s)(a \<mapsto> q)" "st_quota s' = (st_quota s)(b \<mapsto> v)" "st_next s \<le> b"
    using q1 q2 by simp_all
  show "extends s s'" using q1 q2 by (auto simp: extends_def)
qed

text \<open>A cell a manager does not own yet may be put under any name of it.\<close>

lemma store_ok_put:
  assumes "store_ok s" and "st_mgr s m = Some M" and "gm_set M n (Ptr a) = Some M'"
    and "st_queue s a = Some q" and "\<And>m' n'. \<not> owns s m' n' a"
  shows "store_ok (set_mgr m M' s)"
proof -
  have "m < st_next s" using cells_okD(3) [OF store_okD(1) [OF assms(1)]] assms(2) by (metis not_le option.distinct(1))
  moreover have "maps_ok (set_mgr m M' s)" using maps_ok_set_simps store_ok_maps [OF assms(1)] by blast
  ultimately have "cells_ok (set_mgr m M' s)"
    using store_okD(1) [OF assms(1)] by (auto simp: cells_ok_def)
  moreover have "map_ok s M" using store_okD(2) [OF assms(1,2)] .
  then have "map_ok s M'"
    using assms(3,4) by (auto simp: map_ok_def gm_get_set gm_wf_set gm_set_not_nil)
  then have "map_ok (set_mgr m M' s) M''" if "st_mgr (set_mgr m M' s) m'' = Some M''" for m'' M''
    using that store_okD(2) [OF assms(1)] by (auto simp: set_mgr_def map_ok_def split: if_splits)
  moreover have "owns (set_mgr m M' s) m' n' a' \<longleftrightarrow>
      (if m' = m \<and> n' = n then a' = a else owns s m' n' a')" for m' n' a'
    using assms(2,3) by (auto simp: owns_def set_mgr_def gm_get_set)
  ultimately show ?thesis
    using store_okD(3) [OF assms(1)] assms(5) by (auto simp: store_ok_def split: if_splits)
qed

lemma store_ok_delete:
  assumes "store_ok s" and "st_mgr s m = Some M"
  shows "store_ok (set_mgr m (gm_delete M n) s)"
proof -
  have "m < st_next s" using cells_okD(3) [OF store_okD(1) [OF assms(1)]] assms(2) by (metis not_le option.distinct(1))
  moreover have "maps_ok (set_mgr m (gm_delete M n) s)" using maps_ok_set_simps store_ok_maps [OF assms(1)] by blast
  ultimately have "cells_ok (set_mgr m (gm_delete M n) s)"
    using store_okD(1) [OF assms(1)] by (auto simp: cells_ok_def)
  moreover have "map_ok s (gm_delete M n)"
    using store_okD(2) [OF assms] by (auto simp: map_ok_def gm_get_delete gm_wf_delete split: if_splits)
  then have "map_ok (set_mgr m (gm_delete M n) s) M''" if "st_mgr (set_mgr m (gm_delete M n) s) m'' = Some M''" for m'' M''
    using that store_okD(2) [OF assms(1)] by (auto simp: set_mgr_def map_ok_def split: if_splits)
  moreover have "owns (set_mgr m (gm_delete M n) s) m' n' a' \<Longrightarrow> owns s m' n' a'" for m' n' a'
    using assms(2) by (auto simp: owns_def set_mgr_def gm_get_delete split: if_splits)
  ultimately show ?thesis
    using store_okD(3) [OF assms(1)] unfolding store_ok_def by blast
qed

lemma store_ok_new_mgr:
  assumes "store_ok s" and "new_mgr M s = (m, s')" and "map_ok s M"
    and "\<And>m' n n' a. gm_get M n = Some (Ptr a) \<Longrightarrow> \<not> owns s m' n' a"
    and "\<And>n n' a. gm_get M n = Some (Ptr a) \<Longrightarrow> gm_get M n' = Some (Ptr a) \<Longrightarrow> n = n'"
  shows "store_ok s'" and "m = st_next s" and "st_mgr s' = (st_mgr s)(m \<mapsto> M)" and "st_queue s' = st_queue s" and "st_quota s' = st_quota s"
proof -
  from assms(2) have s': "m = st_next s" "s' = s\<lparr>st_next := Suc (st_next s), st_mgr := (st_mgr s)(st_next s \<mapsto> M)\<rparr>"
    by (auto simp: new_mgr_def)
  show quota: "st_quota s' = st_quota s" by (rule st_quota_cong) (simp_all add: s')
  have "maps_ok s'" by (rule maps_ok_cong [of _ s]) (simp_all add: s' store_ok_maps [OF assms(1)])
  then have "cells_ok s'" using store_okD(1) [OF assms(1)] quota by (auto simp: cells_ok_def s'(2))
  moreover have "map_ok s' M''" if "st_mgr s' m'' = Some M''" for m'' M''
    using that store_okD(2) [OF assms(1)] assms(3) by (auto simp: s'(2) map_ok_def split: if_splits)
  moreover have "owns s' m' n a \<longleftrightarrow> (if m' = m then gm_get M n = Some (Ptr a) else owns s m' n a)" for m' n a
    by (auto simp: owns_def s')
  ultimately show "store_ok s'"
    using store_okD(3) [OF assms(1)] assms(4,5) by (auto simp: store_ok_def split: if_splits)
qed (use assms(2) in \<open>auto simp: new_mgr_def\<close>)

section \<open>Reading after writing\<close>

lemma quota_val_simps [simp]:
  "quota_val s NilP = NilP" "st_quota s b = Some v \<Longrightarrow> quota_val s (Ptr b) = Ptr v"
  by (simp_all add: quota_val_def)

lemma queue_val_nil [simp]: "queue_val s NilP = NilP"
  by (simp add: queue_val_def)

lemma queue_val_cell:
  "st_queue s a = Some q \<Longrightarrow> queue_val s (Ptr a) = Ptr \<lparr>queue_name = hq_name q,
     queue_quota = quota_val s (hq_quota q), queue_labels = hq_labels q, queue_preemptionCfg = hq_preemptionCfg q\<rparr>"
  by (simp add: queue_val_def)

text \<open>Reading a queue looks at its own cell and at its quota's.\<close>

lemma queue_val_agree:
  assumes "st_queue s' a = st_queue s a"
    and "\<And>q b. st_queue s a = Some q \<Longrightarrow> hq_quota q = Ptr b \<Longrightarrow> st_quota s' b = st_quota s b"
  shows "queue_val s' (Ptr a) = queue_val s (Ptr a)"
  using assms by (auto simp: queue_val_def quota_val_def split: option.split ptr.split)

lemma mgr_val_map:
  "st_mgr s m = Some (Ptr es) \<Longrightarrow> mgr_val s m = \<lparr>mgr_queueByName = Ptr (map (\<lambda>(n, p). (n, queue_val s p)) es)\<rparr>"
  by (simp add: mgr_val_def)

lemma GetByName_val:
  assumes "st_mgr s m = Some M"
  shows "Manager_GetByName (mgr_val s m) n = (case gm_get M n of None \<Rightarrow> NilP | Some p \<Rightarrow> queue_val s p)"
  using assms by (cases M) (simp_all add: mgr_val_def Manager_GetByName_def map_of_map_values split: option.split)

lemma GetByName_owned:
  assumes "owns s m n a" shows "Manager_GetByName (mgr_val s m) n = queue_val s (Ptr a)"
  using assms GetByName_val by (fastforce simp: owns_def)

text \<open>
  One queue changes and the maps of the managers stay: the manager that owns it reads as if the
  new queue had been stored under its name, and the others read as before.
\<close>

lemma map_ok_Ptr:
  assumes "map_ok s M" obtains es where "M = Ptr es" "distinct (map fst es)"
  using assms by (cases M) (auto simp: map_ok_def gm_wf_Ptr)

lemma mgr_val_owned:
  assumes "store_ok s" and "owns s m n a" and "st_mgr s' = st_mgr s"
    and "\<And>a'. a' \<noteq> a \<Longrightarrow> queue_val s' (Ptr a') = queue_val s (Ptr a')"
  shows "mgr_store n (queue_val s' (Ptr a)) (mgr_val s m) = Some (mgr_val s' m)"
proof -
  from assms(2) obtain M where M: "st_mgr s m = Some M" "gm_get M n = Some (Ptr a)" by (auto simp: owns_def)
  from map_ok_Ptr [OF store_okD(2) [OF assms(1) M(1)]] obtain es where
    es: "M = Ptr es" "distinct (map fst es)" by metis
  have "queue_val s' p' = queue_val s p'" if "map_of es n' = Some p'" "n' \<noteq> n" for n' p'
  proof -
    from that(1) M(1) es have "p' = Ptr a' \<Longrightarrow> owns s m n' a'" for a' by (simp add: owns_def)
    moreover have "a' \<noteq> a" if "owns s m n' a'" for a'
      using that \<open>n' \<noteq> n\<close> store_okD(3) [OF assms(1) that] assms(2) by blast
    ultimately show ?thesis using assms(4) by (cases p') auto
  qed
  from map_update_cell [OF es(2) _ this] M(2) es(1)
  have "map (\<lambda>(n, p). (n, queue_val s' p)) es =
      AList.update n (queue_val s' (Ptr a)) (map (\<lambda>(n, p). (n, queue_val s p)) es)" by simp
  then show ?thesis using M(1) es(1) assms(3) by (simp add: mgr_val_def mgr_store_def)
qed

lemma mgr_val_frame:
  assumes "st_mgr s' m = st_mgr s m" and "\<And>n a. owns s m n a \<Longrightarrow> queue_val s' (Ptr a) = queue_val s (Ptr a)"
    and "\<And>M. st_mgr s m = Some M \<Longrightarrow> gm_wf M"
  shows "mgr_val s' m = mgr_val s m"
proof (cases "st_mgr s m")
  case (Some M)
  show ?thesis
  proof (cases M)
    case (Ptr es)
    have "queue_val s' p = queue_val s p" if "(n, p) \<in> set es" for n p
    proof (cases p)
      case (Ptr a)
      have "map_of es n = Some p" using that assms(3) [OF Some] \<open>M = Ptr es\<close> by (simp add: gm_wf_Ptr)
      then show ?thesis using assms(2) [of n a] Some \<open>M = Ptr es\<close> Ptr by (simp add: owns_def)
    qed simp
    then show ?thesis using Some Ptr assms(1) by (auto simp: mgr_val_def)
  qed (use Some assms(1) in \<open>simp add: mgr_val_def\<close>)
qed (use assms(1) in \<open>simp add: mgr_val_def\<close>)

lemma mgr_val_others:
  assumes "store_ok s" and "st_mgr s' m' = st_mgr s m'" and "\<And>n. \<not> owns s m' n a"
    and "\<And>a'. a' \<noteq> a \<Longrightarrow> queue_val s' (Ptr a') = queue_val s (Ptr a')"
  shows "mgr_val s' m' = mgr_val s m'"
proof (rule mgr_val_frame [OF assms(2)])
  show "queue_val s' (Ptr a') = queue_val s (Ptr a')" if "owns s m' n a'" for n a'
    using that assms(3,4) by metis
  show "gm_wf M" if "st_mgr s m' = Some M" for M
    using store_okD(2) [OF assms(1) that] by (simp add: map_ok_def)
qed

lemma mgr_val_same:
  assumes "store_ok s" and "st_mgr s' m' = st_mgr s m'"
    and "\<And>a q. st_queue s a = Some q \<Longrightarrow> queue_val s' (Ptr a) = queue_val s (Ptr a)"
  shows "mgr_val s' m' = mgr_val s m'"
proof (rule mgr_val_frame [OF assms(2)])
  show "queue_val s' (Ptr a) = queue_val s (Ptr a)" if "owns s m' n a" for n a
    using that assms(3) store_okD(2) [OF assms(1)] by (fastforce simp: owns_def map_ok_def)
  show "gm_wf M" if "st_mgr s m' = Some M" for M
    using store_okD(2) [OF assms(1) that] by (simp add: map_ok_def)
qed

lemma mgr_val_set_mgr:
  assumes "st_mgr s m = Some M"
  shows "gm_set M n p = Some M' \<Longrightarrow> mgr_store n (queue_val s p) (mgr_val s m) = Some (mgr_val (set_mgr m M' s) m)"
    and "mgr_val (set_mgr m (gm_delete M n) s) m = Manager_Delete n (mgr_val s m)"
    and "m' \<noteq> m \<Longrightarrow> mgr_val (set_mgr m M'' s) m' = mgr_val s m'"
proof -
  have val: "queue_val (set_mgr m N s) = queue_val s" for N
    by (rule ext) (simp add: queue_val_def quota_val_def split: ptr.split option.split)
  have upd: "map (\<lambda>(n, p). (n, f p)) (AList.update n p es) = AList.update n (f p) (map (\<lambda>(n, p). (n, f p)) es)" for f :: "'x \<Rightarrow> 'y" and p es
    by (induction es) auto
  have del: "map (\<lambda>(n, p). (n, f p)) (AList.delete n es) = AList.delete n (map (\<lambda>(n, p). (n, f p)) es)" for f :: "'x \<Rightarrow> 'y" and es
    by (induction es) (auto simp: AList.delete_eq)
  show "mgr_store n (queue_val s p) (mgr_val s m) = Some (mgr_val (set_mgr m M' s) m)" if "gm_set M n p = Some M'"
    using that assms by (auto simp: mgr_val_def val gm_set_eq_Some mgr_store_def upd)
  show "mgr_val (set_mgr m (gm_delete M n) s) m = Manager_Delete n (mgr_val s m)"
    using assms by (cases M) (simp_all add: mgr_val_def val Manager_Delete_def del)
  show "mgr_val (set_mgr m M'' s) m' = mgr_val s m'" if "m' \<noteq> m"
    using that by (simp add: mgr_val_def val split: option.split ptr.split)
qed

end
