(* ===== verification/StoreRefine.thy ===== *)
theory StoreRefine
  imports Store
begin

text \<open>
  The operations on cells refine the operations on values: whatever is done through pointers to
  the queues and quotas of one manager reads as the operation of \<^verbatim>\<open>Manager\<close> on its value, and leaves
  every other manager's value alone. With it the snapshot \<^verbatim>\<open>Clone\<close> makes is a copy that shares
  nothing with the manager it was taken from.
\<close>

section \<open>Refinement\<close>

text \<open>The methods of \<^verbatim>\<open>Resources\<close> that mutate a map leave a map that is not nil one that is not nil.\<close>

lemma for_each_not_nil:
  assumes "for_each f xs r = Some r'" and "r \<noteq> NilP" and "\<And>x r r'. f x r = Some r' \<Longrightarrow> r' \<noteq> NilP"
  shows "r' \<noteq> NilP"
  using assms by (induction xs arbitrary: r) (auto split: bind_splits)

lemma Resources_mutate_not_nil:
  "Resources_Add K r other = Some r' \<Longrightarrow> r \<noteq> NilP \<Longrightarrow> r' \<noteq> NilP"
  "Resources_Sub K r other = Some r' \<Longrightarrow> r \<noteq> NilP \<Longrightarrow> r' \<noteq> NilP"
proof -
  have "add_entry K x r = Some r' \<Longrightarrow> r' \<noteq> NilP" "sub_entry K x r = Some r' \<Longrightarrow> r' \<noteq> NilP" for x r r'
    by (cases x; auto simp: gm_set_eq_Some split: option.splits)+
  then show "Resources_Add K r other = Some r' \<Longrightarrow> r \<noteq> NilP \<Longrightarrow> r' \<noteq> NilP"
    "Resources_Sub K r other = Some r' \<Longrightarrow> r \<noteq> NilP \<Longrightarrow> r' \<noteq> NilP"
    using for_each_not_nil [of "add_entry K" _ r r'] for_each_not_nil [of "sub_entry K" _ r r']
    by (auto simp: Resources_Add_def Resources_Sub_def split: ptr.splits)
qed

text \<open>
  A pod counted or released through a quota's pointer, in the map its \<^verbatim>\<open>used\<close> leads to, is the pod counted or
  released in the quota's value, and both panic together.
\<close>

lemma h_map_update_used:
  assumes "maps_ok s" and "st_hquota s b = Some h" and "\<And>r r'. f r = Some r' \<Longrightarrow> r \<noteq> NilP \<Longrightarrow> r' \<noteq> NilP"
  shows "rel_option (\<lambda>r s'. wrote b \<lparr>quota_max = map_val s (hqt_max h), quota_used = r, quota_podsByID = pods\<rparr> s s')
    (f (map_val s (hqt_used h))) (h_map_update f (hqt_used h) (set_hquota b (h\<lparr>hqt_podsByID := pods\<rparr>) s))"
proof -
  from maps_okD(3) [OF assms(1,2)] obtain c es where c: "hqt_used h = Ptr c" "st_map s c = Some es" by blast
  then have "map_val s (hqt_used h) = Ptr es" by (simp add: map_val_def)
  moreover have "r = Ptr (gm_entries r)" if "f (Ptr es) = Some r" for r
    using assms(3) [OF that] by (cases r) auto
  ultimately show ?thesis
    using c wrote_used [OF assms(1,2) c(1), of _ pods]
    by (cases "f (Ptr es)") (auto simp: h_map_update_def, metis)
qed

lemma bind_Some_map: "do { x \<leftarrow> m; Some (f x) } = map_option f m"
  by (cases m) simp_all

lemma h_quota_pod_refines:
  assumes "maps_ok s" and "st_quota s b = Some v"
  shows "rel_option (\<lambda>v' s'. wrote b v' s s') (quota_add_pod K pod v) (h_quota_add_pod K b pod s)"
    and "rel_option (\<lambda>v' s'. wrote b v' s s') (quota_del_pod K pod v) (h_quota_del_pod K b pod s)"
proof -
  from st_quota_hquota [OF assms(2)] obtain h where h: "st_hquota s b = Some h"
    "v = \<lparr>quota_max = map_val s (hqt_max h), quota_used = map_val s (hqt_used h), quota_podsByID = hqt_podsByID h\<rparr>" by blast
  note same = wrote_refl [OF assms]
  have add: "rel_option (\<lambda>r s'. wrote b \<lparr>quota_max = map_val s (hqt_max h), quota_used = r, quota_podsByID = pods\<rparr> s s')
      (Resources_Add K (map_val s (hqt_used h)) req) (h_Resources_Add K (hqt_used h) req (set_hquota b (h\<lparr>hqt_podsByID := pods\<rparr>) s))"
    and sub: "rel_option (\<lambda>r s'. wrote b \<lparr>quota_max = map_val s (hqt_max h), quota_used = r, quota_podsByID = pods\<rparr> s s')
      (Resources_Sub K (map_val s (hqt_used h)) req) (h_Resources_Sub K (hqt_used h) req (set_hquota b (h\<lparr>hqt_podsByID := pods\<rparr>) s))" for req pods
    unfolding h_Resources_Add_def h_Resources_Sub_def
    using Resources_mutate_not_nil by (intro h_map_update_used [OF assms(1) h(1)]; blast)+
  show "rel_option (\<lambda>v' s'. wrote b v' s s') (quota_add_pod K pod v) (h_quota_add_pod K b pod s)"
  proof (cases pod)
    case (Ptr p)
    then show ?thesis using h same add [where pods = "imm_Set K (hqt_podsByID h) (pod_uid p) pod"]
      by (cases "FromPodReq K pod"; cases "imm_Get K (hqt_podsByID h) (pod_uid p)")
        (simp_all add: quota_add_pod_def h_quota_add_pod_def bind_Some_map option.rel_map)
  qed (use same in \<open>simp add: quota_add_pod_def h_quota_add_pod_def\<close>)
  show "rel_option (\<lambda>v' s'. wrote b v' s s') (quota_del_pod K pod v) (h_quota_del_pod K b pod s)"
  proof (cases pod)
    case (Ptr p)
    then show ?thesis using h same sub [where pods = "imm_Delete K (hqt_podsByID h) (pod_uid p)"]
      by (cases "FromPodReq K pod"; cases "imm_Get K (hqt_podsByID h) (pod_uid p)")
        (simp_all add: quota_del_pod_def h_quota_del_pod_def bind_Some_map option.rel_map)
  qed (use same in \<open>simp add: quota_del_pod_def h_quota_del_pod_def\<close>)
qed

lemma for_each_wrote:
  assumes "\<And>x v s. maps_ok s \<Longrightarrow> st_quota s b = Some v \<Longrightarrow> rel_option (\<lambda>v' s'. wrote b v' s s') (f x v) (g x s)"
    and "maps_ok s" and "st_quota s b = Some v"
  shows "rel_option (\<lambda>v' s'. wrote b v' s s') (for_each f xs v) (for_each g xs s)"
  using assms(2,3)
proof (induction xs arbitrary: v s)
  case Nil
  then show ?case by (simp add: wrote_refl)
next
  case (Cons x xs)
  show ?case
  proof (cases "f x v")
    case None
    then show ?thesis using assms(1) [OF Cons.prems, of x] by simp
  next
    case (Some v1)
    with assms(1) [OF Cons.prems, of x] obtain s1 where s1: "g x s = Some s1" "wrote b v1 s s1" by (auto simp: option_rel_Some1)
    with Cons.IH [of s1 v1] have "rel_option (\<lambda>v' s'. wrote b v' s1 s') (for_each f xs v1) (for_each g xs s1)"
      by (simp add: wrote_def)
    then show ?thesis using Some s1 wrote_trans [OF s1(2)] by (auto elim!: option.rel_mono_strong)
  qed
qed

lemma h_Quota_pods_refine:
  assumes "maps_ok s" and "st_quota s b = Some v"
  shows "rel_option (\<lambda>r s'. \<exists>v'. r = Ptr v' \<and> wrote b v' s s') (Quota_AddPodIfNotPresent K (Ptr v) pods) (h_Quota_AddPodIfNotPresent K (Ptr b) pods s)"
    and "rel_option (\<lambda>r s'. \<exists>v'. r = Ptr v' \<and> wrote b v' s s') (Quota_DeletePodIfPresent K (Ptr v) pods) (h_Quota_DeletePodIfPresent K (Ptr b) pods s)"
  using for_each_wrote [of b "quota_add_pod K" "h_quota_add_pod K b", OF h_quota_pod_refines(1) assms, of pods]
    for_each_wrote [of b "quota_del_pod K" "h_quota_del_pod K b", OF h_quota_pod_refines(2) assms, of pods] wrote_refl [OF assms]
  by (auto simp: Quota_AddPodIfNotPresent_def h_Quota_AddPodIfNotPresent_def Quota_DeletePodIfPresent_def h_Quota_DeletePodIfPresent_def
      option.rel_sel split: bind_splits)

text \<open>
  Writing to the quota of a queue: the manager that owns the queue reads as after storing the queue
  with the new quota, a manager that does not own it as before.
\<close>

lemma queue_val_wrote:
  assumes "store_ok s" and "st_queue s a = Some q" and "hq_quota q = Ptr b" and "wrote b v s s'"
  shows "queue_val s' (Ptr a) = Ptr \<lparr>queue_name = hq_name q, queue_quota = Ptr v,
      queue_labels = hq_labels q, queue_preemptionCfg = hq_preemptionCfg q\<rparr>"
    and "a' \<noteq> a \<Longrightarrow> queue_val s' (Ptr a') = queue_val s (Ptr a')"
proof -
  note w = wroteD [OF assms(4)]
  show "queue_val s' (Ptr a) = Ptr \<lparr>queue_name = hq_name q, queue_quota = Ptr v,
      queue_labels = hq_labels q, queue_preemptionCfg = hq_preemptionCfg q\<rparr>"
    using assms(2,3) w(2,3) by (simp add: queue_val_cell)
  assume "a' \<noteq> a"
  then show "queue_val s' (Ptr a') = queue_val s (Ptr a')"
    using cells_okD(5) [OF store_okD(1) [OF assms(1)] assms(2)] assms(3) w(2,3)
    by (intro queue_val_agree) auto
qed

lemma mgr_val_wrote:
  assumes "store_ok s" and "st_queue s a = Some q" and "hq_quota q = Ptr b" and "wrote b v s s'"
  shows "owns s m n a \<Longrightarrow> mgr_store n (Ptr \<lparr>queue_name = hq_name q, queue_quota = Ptr v,
      queue_labels = hq_labels q, queue_preemptionCfg = hq_preemptionCfg q\<rparr>) (mgr_val s m) = Some (mgr_val s' m)"
    and "(\<And>n. \<not> owns s m n a) \<Longrightarrow> mgr_val s' m = mgr_val s m"
  using mgr_val_owned [OF assms(1), of m n a s'] mgr_val_others [OF assms(1), of s' m a]
    queue_val_wrote [OF assms] wroteD(4) [OF assms(4)] by simp_all

text \<open>What a pod operation has to know of the pointer \<^verbatim>\<open>GetByName\<close> gave it.\<close>

lemma h_GetByName_result:
  assumes "store_ok s" and "st_mgr s m = Some M"
  shows "(\<exists>a q b v. h_GetByName m n s = Some (Ptr a) \<and> owns s m n a \<and> st_queue s a = Some q \<and> hq_quota q = Ptr b \<and>
      st_quota s b = Some v) \<or>
    h_GetByName m n s = Some NilP \<and> Manager_GetByName (mgr_val s m) n = NilP \<and> (\<forall>a. \<not> owns s m n a)"
proof (cases "gm_get M n")
  case None
  then show ?thesis using assms(2) GetByName_val [OF assms(2), of n] by (simp add: h_GetByName_def owns_def)
next
  case (Some p)
  from map_ok_get [OF store_okD(2) [OF assms] Some] obtain a q where "p = Ptr a" "st_queue s a = Some q" .
  moreover from store_ok_queue [OF assms(1) this(2)] obtain b v where "hq_quota q = Ptr b" "st_quota s b = Some v" .
  ultimately show ?thesis using Some assms(2) by (auto simp: h_GetByName_def owns_def)
qed

lemma quota_pods_result:
  "Quota_AddPodIfNotPresent K (Ptr v) ps = Some r \<Longrightarrow> \<exists>v'. r = Ptr v'"
  "Quota_DeletePodIfPresent K (Ptr v) ps = Some r \<Longrightarrow> \<exists>v'. r = Ptr v'"
  by (auto simp: Quota_AddPodIfNotPresent_def Quota_DeletePodIfPresent_def split: if_splits bind_splits)

text \<open>The cell behind a name, and the section that writes to its quota.\<close>

definition at_cell :: "('q, 's, 'm) store \<Rightarrow> addr \<Rightarrow> string \<Rightarrow> addr \<Rightarrow> 's hqueue \<Rightarrow> addr \<Rightarrow> ('q, 'm) quota \<Rightarrow> bool" where
  "at_cell s m n a q b v \<longleftrightarrow> owns s m n a \<and> st_queue s a = Some q \<and> hq_quota q = Ptr b \<and> st_quota s b = Some v"

lemma at_cell_read:
  assumes "at_cell s m n a q b v"
  shows "h_GetByName m n s = Some (Ptr a)" and "h_Queue_Quota (Ptr a) s = Some (Ptr b)"
    and "Manager_GetByName (mgr_val s m) n = Ptr \<lparr>queue_name = hq_name q, queue_quota = Ptr v,
      queue_labels = hq_labels q, queue_preemptionCfg = hq_preemptionCfg q\<rparr>"
  using assms GetByName_owned [of s m n a]
  by (auto simp: at_cell_def owns_def h_GetByName_def h_Queue_Quota_def queue_val_cell)

lemma at_cell_write:
  assumes "store_ok s" and "at_cell s m n a q b v" and "wrote b v' s s'"
  shows "store_ok s'"
    and "mgr_store n (Ptr \<lparr>queue_name = hq_name q, queue_quota = Ptr v', queue_labels = hq_labels q,
      queue_preemptionCfg = hq_preemptionCfg q\<rparr>) (mgr_val s m) = Some (mgr_val s' m)"
    and "m' \<noteq> m \<Longrightarrow> mgr_val s' m' = mgr_val s m'"
proof -
  from assms(2) have c: "owns s m n a" "st_queue s a = Some q" "hq_quota q = Ptr b" "st_quota s b = Some v"
    by (simp_all add: at_cell_def)
  show "store_ok s'" using store_ok_wrote [OF assms(1,3)] .
  show "mgr_store n (Ptr \<lparr>queue_name = hq_name q, queue_quota = Ptr v', queue_labels = hq_labels q,
      queue_preemptionCfg = hq_preemptionCfg q\<rparr>) (mgr_val s m) = Some (mgr_val s' m)"
    using mgr_val_wrote(1) [OF assms(1) c(2,3) assms(3) c(1)] .
  assume "m' \<noteq> m"
  then show "mgr_val s' m' = mgr_val s m'"
    using store_okD(3) [OF assms(1) c(1)] by (intro mgr_val_wrote(2) [OF assms(1) c(2,3) assms(3)]) blast
qed

lemma at_cell_cases:
  assumes "store_ok s" and "st_mgr s m = Some M"
  obtains a q b v where "at_cell s m n a q b v"
  | "h_GetByName m n s = Some NilP" "Manager_GetByName (mgr_val s m) n = NilP" "\<And>a. \<not> owns s m n a"
  using h_GetByName_result [OF assms, of n] by (auto simp: at_cell_def)

lemma h_AddPod_refines:
  assumes "store_ok s" and "st_mgr s m = Some M" and "Manager_AddPodIfNotPresent K pod (mgr_val s m) = Some (qm', err)"
  shows "\<exists>s'. h_Manager_AddPodIfNotPresent K m pod s = Some (s', err) \<and> store_ok s' \<and> mgr_val s' m = qm' \<and>
    st_mgr s' = st_mgr s \<and> (\<forall>m'. m' \<noteq> m \<longrightarrow> mgr_val s' m' = mgr_val s m')"
proof (cases "\<exists>p n. pod = Ptr p \<and> gm_get (pod_labels p) LabelKeyQueue = Some n")
  case False
  with assms show ?thesis
    by (auto simp: h_Manager_AddPodIfNotPresent_def Manager_AddPodIfNotPresent_def split: ptr.splits option.splits)
next
  case True
  then obtain p n where pn: "pod = Ptr p" "gm_get (pod_labels p) LabelKeyQueue = Some n" by blast
  from at_cell_cases [OF assms(1,2), of n] show ?thesis
  proof cases
    case (1 a q b v)
    note rd = at_cell_read [OF 1] and refine = h_Quota_pods_refine(1) [OF store_ok_maps [OF assms(1)], of b v K "[pod]"]
    from assms(3) pn rd(3) obtain v' where v': "Quota_AddPodIfNotPresent K (Ptr v) [pod] = Some (Ptr v')"
      by (auto simp: Manager_AddPodIfNotPresent_def split: bind_splits dest: quota_pods_result)
    with refine 1 obtain s' where s': "h_Quota_AddPodIfNotPresent K (Ptr b) [pod] s = Some s'" "wrote b v' s s'"
      by (auto simp: at_cell_def option_rel_Some1)
    note wr = at_cell_write [OF assms(1) 1 s'(2)]
    have "mgr_val s' m = qm'" "err = None"
      using assms(3) pn rd(3) v' wr(2) by (auto simp: Manager_AddPodIfNotPresent_def split: bind_splits)
    with wr rd s' pn wroteD(4) [OF s'(2)] show ?thesis
      by (simp add: h_Manager_AddPodIfNotPresent_def)
  qed (use assms pn in \<open>auto simp: h_Manager_AddPodIfNotPresent_def Manager_AddPodIfNotPresent_def\<close>)
qed

lemma h_DeletePod_refines:
  assumes "store_ok s" and "st_mgr s m = Some M" and "Manager_DeletePodIfPresent K pod (mgr_val s m) = Some (qm', err)"
  shows "\<exists>s'. h_Manager_DeletePodIfPresent K m pod s = Some (s', err) \<and> store_ok s' \<and> mgr_val s' m = qm' \<and>
    st_mgr s' = st_mgr s \<and> (\<forall>m'. m' \<noteq> m \<longrightarrow> mgr_val s' m' = mgr_val s m')"
proof (cases "\<exists>p n. pod = Ptr p \<and> gm_get (pod_labels p) LabelKeyQueue = Some n")
  case False
  with assms show ?thesis
    by (auto simp: h_Manager_DeletePodIfPresent_def Manager_DeletePodIfPresent_def split: ptr.splits option.splits)
next
  case True
  then obtain p n where pn: "pod = Ptr p" "gm_get (pod_labels p) LabelKeyQueue = Some n" by blast
  from at_cell_cases [OF assms(1,2), of n] show ?thesis
  proof cases
    case (1 a q b v)
    note rd = at_cell_read [OF 1] and refine = h_Quota_pods_refine(2) [OF store_ok_maps [OF assms(1)], of b v K "[pod]"]
    from assms(3) pn rd(3) obtain v' where v': "Quota_DeletePodIfPresent K (Ptr v) [pod] = Some (Ptr v')"
      by (auto simp: Manager_DeletePodIfPresent_def split: bind_splits dest: quota_pods_result)
    with refine 1 obtain s' where s': "h_Quota_DeletePodIfPresent K (Ptr b) [pod] s = Some s'" "wrote b v' s s'"
      by (auto simp: at_cell_def option_rel_Some1)
    note wr = at_cell_write [OF assms(1) 1 s'(2)]
    have "mgr_val s' m = qm'" "err = None"
      using assms(3) pn rd(3) v' wr(2) by (auto simp: Manager_DeletePodIfPresent_def split: bind_splits)
    with wr rd s' pn wroteD(4) [OF s'(2)] show ?thesis
      by (simp add: h_Manager_DeletePodIfPresent_def)
  qed (use assms pn in \<open>auto simp: h_Manager_DeletePodIfPresent_def Manager_DeletePodIfPresent_def\<close>)
qed

text \<open>
  The options the synchronizer passes, on cells. It makes the map of the maximum for this one call
  (\<^verbatim>\<open>FromResourceList\<close>) and keeps no pointer to it: \<open>with_max\<close>.
\<close>

definition with_max :: "'q resources \<Rightarrow> (addr ptr \<Rightarrow> ('q, 's, 'm) store \<Rightarrow> 'a) \<Rightarrow> ('q, 's, 'm) store \<Rightarrow> 'a" where
  "with_max mx f s = (case new_map mx s of (mp, s') \<Rightarrow> f mp s')"

definition h_spec_opts :: "addr ptr \<Rightarrow> labels ptr \<Rightarrow> 's preemption_config \<Rightarrow> ('q, 's, 'm) hoption list" where
  "h_spec_opts mx lbls cfg = [h_WithQuotaMax mx, h_WithLabels lbls, h_WithPreemptionConfig cfg]"

definition respec_hqueue :: "labels ptr \<Rightarrow> 's preemption_config \<Rightarrow> 's hqueue \<Rightarrow> 's hqueue" where
  "respec_hqueue lbls cfg q = q\<lparr>hq_labels := (if is_nil lbls then Ptr gm_make else lbls), hq_preemptionCfg := cfg\<rparr>"

lemma respec_hqueue_simps [simp]:
  "hq_quota (respec_hqueue lbls cfg q) = hq_quota q" "hq_name (respec_hqueue lbls cfg q) = hq_name q"
  by (simp_all add: respec_hqueue_def)

lemma h_ApplyOpts_spec:
  assumes "st_queue s a = Some q" and "hq_quota q = Ptr b" and "st_hquota s b = Some h"
  shows "h_ApplyOpts (Ptr a) (h_spec_opts mp lbls cfg) s =
    Some (set_queue a (respec_hqueue lbls cfg q) (set_hquota b (h\<lparr>hqt_max := mp\<rparr>) s))"
  using assms by (simp add: h_ApplyOpts_def h_spec_opts_def h_WithQuotaMax_def h_Quota_SetMax_def
      h_WithLabels_def h_WithPreemptionConfig_def h_queue_update_def respec_hqueue_def set_queue_def set_hquota_def)

lemma cells_bound:
  assumes "cells_ok s"
  shows "st_quota s b = Some v \<Longrightarrow> b < st_next s" and "st_queue s a = Some q \<Longrightarrow> a < st_next s"
    and "st_mgr s m = Some M \<Longrightarrow> m < st_next s"
  using cells_okD(1-3) [OF assms] by (metis not_le option.distinct(1))+

lemma extends_cells:
  assumes "cells_ok s" and "extends s s'"
  shows "st_queue s a = Some q \<Longrightarrow> st_queue s' a = Some q" and "st_quota s b = Some v \<Longrightarrow> st_quota s' b = Some v"
    and "st_queue s a = Some q \<Longrightarrow> queue_val s' (Ptr a) = queue_val s (Ptr a)"
proof -
  show q: "st_queue s' a = Some q" if "st_queue s a = Some q" for a q
    using that assms cells_bound(2) [OF assms(1) that] by (simp add: extends_def)
  show v: "st_quota s' b = Some v" if "st_quota s b = Some v" for b v
    using that assms cells_bound(1) [OF assms(1) that] by (simp add: extends_def)
  assume a: "st_queue s a = Some q"
  with cells_okD(4) [OF assms(1) a] show "queue_val s' (Ptr a) = queue_val s (Ptr a)"
    using q v by (intro queue_val_agree) auto
qed

lemma extends_mgr_val:
  assumes "store_ok s" and "extends s s'" and "st_mgr s' m = st_mgr s m"
  shows "mgr_val s' m = mgr_val s m"
  using mgr_val_same [OF assms(1,3)] extends_cells(3) [OF store_okD(1) [OF assms(1)] assms(2)] by blast

lemma owned_cell: "store_ok s \<Longrightarrow> owns s m n a \<Longrightarrow> \<exists>q. st_queue s a = Some q"
  using store_okD(2) by (fastforce simp: owns_def map_ok_def)

text \<open>The caller's map, before it is given to a queue.\<close>

lemma with_max_new:
  assumes "store_ok s" and "new_map mx s = (mp, s1)"
  shows "with_max mx f s = f mp s1" and "store_ok s1" and "spare s1 mp" and "map_val s1 mp = mx" and "extends s s1"
    and "st_queue s1 = st_queue s" and "st_quota s1 = st_quota s" and "st_mgr s1 = st_mgr s" and "owns s1 = owns s" and "mgr_val s1 m = mgr_val s m"
proof -
  note m = store_ok_new_map [OF assms]
  show "store_ok s1" "spare s1 mp" "map_val s1 mp = mx" and same: "st_queue s1 = st_queue s" "st_quota s1 = st_quota s" "st_mgr s1 = st_mgr s"
    using m by simp_all
  show ext: "extends s s1" using m(2,3,5) by (simp add: extends_def)
  show "with_max mx f s = f mp s1" by (simp add: with_max_def assms(2))
  show "owns s1 = owns s" using same(3) by (simp add: owns_def fun_eq_iff)
  show "mgr_val s1 m = mgr_val s m" using extends_mgr_val [OF assms(1) ext] same(3) by simp
qed

text \<open>A fresh queue, with its quota, that no manager owns yet.\<close>

lemma h_NewQuota_result:
  fixes s :: "('q, 's, 'm) store"
  assumes "store_ok s"
  obtains b h s0 s1 where "h_NewQuota K NilP s = (b, s1)" "new_hquota h s0 = (b, s1)" "store_ok s0" "extends s s0" "st_quota s0 = st_quota s" "st_queue s0 = st_queue s"
    "st_mgr s0 = st_mgr s" "hqt_max h = NilP" "hqt_podsByID h = imm_New K" "spare s0 (hqt_used h)" "hqt_used h \<noteq> NilP" "map_val s0 (hqt_used h) = gm_make"
    "\<And>mp. spare s mp \<Longrightarrow> spare s0 mp \<and> map_val s0 mp = map_val s mp \<and> hqt_used h \<noteq> mp"
proof -
  obtain u s0 where n: "new_map gm_make s = (u, s0)" by (cases "new_map gm_make s")
  note m = store_ok_new_map [OF assms n]
  let ?h = "\<lparr>hqt_max = NilP, hqt_used = u, hqt_podsByID = imm_New K\<rparr>"
  obtain b s1 where b: "new_hquota ?h s0 = (b, s1)" by (cases "new_hquota ?h s0")
  have u: "u \<noteq> NilP" using n by (auto simp: new_map_def gm_make_def)
  show ?thesis
  proof (rule that [of b s1 ?h s0])
    show "h_NewQuota K NilP s = (b, s1)" using n b by (simp add: h_NewQuota_def)
    show "extends s s0" using m(2,3,5) by (simp add: extends_def)
    show "spare s0 mp \<and> map_val s0 mp = map_val s mp \<and> hqt_used ?h \<noteq> mp" if "spare s mp" for mp
      using m(8-10) [OF that] u by simp
  qed (use m u b in simp_all)
qed

lemma h_Queue_New_spec:
  fixes s :: "('q, 's, 'm) store"
  assumes "store_ok s" and "spare s mp"
  obtains a s' q where "h_Queue_New K n (h_spec_opts mp lbls cfg) s = Some (a, s')" "store_ok s'" "extends s s'"
    "st_mgr s' = st_mgr s" "st_queue s' a = Some q" "queue_val s' (Ptr a) = Ptr (fresh_queue K n (map_val s mp, lbls, cfg))"
    "\<And>m' n'. \<not> owns s' m' n' a" "st_queue s a = None"
    "\<And>b v. st_quota s' b = Some v \<Longrightarrow> st_quota s b = Some v \<or> v = \<lparr>quota_max = map_val s mp, quota_used = gm_make, quota_podsByID = imm_New K\<rparr>"
proof (rule h_NewQuota_result [OF assms(1), of K])
  fix b h s0 s1
  assume q: "h_NewQuota K NilP s = (b, s1)" "new_hquota h s0 = (b, s1)" "store_ok s0" "extends s s0" "st_quota s0 = st_quota s" "st_queue s0 = st_queue s"
    "st_mgr s0 = st_mgr s" "hqt_max h = NilP" "hqt_podsByID h = imm_New K" "spare s0 (hqt_used h)" "hqt_used h \<noteq> NilP" "map_val s0 (hqt_used h) = gm_make"
    "\<And>mp. spare s mp \<Longrightarrow> spare s0 mp \<and> map_val s0 mp = map_val s mp \<and> hqt_used h \<noteq> mp"
  let ?q = "\<lparr>hq_name = n, hq_quota = Ptr b, hq_labels = Ptr gm_make, hq_preemptionCfg = zero_config\<rparr>"
  let ?v = "\<lparr>quota_max = NilP, quota_used = gm_make, quota_podsByID = imm_New K\<rparr>"
  obtain a s2 where n2: "new_queue ?q s1 = (a, s2)" by (cases "new_queue ?q s1")
  have "spare s0 NilP" "map_val s0 NilP = NilP" by (simp_all add: spare_def map_val_def)
  note cells = store_ok_new_cells [OF q(3,2) _ q(10,11) _ n2]
  have c: "store_ok s2" "extends s0 s2" "st_mgr s2 = st_mgr s0" "st_next s0 \<le> a" "st_queue s2 = (st_queue s0)(a \<mapsto> ?q)"
    "st_quota s2 = (st_quota s0)(b \<mapsto> ?v)" "st_next s0 \<le> b"
    using cells q(8,9,11,12) \<open>spare s0 NilP\<close> \<open>map_val s0 NilP = NilP\<close> by simp_all
  have s2: "st_hquota s2 = (st_hquota s0)(b \<mapsto> h)" "st_map s2 = st_map s0"
    using q(2) n2 by (auto simp: new_hquota_def new_queue_def)
  have mp: "spare s0 mp" "map_val s0 mp = map_val s mp" "hqt_used h \<noteq> mp" using q(13) [OF assms(2)] by simp_all
  have h: "st_hquota s2 b = Some h" "map_val s2 mp = map_val s mp"
    using s2 mp(2) by (simp_all add: map_val_def cong: ptr.case_cong)
  have "c \<notin> maps_of h" if "mp = Ptr c" for c using that mp(3) q(8) by (simp add: maps_of_def)
  then have "spare s2 mp" using mp(1) unfolding spare_def s2 by (auto split: if_splits)
  let ?s3 = "set_hquota b (h\<lparr>hqt_max := mp\<rparr>) s2"
  have w: "wrote b (?v\<lparr>quota_max := map_val s mp\<rparr>) s2 ?s3"
    using wrote_max [OF store_ok_maps [OF c(1)] h(1) \<open>spare s2 mp\<close>, of ?v] c(6) h(2) by simp
  let ?s4 = "set_queue a (respec_hqueue lbls cfg ?q) ?s3"
  have next_le: "st_next s \<le> st_next s0" using q(4) by (simp add: extends_def)
  show thesis
  proof (rule that [of a ?s4])
    have "h_ApplyOpts (Ptr a) (h_spec_opts mp lbls cfg) s2 = Some ?s4"
      using h_ApplyOpts_spec [of s2 a ?q b h] c(5) h(1) by simp
    then show "h_Queue_New K n (h_spec_opts mp lbls cfg) s = Some (a, ?s4)"
      using q(1) n2 by (simp add: h_Queue_New_def)
    show "store_ok ?s4"
      using store_ok_wrote [OF c(1) w] c(5) by (intro store_ok_set_queue) auto
    have "extends s s2" using extends_trans [OF q(4) c(2)] .
    then show "extends s ?s4"
      using c(4,7) next_le wroteD(2,3) [OF w] unfolding extends_def by auto
    show "st_mgr ?s4 = st_mgr s" using c(3) q(7) by simp
    show "st_queue ?s4 a = Some (respec_hqueue lbls cfg ?q)" by simp
    show "queue_val ?s4 (Ptr a) = Ptr (fresh_queue K n (map_val s mp, lbls, cfg))"
      using wroteD(2) [OF w] by (simp add: queue_val_cell) (simp add: respec_hqueue_def)
    have fresh: "st_queue s a = None" using cells_okD(2) [OF store_okD(1) [OF q(3)] c(4)] q(6) by simp
    then show "st_queue s a = None" .
    show "\<not> owns ?s4 m' n' a" for m' n'
      using owned_cell [OF assms(1), of m' n' a] fresh c(3) q(7) by (auto simp: owns_def)
    show "st_quota s b' = Some v \<or> v = \<lparr>quota_max = map_val s mp, quota_used = gm_make, quota_podsByID = imm_New K\<rparr>" if "st_quota ?s4 b' = Some v" for b' v
      using that wroteD(2) [OF w] c(6) q(5) by (auto split: if_splits)
  qed
qed

text \<open>
  Storing a fresh queue under a name: every cell is left alone, and the name no longer leads to the
  queue it led to before.
\<close>

lemma put_new_refines:
  fixes s :: "('q, 's, 'm) store"
  assumes "store_ok s" and "st_mgr s m = Some M" and "spare s mp"
  obtains s' where "do { (a, s1) \<leftarrow> h_Queue_New K n (h_spec_opts mp lbls cfg) s; h_mgr_store m n (Ptr a) s1 } = Some s'"
    "store_ok s'" "extends s s'" "mgr_store n (Ptr (fresh_queue K n (map_val s mp, lbls, cfg))) (mgr_val s m) = Some (mgr_val s' m)"
    "\<And>m'. m' \<noteq> m \<Longrightarrow> mgr_val s' m' = mgr_val s m'" "dom (st_mgr s') = dom (st_mgr s)"
    "\<And>n' a. n' \<noteq> n \<Longrightarrow> owns s' m n' a \<longleftrightarrow> owns s m n' a" "\<And>a q. st_queue s a = Some q \<Longrightarrow> \<not> owns s' m n a"
    "\<And>b v. st_quota s' b = Some v \<Longrightarrow> st_quota s b = Some v \<or> v = \<lparr>quota_max = map_val s mp, quota_used = gm_make, quota_podsByID = imm_New K\<rparr>"
proof -
  obtain a s1 q where n: "h_Queue_New K n (h_spec_opts mp lbls cfg) s = Some (a, s1)" "store_ok s1" "extends s s1"
    "st_mgr s1 = st_mgr s" "st_queue s1 a = Some q" "queue_val s1 (Ptr a) = Ptr (fresh_queue K n (map_val s mp, lbls, cfg))"
    "\<And>m' n'. \<not> owns s1 m' n' a" "st_queue s a = None"
    "\<And>b v. st_quota s1 b = Some v \<Longrightarrow> st_quota s b = Some v \<or> v = \<lparr>quota_max = map_val s mp, quota_used = gm_make, quota_podsByID = imm_New K\<rparr>"
    by (rule h_Queue_New_spec [OF assms(1,3), of K n lbls cfg]) blast
  have M1: "st_mgr s1 m = Some M" using n(4) assms(2) by simp
  have "M \<noteq> NilP" using store_okD(2) [OF assms(1,2)] by (simp add: map_ok_def)
  then obtain M' where M': "gm_set M n (Ptr a) = Some M'" using gm_set_defined [of M n "Ptr a"] by auto
  have val: "mgr_val s1 m' = mgr_val s m'" for m'
    using extends_mgr_val [OF assms(1) n(3)] n(4) by simp
  show ?thesis
  proof (rule that [of "set_mgr m M' s1"])
    show "do { (a, s1) \<leftarrow> h_Queue_New K n (h_spec_opts mp lbls cfg) s; h_mgr_store m n (Ptr a) s1 } = Some (set_mgr m M' s1)"
      using n(1) M1 M' by (simp add: h_mgr_store_def)
    show "store_ok (set_mgr m M' s1)" using store_ok_put [OF n(2) M1 M' n(5) n(7)] .
    show "extends s (set_mgr m M' s1)" using n(3) by (simp add: extends_def)
    show "mgr_store n (Ptr (fresh_queue K n (map_val s mp, lbls, cfg))) (mgr_val s m) = Some (mgr_val (set_mgr m M' s1) m)"
      using mgr_val_set_mgr(1) [OF M1 M'] n(6) val by simp
    show "mgr_val (set_mgr m M' s1) m' = mgr_val s m'" if "m' \<noteq> m" for m'
      using mgr_val_set_mgr(3) [OF M1 that] val by simp
    show "owns (set_mgr m M' s1) m n' a' \<longleftrightarrow> owns s m n' a'" if "n' \<noteq> n" for n' a'
      using that M1 M' assms(2) by (simp add: owns_def gm_get_set)
    show "\<not> owns (set_mgr m M' s1) m n a'" if "st_queue s a' = Some q'" for a' q'
      using that n(8) M' by (auto simp: owns_def gm_get_set)
    show "dom (st_mgr (set_mgr m M' s1)) = dom (st_mgr s)" using n(4) assms(2) by auto
  qed (use n(9) in simp)
qed

lemma h_Put_refines:
  fixes s :: "('q, 's, 'm) store"
  assumes "store_ok s" and "st_mgr s m = Some M"
  obtains s' where "with_max mx (\<lambda>mp. h_Manager_Put K m n (h_spec_opts mp lbls cfg)) s = Some s'"
    "store_ok s'" "extends s s'" "Manager_Put K n (spec_opts mx lbls cfg) (mgr_val s m) = Some (mgr_val s' m)"
    "\<And>m'. m' \<noteq> m \<Longrightarrow> mgr_val s' m' = mgr_val s m'" "dom (st_mgr s') = dom (st_mgr s)"
    "\<And>n' a. n' \<noteq> n \<Longrightarrow> owns s' m n' a \<longleftrightarrow> owns s m n' a" "\<And>a q. st_queue s a = Some q \<Longrightarrow> \<not> owns s' m n a"
    "\<And>b v. st_quota s' b = Some v \<Longrightarrow> st_quota s b = Some v \<or> v = \<lparr>quota_max = mx, quota_used = gm_make, quota_podsByID = imm_New K\<rparr>"
proof -
  obtain mp s1 where n: "new_map mx s = (mp, s1)" by (cases "new_map mx s")
  note w = with_max_new [OF assms(1) n]
  have M: "st_mgr s1 m = Some M" using w(8) assms(2) by simp
  show ?thesis
    by (rule put_new_refines [OF w(2) M w(3), of K n lbls cfg], rule that, simp add: w(1) h_Manager_Put_def)
      (simp_all add: w Put_spec extends_trans [OF w(5)] del: fresh_queue.simps)
qed

text \<open>Rewriting a queue in place: the same cell, with another maximum, labels and configuration.\<close>

lemma respec_cell:
  fixes mp :: "addr ptr" and lbls :: "labels ptr" and cfg :: "'s preemption_config"
  assumes "store_ok s" and "at_cell s m n a q b v" and "st_hquota s b = Some h" and "spare s mp"
  defines "s' \<equiv> set_queue a (respec_hqueue lbls cfg q) (set_hquota b (h\<lparr>hqt_max := mp\<rparr>) s)"
  shows "store_ok s'" and "\<And>m'. m' \<noteq> m \<Longrightarrow> mgr_val s' m' = mgr_val s m'"
    and "mgr_store n (case Manager_GetByName (mgr_val s m) n of NilP \<Rightarrow> NilP | Ptr x \<Rightarrow> Ptr (respec_queue (map_val s mp, lbls, cfg) x))
      (mgr_val s m) = Some (mgr_val s' m)"
    and "st_quota s' = (st_quota s)(b \<mapsto> v\<lparr>quota_max := map_val s mp\<rparr>)"
proof -
  from assms(2) have c: "owns s m n a" "st_queue s a = Some q" "hq_quota q = Ptr b" "st_quota s b = Some v"
    by (simp_all add: at_cell_def)
  have w: "wrote b (v\<lparr>quota_max := map_val s mp\<rparr>) s (set_hquota b (h\<lparr>hqt_max := mp\<rparr>) s)"
    using wrote_max [OF store_ok_maps [OF assms(1)] assms(3,4) c(4)] .
  show "store_ok s'"
    unfolding s'_def using store_ok_wrote [OF assms(1) w] c(2) by (intro store_ok_set_queue) auto
  show quota: "st_quota s' = (st_quota s)(b \<mapsto> v\<lparr>quota_max := map_val s mp\<rparr>)"
    unfolding s'_def using wroteD(2) [OF w] by simp
  have others: "queue_val s' (Ptr a') = queue_val s (Ptr a')" if "a' \<noteq> a" for a'
    using that cells_okD(5) [OF store_okD(1) [OF assms(1)] c(2)] c(3) quota
    by (intro queue_val_agree) (auto simp: s'_def)
  have "queue_val s' (Ptr a) = (case Manager_GetByName (mgr_val s m) n of NilP \<Rightarrow> NilP | Ptr x \<Rightarrow> Ptr (respec_queue (map_val s mp, lbls, cfg) x))"
    using at_cell_read(3) [OF assms(2)] c(3) quota
    by (simp add: queue_val_def Quota_SetMax_def s'_def) (simp add: respec_hqueue_def)
  with mgr_val_owned [OF assms(1) c(1), of s'] others show "mgr_store n (case Manager_GetByName (mgr_val s m) n of
      NilP \<Rightarrow> NilP | Ptr x \<Rightarrow> Ptr (respec_queue (map_val s mp, lbls, cfg) x)) (mgr_val s m) = Some (mgr_val s' m)"
    by (simp add: s'_def)
  show "mgr_val s' m' = mgr_val s m'" if "m' \<noteq> m" for m'
    using that others store_okD(3) [OF assms(1) c(1)]
    by (intro mgr_val_others [OF assms(1), of _ _ a]) (auto simp: s'_def)
qed

lemma h_Update_spare_refines:
  fixes s :: "('q, 's, 'm) store"
  assumes "store_ok s" and "st_mgr s m = Some M" and "spare s mp"
  obtains s' where "h_Manager_Update K m n (h_spec_opts mp lbls cfg) s = Some s'"
    "store_ok s'" "Manager_Update K n (spec_opts (map_val s mp) lbls cfg) (mgr_val s m) = Some (mgr_val s' m)"
    "\<And>m'. m' \<noteq> m \<Longrightarrow> mgr_val s' m' = mgr_val s m'" "dom (st_mgr s') = dom (st_mgr s)"
    "\<And>n' a q. st_queue s a = Some q \<Longrightarrow> owns s' m n' a \<longleftrightarrow> owns s m n' a"
    "\<And>a q. st_queue s a = Some q \<Longrightarrow> \<exists>q'. st_queue s' a = Some q' \<and> hq_quota q' = hq_quota q"
    "\<And>b v. st_quota s' b = Some v \<Longrightarrow> st_quota s b = Some v \<or> v = \<lparr>quota_max = map_val s mp, quota_used = gm_make, quota_podsByID = imm_New K\<rparr> \<or>
      (\<exists>v0. st_quota s b = Some v0 \<and> v = v0\<lparr>quota_max := map_val s mp\<rparr>)"
proof (rule at_cell_cases [OF assms(1,2), of n])
  assume nil: "h_GetByName m n s = Some NilP" "Manager_GetByName (mgr_val s m) n = NilP" "\<And>a. \<not> owns s m n a"
  have upd: "h_Manager_Update K m n (h_spec_opts mp lbls cfg) s =
      do { (a, s1) \<leftarrow> h_Queue_New K n (h_spec_opts mp lbls cfg) s; h_mgr_store m n (Ptr a) s1 }"
    using nil(1) by (simp add: h_Manager_Update_def) (simp add: h_spec_opts_def)
  show thesis
  proof (rule put_new_refines [OF assms, of K n lbls cfg])
    fix s'
    assume p: "do { (a, s1) \<leftarrow> h_Queue_New K n (h_spec_opts mp lbls cfg) s; h_mgr_store m n (Ptr a) s1 } = Some s'"
      "store_ok s'" "extends s s'" "mgr_store n (Ptr (fresh_queue K n (map_val s mp, lbls, cfg))) (mgr_val s m) = Some (mgr_val s' m)"
      "\<And>m'. m' \<noteq> m \<Longrightarrow> mgr_val s' m' = mgr_val s m'" "dom (st_mgr s') = dom (st_mgr s)"
      "\<And>n' a. n' \<noteq> n \<Longrightarrow> owns s' m n' a \<longleftrightarrow> owns s m n' a" "\<And>a q. st_queue s a = Some q \<Longrightarrow> \<not> owns s' m n a"
      "\<And>b v. st_quota s' b = Some v \<Longrightarrow> st_quota s b = Some v \<or> v = \<lparr>quota_max = map_val s mp, quota_used = gm_make, quota_podsByID = imm_New K\<rparr>"
    show thesis
    proof (rule that [of s'])
      show "Manager_Update K n (spec_opts (map_val s mp) lbls cfg) (mgr_val s m) = Some (mgr_val s' m)"
        using p(4) nil(2) by (simp add: Update_spec del: fresh_queue.simps)
      show "owns s' m n' a \<longleftrightarrow> owns s m n' a" if "st_queue s a = Some q" for n' a q
        using p(7,8) that nil(3) by (cases "n' = n") auto
      show "\<exists>q'. st_queue s' a = Some q' \<and> hq_quota q' = hq_quota q" if "st_queue s a = Some q" for a q
        using extends_cells(1) [OF store_okD(1) [OF assms(1)] p(3) that] by simp
      show "st_quota s b = Some v \<or> v = \<lparr>quota_max = map_val s mp, quota_used = gm_make, quota_podsByID = imm_New K\<rparr> \<or>
          (\<exists>v0. st_quota s b = Some v0 \<and> v = v0\<lparr>quota_max := map_val s mp\<rparr>)" if "st_quota s' b = Some v" for b v
        using p(9) [OF that] by blast
    qed (use p upd in simp_all)
  qed
next
  fix a q b v
  assume c: "at_cell s m n a q b v"
  from c st_quota_hquota obtain h where h: "st_hquota s b = Some h" unfolding at_cell_def by metis
  let ?s' = "set_queue a (respec_hqueue lbls cfg q) (set_hquota b (h\<lparr>hqt_max := mp\<rparr>) s)"
  note r = respec_cell [OF assms(1) c h assms(3), where lbls = lbls and cfg = cfg]
  show thesis
  proof (rule that [of ?s'])
    have "h_Manager_Update K m n (h_spec_opts mp lbls cfg) s = h_ApplyOpts (Ptr a) (h_spec_opts mp lbls cfg) s"
      using at_cell_read(1) [OF c] by (simp add: h_Manager_Update_def) (simp add: h_spec_opts_def)
    then show "h_Manager_Update K m n (h_spec_opts mp lbls cfg) s = Some ?s'"
      using c h h_ApplyOpts_spec [of s a q b h] by (simp add: at_cell_def)
    show "Manager_Update K n (spec_opts (map_val s mp) lbls cfg) (mgr_val s m) = Some (mgr_val ?s' m)"
      using r(3) at_cell_read(3) [OF c] by (simp add: Update_spec del: respec_queue.simps)
    show "\<exists>q'. st_queue ?s' a' = Some q' \<and> hq_quota q' = hq_quota q''" if "st_queue s a' = Some q''" for a' q''
      using that c by (auto simp: at_cell_def)
    show "st_quota s b' = Some v' \<or> v' = \<lparr>quota_max = map_val s mp, quota_used = gm_make, quota_podsByID = imm_New K\<rparr> \<or>
        (\<exists>v0. st_quota s b' = Some v0 \<and> v' = v0\<lparr>quota_max := map_val s mp\<rparr>)" if "st_quota ?s' b' = Some v'" for b' v'
      using that c unfolding r(4) at_cell_def by (auto split: if_splits)
  qed (use r assms(2) in \<open>simp_all add: owns_def\<close>)
qed

lemma h_Update_refines:
  fixes s :: "('q, 's, 'm) store"
  assumes "store_ok s" and "st_mgr s m = Some M"
  obtains s' where "with_max mx (\<lambda>mp. h_Manager_Update K m n (h_spec_opts mp lbls cfg)) s = Some s'"
    "store_ok s'" "Manager_Update K n (spec_opts mx lbls cfg) (mgr_val s m) = Some (mgr_val s' m)"
    "\<And>m'. m' \<noteq> m \<Longrightarrow> mgr_val s' m' = mgr_val s m'" "dom (st_mgr s') = dom (st_mgr s)"
    "\<And>n' a q. st_queue s a = Some q \<Longrightarrow> owns s' m n' a \<longleftrightarrow> owns s m n' a"
    "\<And>a q. st_queue s a = Some q \<Longrightarrow> \<exists>q'. st_queue s' a = Some q' \<and> hq_quota q' = hq_quota q"
    "\<And>b v. st_quota s' b = Some v \<Longrightarrow> st_quota s b = Some v \<or> v = \<lparr>quota_max = mx, quota_used = gm_make, quota_podsByID = imm_New K\<rparr> \<or>
      (\<exists>v0. st_quota s b = Some v0 \<and> v = v0\<lparr>quota_max := mx\<rparr>)"
proof -
  obtain mp s1 where n: "new_map mx s = (mp, s1)" by (cases "new_map mx s")
  note w = with_max_new [OF assms(1) n]
  have M: "st_mgr s1 m = Some M" using w(8) assms(2) by simp
  show ?thesis
    by (rule h_Update_spare_refines [OF w(2) M w(3), of K n lbls cfg], rule that, simp add: w(1)) (simp_all add: w)
qed

lemma h_Delete_refines:
  assumes "store_ok s" and "st_mgr s m = Some M"
  obtains s' where "h_Manager_Delete m n s = Some s'" "store_ok s'" "extends s s'"
    "mgr_val s' m = Manager_Delete n (mgr_val s m)" "\<And>m'. m' \<noteq> m \<Longrightarrow> mgr_val s' m' = mgr_val s m'" "dom (st_mgr s') = dom (st_mgr s)"
    "\<And>n' a. owns s' m n' a \<longleftrightarrow> n' \<noteq> n \<and> owns s m n' a"
proof (rule that [of "set_mgr m (gm_delete M n) s"])
  show "extends s (set_mgr m (gm_delete M n) s)" by (simp add: extends_def)
  show "dom (st_mgr (set_mgr m (gm_delete M n) s)) = dom (st_mgr s)" using assms(2) by auto
  show "owns (set_mgr m (gm_delete M n) s) m n' a \<longleftrightarrow> n' \<noteq> n \<and> owns s m n' a" for n' a
    using assms(2) by (simp add: owns_def gm_get_delete)
qed (use assms store_ok_delete [OF assms] mgr_val_set_mgr [OF assms(2)] in \<open>simp_all add: h_Manager_Delete_def\<close>)

section \<open>Snapshots\<close>

lemma h_Queue_Clone_result:
  fixes s :: "('q, 's, 'm) store"
  assumes "store_ok s" and "st_queue s a = Some q"
  obtains a' s' q' where "h_Queue_Clone K (Ptr a) s = Some (Ptr a', s')" "store_ok s'" "extends s s'" "st_mgr s' = st_mgr s"
    "st_next s \<le> a'" "st_queue s' a' = Some q'" "queue_val s' (Ptr a') = Queue_Clone K (queue_val s (Ptr a))"
    "\<And>b v. hq_quota q = Ptr b \<Longrightarrow> st_quota s b = Some v \<Longrightarrow> \<exists>b'. st_quota s' = (st_quota s)(b' \<mapsto>
      \<lparr>quota_max = Resources_Clone K (quota_max v), quota_used = Resources_Clone K (quota_used v), quota_podsByID = quota_podsByID v\<rparr>)"
proof -
  from store_ok_queue [OF assms] obtain b v where b: "hq_quota q = Ptr b" "st_quota s b = Some v" .
  from st_quota_hquota [OF b(2)] obtain h where h: "st_hquota s b = Some h"
    "v = \<lparr>quota_max = map_val s (hqt_max h), quota_used = map_val s (hqt_used h), quota_podsByID = hqt_podsByID h\<rparr>" by blast
  obtain mx s1 where n1: "new_map (Resources_Clone K (map_val s (hqt_max h))) s = (mx, s1)" by (cases "new_map (Resources_Clone K (map_val s (hqt_max h))) s")
  note m1 = store_ok_new_map [OF assms(1) n1]
  have used1: "map_val s1 (hqt_used h) = quota_used v" using m1(12) [OF h(1)] h(2) by simp
  obtain u s2 where n2: "new_map (Resources_Clone K (quota_used v)) s1 = (u, s2)" by (cases "new_map (Resources_Clone K (quota_used v)) s1")
  note m2 = store_ok_new_map [OF m1(1) n2]
  have "quota_used v \<noteq> NilP" using maps_okD(3) [OF store_ok_maps [OF assms(1)] h(1)] h(2) by (auto simp: map_val_def)
  then have u: "u \<noteq> NilP" using n2 by (auto simp: Resources_Clone_def new_map_def split: ptr.splits)
  let ?h = "\<lparr>hqt_max = mx, hqt_used = u, hqt_podsByID = hqt_podsByID h\<rparr>"
  obtain b' s3 where n3: "new_hquota ?h s2 = (b', s3)" by (cases "new_hquota ?h s2")
  let ?q = "q\<lparr>hq_quota := Ptr b'\<rparr>"
  obtain a' s4 where n4: "new_queue ?q s3 = (a', s4)" by (cases "new_queue ?q s3")
  note c = store_ok_new_cells [OF m2(1) n3 _ _ _ _ n4, simplified, OF m2(8) [OF m1(6)] m2(6) u m2(10) [OF m1(6) u]]
  show ?thesis
  proof (rule that [of a' s4 ?q])
    show "h_Queue_Clone K (Ptr a) s = Some (Ptr a', s4)"
      using assms(2) b(1) h(1) n1 n2 n3 n4 used1 by (simp add: h_Queue_Clone_def h_Quota_Clone_def h_Resources_Clone_def)
    have "extends s s2" using m1(2,3,5) m2(2,3,5) by (simp add: extends_def)
    then show "extends s s4" using c(2) by (rule extends_trans)
    show "st_next s \<le> a'" using c(4) m1(5) m2(5) by simp
    have "map_val s2 mx = Resources_Clone K (quota_max v)" "map_val s2 u = Resources_Clone K (quota_used v)"
      using m2(7) m2(9) [OF m1(6)] m1(7) h(2) by simp_all
    then have quota: "st_quota s4 = (st_quota s)(b' \<mapsto> \<lparr>quota_max = Resources_Clone K (quota_max v), quota_used = Resources_Clone K (quota_used v),
        quota_podsByID = quota_podsByID v\<rparr>)" using c(6) h(2) m1(2) m2(2) by simp
    then show "\<exists>b'. st_quota s4 = (st_quota s)(b' \<mapsto> \<lparr>quota_max = Resources_Clone K (quota_max v0), quota_used = Resources_Clone K (quota_used v0),
        quota_podsByID = quota_podsByID v0\<rparr>)" if "hq_quota q = Ptr b0" "st_quota s b0 = Some v0" for b0 v0
      using that b by auto
    from quota show "queue_val s4 (Ptr a') = Queue_Clone K (queue_val s (Ptr a))"
      using assms(2) b c(5) by (simp add: queue_val_cell Queue_Clone_def Quota_Clone_def)
    show "st_mgr s4 = st_mgr s" "st_queue s4 a' = Some ?q" "store_ok s4" using c m1 m2 by simp_all
  qed
qed

text \<open>
  The loop of \<^verbatim>\<open>Clone\<close>: every pointer it has passed leads to a fresh queue, different from the
  others, that reads as the clone of the queue the name had.
\<close>

definition cloned :: "('q, 's, 'm) kube \<Rightarrow> ('q, 's, 'm) store \<Rightarrow> (string \<times> addr ptr) list \<Rightarrow> ('q, 's, 'm) store \<Rightarrow> (string \<times> addr ptr) list \<Rightarrow> bool" where
  "cloned K s es s' es' \<longleftrightarrow> store_ok s' \<and> extends s s' \<and> st_mgr s' = st_mgr s \<and> map fst es' = map fst es \<and> distinct (map snd es') \<and>
     (\<forall>p \<in> snd ` set es'. \<exists>a q. p = Ptr a \<and> st_next s \<le> a \<and> st_queue s' a = Some q) \<and>
     map (\<lambda>(n, p). (n, queue_val s' p)) es' = map (\<lambda>(n, p). (n, Queue_Clone K (queue_val s p))) es"

lemma clone_loop:
  fixes s :: "('q, 's, 'm) store"
  assumes "store_ok s" and "distinct (map fst (xs @ es))" and "\<forall>p \<in> snd ` set es. \<exists>a q. p = Ptr a \<and> st_queue s a = Some q"
  shows "\<exists>es' s'. for_each (clone_entry K) es (xs @ es, s) = Some (xs @ es', s') \<and> cloned K s es s' es'"
  using assms
proof (induction es arbitrary: xs s)
  case Nil
  then show ?case by (simp add: cloned_def)
next
  case (Cons e es)
  obtain n p where e: "e = (n, p)" by (cases e)
  with Cons.prems(3) obtain a q where p: "p = Ptr a" "st_queue s a = Some q" by auto
  obtain a' s1 q' where c: "h_Queue_Clone K (Ptr a) s = Some (Ptr a', s1)" "store_ok s1" "extends s s1" "st_mgr s1 = st_mgr s"
    "st_next s \<le> a'" "st_queue s1 a' = Some q'" "queue_val s1 (Ptr a') = Queue_Clone K (queue_val s (Ptr a))"
    by (rule h_Queue_Clone_result [OF Cons.prems(1) p(2), of K]) blast
  note ext = extends_cells [OF store_okD(1) [OF Cons.prems(1)] c(3)]
  have "\<forall>p \<in> snd ` set es. \<exists>a q. p = Ptr a \<and> st_queue s1 a = Some q"
    using Cons.prems(3) ext(1) by auto
  with Cons.IH [OF c(2), of "xs @ [(n, Ptr a')]"] Cons.prems(2) e obtain es' s' where
    r: "for_each (clone_entry K) es ((xs @ [(n, Ptr a')]) @ es, s1) = Some ((xs @ [(n, Ptr a')]) @ es', s')" "cloned K s1 es s' es'"
    by auto
  have step: "clone_entry K e (xs @ e # es, s) = Some (xs @ (n, Ptr a') # es, s1)"
    using c(1) p(1) e update_middle [of xs n p es "Ptr a'"] Cons.prems(2) by (simp add: clone_entry_def)
  note ext1 = extends_cells [OF store_okD(1) [OF c(2)]]
  have tail: "map (\<lambda>(n, p). (n, Queue_Clone K (queue_val s1 p))) es = map (\<lambda>(n, p). (n, Queue_Clone K (queue_val s p))) es"
    using Cons.prems(3) ext(3) by fastforce
  have "a' < st_next s1" using cells_bound(2) [OF store_okD(1) [OF c(2)] c(6)] .
  then have "Ptr a' \<notin> snd ` set es'" using r(2) by (auto simp: cloned_def)
  then have "cloned K s (e # es) s' ((n, Ptr a') # es')"
    using r(2) c e p(1) tail ext1(1,3) [of s' a' q'] extends_trans [OF c(3), of s'] by (fastforce simp: cloned_def extends_def)
  with step r(1) show ?case by auto
qed

lemma h_Clone_refines:
  fixes s :: "('q, 's, 'm) store"
  assumes "store_ok s" and "st_mgr s m = Some M"
  obtains m' s' where "h_Manager_Clone K m s = Some (m', s')" "store_ok s'" "st_mgr s m' = None" "st_mgr s' m' \<noteq> None"
    "mgr_val s' m' = Manager_Clone K (mgr_val s m)" "\<And>m''. m'' \<noteq> m' \<Longrightarrow> mgr_val s' m'' = mgr_val s m'' \<and> st_mgr s' m'' = st_mgr s m''"
proof -
  note ok = store_okD(2) [OF assms]
  from map_ok_Ptr [OF ok] obtain es where es: "M = Ptr es" "distinct (map fst es)" .
  have "\<forall>p \<in> snd ` set es. \<exists>a q. p = Ptr a \<and> st_queue s a = Some q"
    using ok es by (fastforce simp: map_ok_def)
  with clone_loop [OF assms(1), of "[]" es K] es(2) obtain es' s1 where
    l: "for_each (clone_entry K) es (es, s) = Some (es', s1)" "cloned K s es s1 es'" by auto
  then have c: "store_ok s1" "extends s s1" "st_mgr s1 = st_mgr s" "map fst es' = map fst es" "distinct (map snd es')"
    "\<forall>p \<in> snd ` set es'. \<exists>a q. p = Ptr a \<and> st_next s \<le> a \<and> st_queue s1 a = Some q"
    "map (\<lambda>(n, p). (n, queue_val s1 p)) es' = map (\<lambda>(n, p). (n, Queue_Clone K (queue_val s p))) es"
    by (simp_all add: cloned_def)
  obtain m' s' where n: "new_mgr (Ptr es') s1 = (m', s')" by (cases "new_mgr (Ptr es') s1")
  have in_es': "Ptr a \<in> snd ` set es'" if "map_of es' n = Some (Ptr a)" for n a
    using map_of_SomeD [OF that] by force
  have "map_ok s1 (Ptr es')"
    using c(4,6) es(2) by (fastforce simp: map_ok_def gm_wf_Ptr dest: map_of_SomeD)
  moreover have "\<not> owns s1 m'' n' a" if "gm_get (Ptr es') n = Some (Ptr a)" for m'' n n' a
  proof
    assume "owns s1 m'' n' a"
    then have "owns s m'' n' a" using c(3) by (simp add: owns_def)
    with owned_cell [OF assms(1)] cells_bound(2) [OF store_okD(1) [OF assms(1)]] have "a < st_next s" by blast
    then show False using c(6) in_es' [of n a] that by auto
  qed
  moreover have "n = n'" if "gm_get (Ptr es') n = Some (Ptr a)" "gm_get (Ptr es') n' = Some (Ptr a)" for n n' a
    using that c(5) map_of_SomeD [of es' n "Ptr a"] map_of_SomeD [of es' n' "Ptr a"]
      inj_onD [of snd "set es'" "(n, Ptr a)" "(n', Ptr a)"] by (simp add: distinct_map)
  ultimately have m': "store_ok s'" "m' = st_next s1" "st_mgr s' = (st_mgr s1)(m' \<mapsto> Ptr es')" "st_queue s' = st_queue s1" "st_quota s' = st_quota s1"
    using store_ok_new_mgr [OF c(1) n] by blast+
  have val: "queue_val s' = queue_val s1"
    by (rule ext) (simp add: queue_val_def quota_val_def m'(4,5) split: ptr.split option.split)
  have "extends s1 s'" using m'(4,5) n by (auto simp: extends_def new_mgr_def)
  show ?thesis
  proof (rule that)
    show "h_Manager_Clone K m s = Some (m', s')" using assms(2) es(1) l(1) n by (simp add: h_Manager_Clone_def)
    show "st_mgr s m' = None"
      using cells_okD(3) [OF store_okD(1) [OF c(1)], of m'] m'(2) c(3) by simp
    show "mgr_val s' m' = Manager_Clone K (mgr_val s m)"
      using es assms(2) m'(3) c(7) val fold_update_self [of "[]" "map (\<lambda>(n, p). (n, queue_val s p)) es" "Queue_Clone K"]
      by (simp add: mgr_val_def Manager_Clone_def case_prod_unfold comp_def)
    show "mgr_val s' m'' = mgr_val s m'' \<and> st_mgr s' m'' = st_mgr s m''" if "m'' \<noteq> m'" for m''
      using that m'(3) c(3) extends_mgr_val [OF assms(1) extends_trans [OF c(2) \<open>extends s1 s'\<close>]] by simp
  qed (use m' in simp_all)
qed

section \<open>Operations on several managers\<close>

datatype ('q, 's) mgr_op =
    OpAddPod "'q pod ptr"
  | OpDeletePod "'q pod ptr"
  | OpPut string "'q resources" "labels ptr" "'s preemption_config"
  | OpUpdate string "'q resources" "labels ptr" "'s preemption_config"
  | OpDelete string

fun mgr_apply :: "('q, 's, 'm) kube \<Rightarrow> ('q, 's) mgr_op \<Rightarrow> ('q, 's, 'm) manager \<Rightarrow> (('q, 's, 'm) manager \<times> mgr_error option) option" where
  "mgr_apply K (OpAddPod pod) qm = Manager_AddPodIfNotPresent K pod qm"
| "mgr_apply K (OpDeletePod pod) qm = Manager_DeletePodIfPresent K pod qm"
| "mgr_apply K (OpPut n mx lbls cfg) qm = do { qm' \<leftarrow> Manager_Put K n (spec_opts mx lbls cfg) qm; Some (qm', None) }"
| "mgr_apply K (OpUpdate n mx lbls cfg) qm = do { qm' \<leftarrow> Manager_Update K n (spec_opts mx lbls cfg) qm; Some (qm', None) }"
| "mgr_apply K (OpDelete n) qm = Some (Manager_Delete n qm, None)"

fun h_apply :: "('q, 's, 'm) kube \<Rightarrow> addr \<Rightarrow> ('q, 's) mgr_op \<Rightarrow> ('q, 's, 'm) store \<Rightarrow> (('q, 's, 'm) store \<times> mgr_error option) option" where
  "h_apply K m (OpAddPod pod) s = h_Manager_AddPodIfNotPresent K m pod s"
| "h_apply K m (OpDeletePod pod) s = h_Manager_DeletePodIfPresent K m pod s"
| "h_apply K m (OpPut n mx lbls cfg) s = do { s' \<leftarrow> with_max mx (\<lambda>mp. h_Manager_Put K m n (h_spec_opts mp lbls cfg)) s; Some (s', None) }"
| "h_apply K m (OpUpdate n mx lbls cfg) s = do { s' \<leftarrow> with_max mx (\<lambda>mp. h_Manager_Update K m n (h_spec_opts mp lbls cfg)) s; Some (s', None) }"
| "h_apply K m (OpDelete n) s = do { s' \<leftarrow> h_Manager_Delete m n s; Some (s', None) }"

fun mgr_op_ok :: "('q, 's, 'm) kube \<Rightarrow> (string \<Rightarrow> 'q resource_list) \<Rightarrow> ('q, 's) mgr_op \<Rightarrow> bool" where
  "mgr_op_ok K reqs (OpAddPod pod) \<longleftrightarrow> (case pod of NilP \<Rightarrow> True | Ptr p \<Rightarrow> pod_ok K reqs p)"
| "mgr_op_ok K reqs (OpDeletePod pod) \<longleftrightarrow> (case pod of NilP \<Rightarrow> True | Ptr p \<Rightarrow> pod_ok K reqs p)"
| "mgr_op_ok K reqs (OpPut n mx lbls cfg) \<longleftrightarrow> gm_wf mx"
| "mgr_op_ok K reqs (OpUpdate n mx lbls cfg) \<longleftrightarrow> gm_wf mx"
| "mgr_op_ok K reqs (OpDelete n) \<longleftrightarrow> True"

context kube_laws
begin

lemma mgr_apply_result:
  assumes "mgr_balanced K amount reqs qm" and "mgr_op_ok K reqs op"
  shows "\<exists>qm' err. mgr_apply K op qm = Some (qm', err) \<and> mgr_balanced K amount reqs qm'"
proof (cases op)
  case (OpAddPod pod)
  with assms Manager_AddPod_result [OF assms(1)] show ?thesis
    by (cases pod) (simp add: Manager_AddPodIfNotPresent_def, fastforce)
next
  case (OpDeletePod pod)
  with assms Manager_DeletePod_result [OF assms(1)] show ?thesis
    by (cases pod) (simp add: Manager_DeletePodIfPresent_def, fastforce)
next
  case (OpPut n mx lbls cfg)
  with assms Manager_Put_balanced [OF assms(1), of mx n lbls cfg] show ?thesis by auto
next
  case (OpUpdate n mx lbls cfg)
  with assms Manager_Update_balanced [OF assms(1), of mx n lbls cfg] show ?thesis by auto
next
  case (OpDelete n)
  with assms mgr_balanced_delete show ?thesis by auto
qed

end

text \<open>One operation on cells is the operation on values, and no other manager sees it.\<close>

lemma h_apply_refines:
  assumes "store_ok s" and "st_mgr s m = Some M" and "mgr_apply K op (mgr_val s m) = Some (qm', err)"
  shows "\<exists>s'. h_apply K m op s = Some (s', err) \<and> store_ok s' \<and> mgr_val s' m = qm' \<and>
    dom (st_mgr s') = dom (st_mgr s) \<and> (\<forall>m'. m' \<noteq> m \<longrightarrow> mgr_val s' m' = mgr_val s m')"
proof (cases op)
  case (OpAddPod pod)
  then show ?thesis using h_AddPod_refines [OF assms(1,2), of K pod qm' err] assms(3) by auto
next
  case (OpDeletePod pod)
  then show ?thesis using h_DeletePod_refines [OF assms(1,2), of K pod qm' err] assms(3) by auto
next
  case (OpPut n mx lbls cfg)
  show ?thesis
    by (rule h_Put_refines [OF assms(1,2), of mx K n lbls cfg]) (use OpPut assms(3) in auto)
next
  case (OpUpdate n mx lbls cfg)
  show ?thesis
    by (rule h_Update_refines [OF assms(1,2), of mx K n lbls cfg]) (use OpUpdate assms(3) in auto)
next
  case (OpDelete n)
  show ?thesis
    by (rule h_Delete_refines [OF assms(1,2), of n]) (use OpDelete assms(3) in auto)
qed

text \<open>Sequences of operations, each on the manager it names.\<close>

definition h_step :: "('q, 's, 'm) kube \<Rightarrow> addr \<times> ('q, 's) mgr_op \<Rightarrow> ('q, 's, 'm) store \<Rightarrow> ('q, 's, 'm) store option" where
  "h_step K x s = map_option fst (h_apply K (fst x) (snd x) s)"

definition mgr_step :: "('q, 's, 'm) kube \<Rightarrow> ('q, 's) mgr_op \<Rightarrow> ('q, 's, 'm) manager \<Rightarrow> ('q, 's, 'm) manager option" where
  "mgr_step K op qm = map_option fst (mgr_apply K op qm)"

definition ops_of :: "addr \<Rightarrow> (addr \<times> ('q, 's) mgr_op) list \<Rightarrow> ('q, 's) mgr_op list" where
  "ops_of m xs = map snd (filter (\<lambda>x. fst x = m) xs)"

context kube_laws
begin

lemma h_steps_refine:
  assumes "store_ok s" and "\<forall>x \<in> set xs. fst x \<in> dom (st_mgr s) \<and> mgr_op_ok K reqs (snd x)"
    and "\<forall>m \<in> dom (st_mgr s). mgr_balanced K amount reqs (mgr_val s m)"
  shows "\<exists>s'. for_each (h_step K) xs s = Some s' \<and> store_ok s' \<and> dom (st_mgr s') = dom (st_mgr s) \<and>
    (\<forall>m \<in> dom (st_mgr s). for_each (mgr_step K) (ops_of m xs) (mgr_val s m) = Some (mgr_val s' m) \<and>
      mgr_balanced K amount reqs (mgr_val s' m))"
  using assms
proof (induction xs arbitrary: s)
  case Nil
  then show ?case by (simp add: ops_of_def)
next
  case (Cons x xs)
  obtain m op where x: "x = (m, op)" by (cases x)
  with Cons.prems(2) obtain M where m: "st_mgr s m = Some M" "mgr_op_ok K reqs op" by auto
  with Cons.prems(3) have "mgr_balanced K amount reqs (mgr_val s m)" by blast
  from mgr_apply_result [OF this m(2)] obtain qm' err where
    v: "mgr_apply K op (mgr_val s m) = Some (qm', err)" "mgr_balanced K amount reqs qm'" by blast
  from h_apply_refines [OF Cons.prems(1) m(1) v(1)] obtain s1 where
    h: "h_apply K m op s = Some (s1, err)" "store_ok s1" "mgr_val s1 m = qm'" "dom (st_mgr s1) = dom (st_mgr s)"
      "\<forall>m'. m' \<noteq> m \<longrightarrow> mgr_val s1 m' = mgr_val s m'" by blast
  have "\<forall>m' \<in> dom (st_mgr s1). mgr_balanced K amount reqs (mgr_val s1 m')"
    using h(3-5) v(2) Cons.prems(3) by metis
  with Cons.IH [OF h(2)] Cons.prems(2) h(4) obtain s' where
    r: "for_each (h_step K) xs s1 = Some s'" "store_ok s'" "dom (st_mgr s') = dom (st_mgr s)"
      "\<forall>m \<in> dom (st_mgr s). for_each (mgr_step K) (ops_of m xs) (mgr_val s1 m) = Some (mgr_val s' m) \<and>
        mgr_balanced K amount reqs (mgr_val s' m)" by auto
  have "for_each (mgr_step K) (ops_of m' (x # xs)) (mgr_val s m') = for_each (mgr_step K) (ops_of m' xs) (mgr_val s1 m')" for m'
    using x v(1) h(3,5) by (cases "m' = m") (simp_all add: ops_of_def mgr_step_def)
  moreover have "h_step K x s = Some s1" using x h(1) by (simp add: h_step_def)
  ultimately show ?case using r by (intro exI [of _ s']) simp
qed

end

section \<open>Separation\<close>

text \<open>The cells a manager leads to: its queues, their quotas, and the maps of those.\<close>

datatype cell = QueueCell addr | QuotaCell addr | MapCell addr

inductive reaches :: "('q, 's, 'm) store \<Rightarrow> addr \<Rightarrow> cell \<Rightarrow> bool" for s :: "('q, 's, 'm) store" and m where
  queue: "owns s m n a \<Longrightarrow> reaches s m (QueueCell a)"
| quota: "reaches s m (QueueCell a) \<Longrightarrow> st_queue s a = Some q \<Longrightarrow> hq_quota q = Ptr b \<Longrightarrow> reaches s m (QuotaCell b)"
| res_map: "reaches s m (QuotaCell b) \<Longrightarrow> st_hquota s b = Some h \<Longrightarrow> c \<in> maps_of h \<Longrightarrow> reaches s m (MapCell c)"

inductive_cases reaches_QueueE: "reaches s m (QueueCell a)"
inductive_cases reaches_QuotaE: "reaches s m (QuotaCell b)"
inductive_cases reaches_MapE: "reaches s m (MapCell c)"

lemma reaches_separate:
  assumes "store_ok s" and "reaches s m c" and "reaches s m' c"
  shows "m = m'"
  using assms(2,3)
proof (induction c)
  case (queue n a)
  then show ?case using store_okD(3) [OF assms(1)] by (blast elim: reaches_QueueE)
next
  case (quota a q b)
  from quota.prems obtain a' q' where "reaches s m' (QueueCell a')" "st_queue s a' = Some q'" "hq_quota q' = Ptr b"
    by (rule reaches_QuotaE)
  then show ?case using quota.IH quota.hyps cells_okD(5) [OF store_okD(1) [OF assms(1)], of a q a' q'] by simp
next
  case (res_map b h c)
  from res_map.prems obtain b' h' where "reaches s m' (QuotaCell b')" "st_hquota s b' = Some h'" "c \<in> maps_of h'"
    by (rule reaches_MapE)
  then show ?case using res_map.IH res_map.hyps maps_okD(6) [OF store_ok_maps [OF assms(1)], of b h b' h' c] by simp
qed

section \<open>Properties\<close>

lemma new_store_ok:
  "store_ok (snd (h_NewManager empty_store))" "fst (h_NewManager empty_store) = 0"
  "st_mgr (snd (h_NewManager empty_store)) = [0 \<mapsto> gm_make]" "mgr_val (snd (h_NewManager empty_store)) 0 = NewManager"
proof -
  obtain m s' where n: "new_mgr gm_make empty_store = (m, s' :: ('q, 's, 'm) store)"
    by (cases "new_mgr gm_make (empty_store :: ('q, 's, 'm) store)")
  have "map_ok (empty_store :: ('q, 's, 'm) store) gm_make" by (simp add: map_ok_def)
  from store_ok_new_mgr [OF store_ok_empty n this] n
  show "store_ok (snd (h_NewManager empty_store) :: ('q, 's, 'm) store)" by (simp add: h_NewManager_def)
qed (auto simp: h_NewManager_def new_mgr_def empty_store_def mgr_val_def NewManager_def gm_make_def)

text \<open>
  \<^verbatim>\<open>Used\<close> hands out the quota's own map: who keeps it sees what is counted later, although the quota's
  lock has been released. The status loop reads it that way.
\<close>

theorem Used_hands_out_the_live_map:
  "do { s \<leftarrow> for_each (h_step ref_kube) [(0, OpPut ''a'' NilP NilP zero_config)] (snd (h_NewManager empty_store));
        q \<leftarrow> h_GetByName 0 ''a'' s;
        b \<leftarrow> h_Queue_Quota q s;
        used \<leftarrow> h_Quota_Used b s;
        s' \<leftarrow> h_Quota_AddPodIfNotPresent ref_kube b [Ptr (ref_pod ''p'' ''a'' 1 500)] s;
        Some (map_val s used, map_val s' used) } = Some (Ptr [], Ptr [(''cpu'', 500), (''pods'', 1000)])"
  by code_simp

text \<open>
  C6. The snapshot a scheduling cycle takes shares no mutable state with the live manager, even
  though the code only copies pointers under the lock and clones the queues one by one. The snapshot
  is a new manager. Whatever sequence of operations follows, on the live manager and on the snapshot
  in any order, runs without a panic and leaves each of the two as if it had started from its own
  copy of the manager and had seen its own operations only; and no queue, no quota and no map of
  resources (\<^verbatim>\<open>used\<close> and \<^verbatim>\<open>max\<close> are Go maps behind pointers, and \<^verbatim>\<open>used\<close> is mutated in place) can ever be
  reached from both. The pods of the operations show the requests fixed for their identifiers.
\<close>

theorem snapshot_is_isolated:
  assumes "kube_laws K amount" and "store_ok s" and "m \<in> dom (st_mgr s)"
    and "\<forall>m' \<in> dom (st_mgr s). mgr_balanced K amount reqs (mgr_val s m')"
  shows "\<exists>snap s1. h_Manager_Clone K m s = Some (snap, s1) \<and> snap \<notin> dom (st_mgr s) \<and>
    (\<forall>xs. (\<forall>x \<in> set xs. fst x \<in> {m, snap} \<and> mgr_op_ok K reqs (snd x)) \<longrightarrow>
      (\<exists>s'. for_each (h_step K) xs s1 = Some s' \<and>
        for_each (mgr_step K) (ops_of m xs) (mgr_val s m) = Some (mgr_val s' m) \<and>
        for_each (mgr_step K) (ops_of snap xs) (mgr_val s m) = Some (mgr_val s' snap) \<and>
        (\<nexists>c. reaches s' m c \<and> reaches s' snap c)))"
proof -
  from assms(3) obtain M where M: "st_mgr s m = Some M" by blast
  have bal: "mgr_balanced K amount reqs (mgr_val s m)" using assms(3,4) by blast
  obtain snap s1 where c: "h_Manager_Clone K m s = Some (snap, s1)" "store_ok s1" "st_mgr s snap = None" "st_mgr s1 snap \<noteq> None"
    "mgr_val s1 snap = Manager_Clone K (mgr_val s m)"
    "\<And>m''. m'' \<noteq> snap \<Longrightarrow> mgr_val s1 m'' = mgr_val s m'' \<and> st_mgr s1 m'' = st_mgr s m''"
    by (rule h_Clone_refines [OF assms(2) M, of K]) blast
  have "m \<noteq> snap" using c(3) M by auto
  then have eq: "mgr_val s1 snap = mgr_val s m" "mgr_val s1 m = mgr_val s m" "m \<in> dom (st_mgr s1)" "snap \<in> dom (st_mgr s1)"
    using c(4-6) M kube_laws.Manager_Clone_eq [OF assms(1) bal] by auto
  have all: "\<forall>m' \<in> dom (st_mgr s1). mgr_balanced K amount reqs (mgr_val s1 m')"
    using assms(4) bal c(6) eq(1) by (metis domD domI)
  have "\<exists>s'. for_each (h_step K) xs s1 = Some s' \<and>
        for_each (mgr_step K) (ops_of m xs) (mgr_val s m) = Some (mgr_val s' m) \<and>
        for_each (mgr_step K) (ops_of snap xs) (mgr_val s m) = Some (mgr_val s' snap) \<and>
        (\<nexists>c. reaches s' m c \<and> reaches s' snap c)"
    if "\<forall>x \<in> set xs. fst x \<in> {m, snap} \<and> mgr_op_ok K reqs (snd x)" for xs
  proof -
    have "\<forall>x \<in> set xs. fst x \<in> dom (st_mgr s1) \<and> mgr_op_ok K reqs (snd x)" using that eq(3,4) by fastforce
    from kube_laws.h_steps_refine [OF assms(1) c(2) this all]
    obtain s' where "for_each (h_step K) xs s1 = Some s'" "store_ok s'"
      "\<forall>m \<in> dom (st_mgr s1). for_each (mgr_step K) (ops_of m xs) (mgr_val s1 m) = Some (mgr_val s' m)" by blast
    moreover from \<open>m \<noteq> snap\<close> reaches_separate [OF this(2)] have "\<nexists>c. reaches s' m c \<and> reaches s' snap c" by blast
    ultimately show ?thesis using eq by metis
  qed
  with c(1,3) show ?thesis by blast
qed

text \<open>A manager with a queue that counts a pod; the snapshot then counts a second pod while the live manager releases the first.\<close>

theorem snapshot_is_isolated_witness:
  "\<exists>s snap s1 s'. for_each (h_step ref_kube) [(0, OpPut ''a'' (Ptr [(''cpu'', 1000)]) NilP zero_config),
        (0, OpAddPod (Ptr (ref_pod ''p'' ''a'' 1 500)))] (snd (h_NewManager empty_store)) = Some s \<and>
    h_Manager_Clone ref_kube 0 s = Some (snap, s1) \<and>
    for_each (h_step ref_kube) [(snap, OpAddPod (Ptr (ref_pod ''r'' ''a'' 1 500))), (0, OpDeletePod (Ptr (ref_pod ''p'' ''a'' 1 500)))] s1 = Some s' \<and>
    Quota_Used (Queue_Quota (Manager_GetByName (mgr_val s' 0) ''a'')) = Ptr [(''cpu'', 0), (''pods'', 0)] \<and>
    Quota_Used (Queue_Quota (Manager_GetByName (mgr_val s' snap) ''a'')) = Ptr [(''cpu'', 1000), (''pods'', 2000)] \<and>
    (\<nexists>c. reaches s' 0 c \<and> reaches s' snap c)"
proof -
  let ?reqs = "\<lambda>u :: string. Ptr [(''cpu'', 500)] :: int resource_list"
  let ?p = "\<lambda>u. Ptr (ref_pod u ''a'' 1 500)" and ?s0 = "snd (h_NewManager empty_store) :: (int, ref_selector, ref_map) store"
  let ?used = "\<lambda>qm :: (int, ref_selector, ref_map) manager. Quota_Used (Queue_Quota (Manager_GetByName qm ''a''))"
  let ?init = "[(0, OpPut ''a'' (Ptr [(''cpu'', 1000)]) NilP zero_config), (0, OpAddPod (?p ''p''))]"
  let ?xs = "\<lambda>snap :: addr. [(snap, OpAddPod (?p ''r'')), (0, OpDeletePod (?p ''p''))]"
  have pods: "mgr_op_ok ref_kube ?reqs (OpAddPod (?p u))" "mgr_op_ok ref_kube ?reqs (OpDeletePod (?p u))" for u
    by (simp_all add: pod_ok_def ref_pod_requests_def ref_pod_def)
  have "\<forall>x \<in> set ?init. fst x \<in> dom (st_mgr ?s0) \<and> mgr_op_ok ref_kube ?reqs (snd x)"
    using pods by (simp add: new_store_ok(3) gm_wf_Ptr del: mgr_op_ok.simps(1,2))
  moreover have "\<forall>m' \<in> dom (st_mgr ?s0). mgr_balanced ref_kube ref_amount ?reqs (mgr_val ?s0 m')"
    by (auto simp: new_store_ok(3,4) mgr_balanced_new)
  ultimately obtain s where s: "for_each (h_step ref_kube) ?init ?s0 = Some s" "store_ok s" "dom (st_mgr s) = {0}"
    "for_each (mgr_step ref_kube) [OpPut ''a'' (Ptr [(''cpu'', 1000)]) NilP zero_config, OpAddPod (?p ''p'')] NewManager = Some (mgr_val s 0)" "mgr_balanced ref_kube ref_amount ?reqs (mgr_val s 0)"
    using ref_laws.h_steps_refine [OF new_store_ok(1), of ?init ?reqs] by (auto simp: new_store_ok(3,4) ops_of_def simp del: for_each.simps(2))
  from snapshot_is_isolated [OF ref_laws.kube_laws_axioms s(2), of 0 ?reqs] s(3,5) obtain snap s1 where
    c: "h_Manager_Clone ref_kube 0 s = Some (snap, s1)" "snap \<noteq> 0"
      "\<forall>xs. (\<forall>x \<in> set xs. fst x \<in> {0, snap} \<and> mgr_op_ok ref_kube ?reqs (snd x)) \<longrightarrow>
      (\<exists>s'. for_each (h_step ref_kube) xs s1 = Some s' \<and>
        for_each (mgr_step ref_kube) (ops_of 0 xs) (mgr_val s 0) = Some (mgr_val s' 0) \<and>
        for_each (mgr_step ref_kube) (ops_of snap xs) (mgr_val s 0) = Some (mgr_val s' snap) \<and>
        (\<nexists>c. reaches s' 0 c \<and> reaches s' snap c))"
    by auto
  from spec [OF c(3), of "?xs snap"] pods c(2) obtain s' where s': "for_each (h_step ref_kube) (?xs snap) s1 = Some s'"
    "for_each (mgr_step ref_kube) [OpDeletePod (?p ''p'')] (mgr_val s 0) = Some (mgr_val s' 0)"
    "for_each (mgr_step ref_kube) [OpAddPod (?p ''r'')] (mgr_val s 0) = Some (mgr_val s' snap)" "\<nexists>c. reaches s' 0 c \<and> reaches s' snap c"
    by (auto simp: ops_of_def simp del: for_each.simps(2) mgr_op_ok.simps(1,2))
  have "map_option ?used (for_each (mgr_step ref_kube) ([OpPut ''a'' (Ptr [(''cpu'', 1000)]) NilP zero_config, OpAddPod (?p ''p'')] @ [OpDeletePod (?p ''p'')]) NewManager) = Some (Ptr [(''cpu'', 0), (''pods'', 0)])"
    "map_option ?used (for_each (mgr_step ref_kube) ([OpPut ''a'' (Ptr [(''cpu'', 1000)]) NilP zero_config, OpAddPod (?p ''p'')] @ [OpAddPod (?p ''r'')]) NewManager) = Some (Ptr [(''cpu'', 1000), (''pods'', 2000)])"
    by code_simp+
  then have "?used (mgr_val s' 0) = Ptr [(''cpu'', 0), (''pods'', 0)]" "?used (mgr_val s' snap) = Ptr [(''cpu'', 1000), (''pods'', 2000)]"
    unfolding for_each_append s(4) using s'(2,3) by (simp_all del: for_each.simps)
  with s(1) c(1) s'(1,4) show ?thesis by blast
qed

end
