(* ===== verification/Concurrency.thy ===== *)
theory Concurrency
  imports StoreRefine
begin

text \<open>
  The queue manager under concurrent goroutines: the informers' event handlers, the scheduling
  cycle and the binding cycles call it at the same time.

  A goroutine runs its operation in sections that hold a lock (\<open>section_step\<close>): \<^verbatim>\<open>AddPodIfNotPresent\<close>
  and \<^verbatim>\<open>DeletePodIfPresent\<close> look the queue up under the manager's lock, read its quota under the
  queue's lock and change the quota under the quota's lock, with no lock held in between, while
  \<^verbatim>\<open>Put\<close>, \<^verbatim>\<open>Update\<close> and \<^verbatim>\<open>Delete\<close> hold the manager's lock throughout. Between two sections of one
  goroutine the others run theirs, in any order (\<open>conc_run\<close>).

  The specification is a manager whose operations take effect at one instant between their
  call and their return (\<open>atomic_run\<close>). The simulation shows that every run of the goroutines is
  a run of it: a pod operation takes effect when it changes the quota, unless the queue it looked
  up has been replaced or deleted meanwhile; then it took effect just before that.
\<close>

section \<open>Goroutines\<close>

datatype ('q, 's) pc =
    Idle
  | Called "('q, 's) mgr_op"
  | HasQueue "('q, 's) mgr_op" addr
  | HasQuota "('q, 's) mgr_op" "addr ptr"
  | Returning "mgr_error option"

definition lookup_section :: "addr \<Rightarrow> ('q, 's) mgr_op \<Rightarrow> 'q pod ptr \<Rightarrow> (string \<Rightarrow> mgr_error) \<Rightarrow> ('q, 's, 'm) store \<Rightarrow> ('q, 's) pc option" where
  "lookup_section m op pod err s = (case pod of
     NilP \<Rightarrow> Some (Returning None)
   | Ptr p \<Rightarrow> (case gm_get (pod_labels p) LabelKeyQueue of
       None \<Rightarrow> Some (Returning None)
     | Some queueName \<Rightarrow> do {
         q \<leftarrow> h_GetByName m queueName s;
         Some (case q of NilP \<Rightarrow> Returning (Some (err queueName)) | Ptr a \<Rightarrow> HasQueue op a) }))"

fun section_step :: "('q, 's, 'm) kube \<Rightarrow> addr \<Rightarrow> ('q, 's) pc \<Rightarrow> ('q, 's, 'm) store \<Rightarrow> (('q, 's, 'm) store \<times> ('q, 's) pc) option" where
  "section_step K m (Called (OpAddPod pod)) s =
     do { pc \<leftarrow> lookup_section m (OpAddPod pod) pod ErrAddPodToQuota s; Some (s, pc) }"
| "section_step K m (Called (OpDeletePod pod)) s =
     do { pc \<leftarrow> lookup_section m (OpDeletePod pod) pod ErrRemovePodFromQuota s; Some (s, pc) }"
| "section_step K m (HasQueue op a) s = do { quota \<leftarrow> h_Queue_Quota (Ptr a) s; Some (s, HasQuota op quota) }"
| "section_step K m (HasQuota (OpAddPod pod) quota) s =
     do { s' \<leftarrow> h_Quota_AddPodIfNotPresent K quota [pod] s; Some (s', Returning None) }"
| "section_step K m (HasQuota (OpDeletePod pod) quota) s =
     do { s' \<leftarrow> h_Quota_DeletePodIfPresent K quota [pod] s; Some (s', Returning None) }"
| "section_step K m (Called op) s = do { (s', err) \<leftarrow> h_apply K m op s; Some (s', Returning err) }"
| "section_step K m pc s = None"

record ('q, 's, 'm) conc =
  co_store :: "('q, 's, 'm) store"
  co_pc :: "nat \<Rightarrow> ('q, 's) pc"

datatype ('q, 's) call_event = Call nat "('q, 's) mgr_op" | Return nat "mgr_error option"

inductive conc_run :: "('q, 's, 'm) kube \<Rightarrow> addr \<Rightarrow> ('q, 's, 'm) conc \<Rightarrow> ('q, 's) call_event list \<Rightarrow> ('q, 's, 'm) conc \<Rightarrow> bool"
  for K :: "('q, 's, 'm) kube" and m :: addr and c0 :: "('q, 's, 'm) conc" where
  conc_start: "conc_run K m c0 [] c0"
| conc_call: "conc_run K m c0 h c \<Longrightarrow> co_pc c i = Idle \<Longrightarrow>
    conc_run K m c0 (h @ [Call i op]) (c\<lparr>co_pc := (co_pc c)(i := Called op)\<rparr>)"
| conc_section: "conc_run K m c0 h c \<Longrightarrow> section_step K m (co_pc c i) (co_store c) = Some (s', pc') \<Longrightarrow>
    conc_run K m c0 h \<lparr>co_store = s', co_pc = (co_pc c)(i := pc')\<rparr>"
| conc_return: "conc_run K m c0 h c \<Longrightarrow> co_pc c i = Returning r \<Longrightarrow>
    conc_run K m c0 (h @ [Return i r]) (c\<lparr>co_pc := (co_pc c)(i := Idle)\<rparr>)"

section \<open>The atomic manager\<close>

datatype ('q, 's) apc = AIdle | AWaiting "('q, 's) mgr_op" | ADone "mgr_error option"

record ('q, 's, 'm) atomic =
  at_mgr :: "('q, 's, 'm) manager"
  at_pc :: "nat \<Rightarrow> ('q, 's) apc"

inductive atomic_run :: "('q, 's, 'm) kube \<Rightarrow> ('q, 's, 'm) atomic \<Rightarrow> ('q, 's) call_event list \<Rightarrow> ('q, 's, 'm) atomic \<Rightarrow> bool"
  for K :: "('q, 's, 'm) kube" and a0 :: "('q, 's, 'm) atomic" where
  atomic_start: "atomic_run K a0 [] a0"
| atomic_call: "atomic_run K a0 h a \<Longrightarrow> at_pc a i = AIdle \<Longrightarrow>
    atomic_run K a0 (h @ [Call i op]) (a\<lparr>at_pc := (at_pc a)(i := AWaiting op)\<rparr>)"
| atomic_effect: "atomic_run K a0 h a \<Longrightarrow> at_pc a i = AWaiting op \<Longrightarrow> mgr_apply K op (at_mgr a) = Some (qm', r) \<Longrightarrow>
    atomic_run K a0 h \<lparr>at_mgr = qm', at_pc = (at_pc a)(i := ADone r)\<rparr>"
| atomic_return: "atomic_run K a0 h a \<Longrightarrow> at_pc a i = ADone r \<Longrightarrow>
    atomic_run K a0 (h @ [Return i r]) (a\<lparr>at_pc := (at_pc a)(i := AIdle)\<rparr>)"

section \<open>Simulation relation\<close>

fun op_pod :: "('q, 's) mgr_op \<Rightarrow> 'q pod ptr option" where
  "op_pod (OpAddPod pod) = Some pod"
| "op_pod (OpDeletePod pod) = Some pod"
| "op_pod _ = None"

text \<open>
  A pod operation between its sections: the queue it looked up is a cell of the store, and the
  operation has taken effect exactly if the name no longer leads to that queue.
\<close>

definition pod_pending :: "('q, 's, 'm) kube \<Rightarrow> (string \<Rightarrow> 'q resource_list) \<Rightarrow> addr \<Rightarrow> ('q, 's, 'm) store \<Rightarrow> ('q, 's) mgr_op \<Rightarrow> string \<Rightarrow> addr \<Rightarrow> ('q, 's) apc \<Rightarrow> bool" where
  "pod_pending K reqs m s op n a x \<longleftrightarrow> (\<exists>p. op_pod op = Some (Ptr p) \<and> pod_ok K reqs p \<and> pod_queue p = Some n) \<and>
     st_queue s a \<noteq> None \<and> (\<forall>n'. owns s m n' a \<longrightarrow> n' = n) \<and> x = (if owns s m n a then AWaiting op else ADone None)"

fun pc_sim :: "('q, 's, 'm) kube \<Rightarrow> (string \<Rightarrow> 'q resource_list) \<Rightarrow> addr \<Rightarrow> ('q, 's, 'm) store \<Rightarrow> ('q, 's) pc \<Rightarrow> ('q, 's) apc \<Rightarrow> bool" where
  "pc_sim K reqs m s Idle x \<longleftrightarrow> x = AIdle"
| "pc_sim K reqs m s (Called op) x \<longleftrightarrow> x = AWaiting op \<and> mgr_op_ok K reqs op"
| "pc_sim K reqs m s (HasQueue op a) x \<longleftrightarrow> (\<exists>n. pod_pending K reqs m s op n a x)"
| "pc_sim K reqs m s (HasQuota op r) x \<longleftrightarrow>
     (\<exists>n a q. st_queue s a = Some q \<and> hq_quota q = r \<and> pod_pending K reqs m s op n a x)"
| "pc_sim K reqs m s (Returning r) x \<longleftrightarrow> x = ADone r"

definition conc_sim :: "('q, 's, 'm) kube \<Rightarrow> ('q \<Rightarrow> rat) \<Rightarrow> (string \<Rightarrow> 'q resource_list) \<Rightarrow> addr \<Rightarrow> ('q, 's, 'm) conc \<Rightarrow> ('q, 's, 'm) atomic \<Rightarrow> bool" where
  "conc_sim K amount reqs m c a \<longleftrightarrow> store_ok (co_store c) \<and> m \<in> dom (st_mgr (co_store c)) \<and>
     at_mgr a = mgr_val (co_store c) m \<and> mgr_balanced K amount reqs (at_mgr a) \<and> finite {i. co_pc c i \<noteq> Idle} \<and>
     (\<forall>i. pc_sim K reqs m (co_store c) (co_pc c i) (at_pc a i))"

section \<open>Steps of the simulation\<close>

lemma pc_sim_mono:
  assumes "pc_sim K reqs m s pc x"
    and "\<And>a q. st_queue s a = Some q \<Longrightarrow> \<exists>q'. st_queue s' a = Some q' \<and> hq_quota q' = hq_quota q"
    and "\<And>n a q. st_queue s a = Some q \<Longrightarrow> owns s' m n a \<longleftrightarrow> owns s m n a"
  shows "pc_sim K reqs m s' pc x"
proof -
  have pending: "pod_pending K reqs m s op n a x \<Longrightarrow> pod_pending K reqs m s' op n a x" for op n a
    using assms(2,3) by (fastforce simp: pod_pending_def)
  show ?thesis
  proof (cases pc)
    case (HasQueue op a)
    then show ?thesis using assms(1) pending by auto
  next
    case (HasQuota op r)
    then obtain n a q where q: "st_queue s a = Some q" "hq_quota q = r" "pod_pending K reqs m s op n a x"
      using assms(1) by auto
    with assms(2) [OF q(1)] pending [OF q(3)] show ?thesis using HasQuota by auto
  qed (use assms(1) in simp_all)
qed

lemma pc_sim_wrote: "pc_sim K reqs m s pc x \<Longrightarrow> wrote b v s s' \<Longrightarrow> pc_sim K reqs m s' pc x"
  by (erule pc_sim_mono) (simp_all add: owns_def wrote_def)

text \<open>The last section of a pod operation, as a write to one quota.\<close>

lemma quota_section:
  assumes "section_step K m (HasQuota op (Ptr b)) s = Some (s', pc')" and "maps_ok s" and "st_quota s b = Some v" and "op_pod op = Some pod"
  obtains v' where "wrote b v' s s'" "pc' = Returning None"
    "Quota_AddPodIfNotPresent K (Ptr v) [pod] = Some (Ptr v') \<or> Quota_DeletePodIfPresent K (Ptr v) [pod] = Some (Ptr v')"
  using assms(1,4) h_Quota_pods_refine [OF assms(2,3), of K "[pod]"]
  by (cases op) (auto simp: option_rel_Some2 split: bind_splits)

lemma sections_compose:
  assumes "at_cell s m n a q b v" and "op_pod op = Some (Ptr p)" and "pod_queue p = Some n"
    and "section_step K m (HasQuota op (Ptr b)) s = Some (s', pc')"
  shows "h_apply K m op s = Some (s', None)"
  using assms at_cell_read [OF assms(1)]
  by (cases op) (auto simp: h_Manager_AddPodIfNotPresent_def h_Manager_DeletePodIfPresent_def pod_queue_def split: bind_splits)

lemma apply_pod_elsewhere:
  assumes "op_pod op = Some pod" and "\<And>p n. pod = Ptr p \<Longrightarrow> pod_queue p \<noteq> Some n"
  shows "mgr_apply K op qm = Some (qm, None)"
  using assms by (cases op; cases pod) (auto simp: Manager_AddPodIfNotPresent_def Manager_DeletePodIfPresent_def pod_queue_def
      split: option.split)

text \<open>On a queue that exists, a pod operation replaces that queue and reports no error.\<close>

lemma apply_pod_queue:
  assumes "op_pod op = Some (Ptr p)" and "pod_queue p = Some n" and "Manager_GetByName qm n \<noteq> NilP"
    and "mgr_apply K op qm = Some (qm', r)"
  shows "r = None \<and> (\<exists>y. mgr_store n (Ptr y) qm = Some qm')"
  using assms by (cases op; cases "Manager_GetByName qm n")
    (auto simp: Manager_AddPodIfNotPresent_def Manager_DeletePodIfPresent_def pod_queue_def split: bind_splits)

lemma mgr_store_twice: "mgr_store n y qm = Some qm' \<Longrightarrow> mgr_store n x qm' = mgr_store n x qm"
  by (auto simp: mgr_store_def gm_set_eq_Some update_update split: bind_splits)

lemma Manager_Delete_stored: "mgr_store n y qm = Some qm' \<Longrightarrow> Manager_Delete n qm' = Manager_Delete n qm"
  by (auto simp: mgr_store_def gm_set_eq_Some Manager_Delete_def delete_update_same split: bind_splits)

text \<open>Pod operations waiting on one queue can all take effect now.\<close>

definition same_but :: "string \<Rightarrow> ('q, 's, 'm) manager \<Rightarrow> ('q, 's, 'm) manager \<Rightarrow> bool" where
  "same_but n qm qm' \<longleftrightarrow> qm' = qm \<or> (\<exists>y. mgr_store n (Ptr y) qm = Some qm')"

lemma same_but_trans: "same_but n qm qm' \<Longrightarrow> mgr_store n (Ptr y) qm' = Some qm'' \<Longrightarrow> same_but n qm qm''"
  by (auto simp: same_but_def mgr_store_twice)

context kube_laws
begin

lemma waiting_take_effect:
  assumes "finite I" and "atomic_run K a0 h a" and "mgr_balanced K amount reqs (at_mgr a)"
    and "I \<noteq> {} \<Longrightarrow> Manager_GetByName (at_mgr a) n \<noteq> NilP"
    and "\<And>i. i \<in> I \<Longrightarrow> \<exists>op p. at_pc a i = AWaiting op \<and> op_pod op = Some (Ptr p) \<and> pod_ok K reqs p \<and> pod_queue p = Some n"
  shows "\<exists>a'. atomic_run K a0 h a' \<and> at_pc a' = (\<lambda>i. if i \<in> I then ADone None else at_pc a i) \<and>
    mgr_balanced K amount reqs (at_mgr a') \<and> same_but n (at_mgr a) (at_mgr a')"
  using assms(1,4,5)
proof (induction I rule: finite_induct)
  case empty
  then show ?case using assms(2,3) by (intro exI [of _ a]) (simp add: same_but_def)
next
  case (insert i I)
  then obtain a1 where a1: "atomic_run K a0 h a1" "at_pc a1 = (\<lambda>i. if i \<in> I then ADone None else at_pc a i)"
    "mgr_balanced K amount reqs (at_mgr a1)" "same_but n (at_mgr a) (at_mgr a1)" by auto
  from insert.prems(2) obtain op p where
    op: "at_pc a i = AWaiting op" "op_pod op = Some (Ptr p)" "pod_ok K reqs p" "pod_queue p = Some n" by blast
  then have "mgr_op_ok K reqs op" by (cases op) auto
  from mgr_apply_result [OF a1(3) this] obtain qm' r where
    qm': "mgr_apply K op (at_mgr a1) = Some (qm', r)" "mgr_balanced K amount reqs qm'" by blast
  have "Manager_GetByName (at_mgr a1) n \<noteq> NilP"
    using a1(4) insert.prems(1) by (auto simp: same_but_def GetByName_store)
  from apply_pod_queue [OF op(2,4) this qm'(1)] obtain y where
    r: "r = None" "mgr_store n (Ptr y) (at_mgr a1) = Some qm'" by blast
  have "at_pc a1 i = AWaiting op" using a1(2) op(1) insert.hyps(2) by simp
  from atomic_effect [OF a1(1) this qm'(1)] r same_but_trans [OF a1(4) r(2)] qm'(2) a1(2) show ?case
    by (intro exI [of _ "\<lparr>at_mgr = qm', at_pc = (at_pc a1)(i := ADone r)\<rparr>"]) auto
qed

end
lemma conc_simD:
  assumes "conc_sim K amount reqs m c a"
  shows "store_ok (co_store c)" and "\<exists>M. st_mgr (co_store c) m = Some M" and "at_mgr a = mgr_val (co_store c) m"
    and "mgr_balanced K amount reqs (at_mgr a)" and "finite {i. co_pc c i \<noteq> Idle}" and "pc_sim K reqs m (co_store c) (co_pc c i) (at_pc a i)"
  using assms by (auto simp: conc_sim_def)

lemma conc_simI:
  assumes "conc_sim K amount reqs m c a" and "store_ok s'" and "m \<in> dom (st_mgr s')" and "at_mgr a' = mgr_val s' m"
    and "mgr_balanced K amount reqs (at_mgr a')" and "pc_sim K reqs m s' pc' (at_pc a' i)"
    and "\<And>j. j \<noteq> i \<Longrightarrow> pc_sim K reqs m s' (co_pc c j) (at_pc a' j)"
  shows "conc_sim K amount reqs m \<lparr>co_store = s', co_pc = (co_pc c)(i := pc')\<rparr> a'"
proof -
  have "{j. ((co_pc c)(i := pc')) j \<noteq> Idle} \<subseteq> insert i {j. co_pc c j \<noteq> Idle}" by auto
  then have "finite {j. ((co_pc c)(i := pc')) j \<noteq> Idle}"
    using conc_simD(5) [OF assms(1)] by (meson finite_insert rev_finite_subset)
  with assms(2-) show ?thesis by (simp add: conc_sim_def)
qed

lemma conc_with_pc: "c\<lparr>co_pc := f\<rparr> = \<lparr>co_store = co_store c, co_pc = f\<rparr>"
  by simp

text \<open>A step of the goroutine that changes nothing of the manager and has no effect yet.\<close>

lemma sim_stutter:
  assumes "conc_sim K amount reqs m c a" and "atomic_run K a0 h a" and "pc_sim K reqs m (co_store c) pc' (at_pc a i)"
  shows "\<exists>a'. atomic_run K a0 h a' \<and> conc_sim K amount reqs m \<lparr>co_store = co_store c, co_pc = (co_pc c)(i := pc')\<rparr> a'"
  using assms conc_simD [OF assms(1)] by (intro exI [of _ a] conjI conc_simI [OF assms(1)]) auto

context kube_laws
begin

text \<open>A step in which the operation of the goroutine takes effect.\<close>

lemma sim_effect:
  assumes "conc_sim K amount reqs m c a" and "atomic_run K a0 h a" and "at_pc a i = AWaiting op" and "mgr_op_ok K reqs op"
    and "store_ok s'" and "m \<in> dom (st_mgr s')" and "mgr_apply K op (at_mgr a) = Some (mgr_val s' m, r)"
    and "\<And>j. j \<noteq> i \<Longrightarrow> pc_sim K reqs m s' (co_pc c j) (at_pc a j)"
  shows "\<exists>a'. atomic_run K a0 h a' \<and> conc_sim K amount reqs m \<lparr>co_store = s', co_pc = (co_pc c)(i := Returning r)\<rparr> a'"
proof -
  let ?a' = "\<lparr>at_mgr = mgr_val s' m, at_pc = (at_pc a)(i := ADone r)\<rparr>"
  have "mgr_balanced K amount reqs (mgr_val s' m)"
    using mgr_apply_result [OF conc_simD(4) [OF assms(1)] assms(4)] assms(7) by auto
  then have "conc_sim K amount reqs m \<lparr>co_store = s', co_pc = (co_pc c)(i := Returning r)\<rparr> ?a'"
    using assms(5,6,8) by (intro conc_simI [OF assms(1)]) auto
  with atomic_effect [OF assms(2,3,7)] show ?thesis by blast
qed

lemma sim_lookup:
  assumes sim: "conc_sim K amount reqs m c a" and run: "atomic_run K a0 h a" and pc: "co_pc c i = Called op"
    and pod: "op_pod op = Some pod" and step: "section_step K m (Called op) (co_store c) = Some (s', pc')"
  shows "\<exists>a'. atomic_run K a0 h a' \<and> conc_sim K amount reqs m \<lparr>co_store = s', co_pc = (co_pc c)(i := pc')\<rparr> a'"
proof -
  let ?s = "co_store c"
  note d = conc_simD [OF sim]
  from d(2) obtain M where M: "st_mgr ?s m = Some M" by blast
  from d(6) [of i] pc have wait: "at_pc a i = AWaiting op" and ok: "mgr_op_ok K reqs op" by simp_all
  from step pod obtain err where s': "s' = ?s" and look: "lookup_section m op pod err ?s = Some pc'"
    and err: "\<And>p n. pod = Ptr p \<Longrightarrow> pod_queue p = Some n \<Longrightarrow> Manager_GetByName (at_mgr a) n = NilP \<Longrightarrow>
      mgr_apply K op (at_mgr a) = Some (at_mgr a, Some (err n))"
    by (cases op) (auto simp: Manager_AddPodIfNotPresent_def Manager_DeletePodIfPresent_def pod_queue_def split: bind_splits)
  note effect = sim_effect [OF sim run wait ok d(1)]
  show ?thesis
  proof (cases "\<exists>p n. pod = Ptr p \<and> pod_queue p = Some n")
    case False
    with look have "pc' = Returning None"
      by (auto simp: lookup_section_def pod_queue_def split: ptr.splits option.splits)
    moreover have "mgr_apply K op (at_mgr a) = Some (mgr_val ?s m, None)"
      using apply_pod_elsewhere [OF pod, of K "at_mgr a"] False d(3) by auto
    ultimately show ?thesis using effect [of None] M d(6) s' by auto
  next
    case True
    then obtain p n where p: "pod = Ptr p" "pod_queue p = Some n" by blast
    from at_cell_cases [OF d(1) M, of n] show ?thesis
    proof cases
      case (1 b q qa v)
      from look p at_cell_read(1) [OF 1] have "pc' = HasQueue op b" by (simp add: lookup_section_def pod_queue_def)
      moreover have "pod_pending K reqs m ?s op n b (AWaiting op)"
        using 1 p pod ok store_okD(3) [OF d(1), of m n b m] by (cases op) (auto simp: pod_pending_def at_cell_def)
      ultimately show ?thesis using sim_stutter [OF sim run, of pc' i] s' wait by auto
    next
      case 2
      with look p have "pc' = Returning (Some (err n))" by (simp add: lookup_section_def pod_queue_def)
      moreover have "mgr_apply K op (at_mgr a) = Some (mgr_val ?s m, Some (err n))"
        using err [OF p] 2(2) d(3) by simp
      ultimately show ?thesis using effect [of "Some (err n)"] M d(6) s' by auto
    qed
  qed
qed

lemma sim_quota:
  assumes sim: "conc_sim K amount reqs m c a" and run: "atomic_run K a0 h a" and pc: "co_pc c i = HasQuota op r"
    and step: "section_step K m (HasQuota op r) (co_store c) = Some (s', pc')"
  shows "\<exists>a'. atomic_run K a0 h a' \<and> conc_sim K amount reqs m \<lparr>co_store = s', co_pc = (co_pc c)(i := pc')\<rparr> a'"
proof -
  let ?s = "co_store c"
  note d = conc_simD [OF sim]
  from d(6) [of i] pc obtain n qa q p where q: "st_queue ?s qa = Some q" "hq_quota q = r"
    and p: "op_pod op = Some (Ptr p)" "pod_ok K reqs p" "pod_queue p = Some n"
    and x: "at_pc a i = (if owns ?s m n qa then AWaiting op else ADone None)" and only: "\<And>n'. owns ?s m n' qa \<Longrightarrow> n' = n"
    by (auto simp: pod_pending_def)
  from store_ok_queue [OF d(1) q(1)] q(2) obtain b v where b: "r = Ptr b" "st_quota ?s b = Some v" by metis
  from quota_section [OF step [unfolded b(1)] store_ok_maps [OF d(1)] b(2) p(1)] obtain v' where
    s': "wrote b v' ?s s'" "pc' = Returning None" .
  have ok': "store_ok s'" and dom': "m \<in> dom (st_mgr s')" using store_ok_wrote [OF d(1) s'(1)] wroteD(4) [OF s'(1)] d(2) by auto
  have others: "pc_sim K reqs m s' (co_pc c j) (at_pc a j)" for j
    using pc_sim_wrote [OF d(6) s'(1)] .
  show ?thesis
  proof (cases "owns ?s m n qa")
    case True
    have cell: "at_cell ?s m n qa q b v" using True q b by (simp add: at_cell_def)
    have ok: "mgr_op_ok K reqs op" using p by (cases op) auto
    from mgr_apply_result [OF d(4) ok] obtain qm' err where
      ap: "mgr_apply K op (mgr_val ?s m) = Some (qm', err)" using d(3) by auto
    from d(2) obtain M where M: "st_mgr ?s m = Some M" by blast
    have "h_apply K m op ?s = Some (s', None)" using sections_compose [OF cell p(1,3)] step b(1) by simp
    with h_apply_refines [OF d(1) M ap] ap have "mgr_apply K op (at_mgr a) = Some (mgr_val s' m, None)" using d(3) by auto
    then show ?thesis using sim_effect [OF sim run _ ok ok' dom'] others s'(2) x True by simp
  next
    case False
    have "\<not> owns ?s m n' qa" for n' using False only by blast
    then have "mgr_val s' m = mgr_val ?s m" using mgr_val_wrote(2) [OF d(1) q(1) _ s'(1)] q(2) b(1) by blast
    then have "conc_sim K amount reqs m \<lparr>co_store = s', co_pc = (co_pc c)(i := pc')\<rparr> a"
      using others ok' dom' d s'(2) x False by (intro conc_simI [OF sim]) auto
    with run show ?thesis by blast
  qed
qed

end
text \<open>
  A name is given another queue, or none. The pod operations that had looked the old queue up take
  effect first, all at once; nothing of that survives.
\<close>

fun mid_op :: "('q, 's) pc \<Rightarrow> ('q, 's) mgr_op option" where
  "mid_op (HasQueue op a) = Some op"
| "mid_op (HasQuota op r) = Some op"
| "mid_op _ = None"

definition waits_on :: "string \<Rightarrow> ('q, 's) pc \<Rightarrow> ('q, 's) apc \<Rightarrow> bool" where
  "waits_on n pc x \<longleftrightarrow> (\<exists>op p. mid_op pc = Some op \<and> x = AWaiting op \<and> op_pod op = Some (Ptr p) \<and> pod_queue p = Some n)"

lemma pod_pending_replaced:
  assumes "pod_pending K reqs m s op n' a x" and "\<And>a q. st_queue s a = Some q \<Longrightarrow> st_queue s' a = Some q"
    and "\<And>n' a. n' \<noteq> n \<Longrightarrow> owns s' m n' a \<longleftrightarrow> owns s m n' a" and "\<And>a q. st_queue s a = Some q \<Longrightarrow> \<not> owns s' m n a"
    and "mid_op pc = Some op"
  shows "pod_pending K reqs m s' op n' a (if waits_on n pc x then ADone None else x)"
proof -
  from assms(1) obtain p q where p: "op_pod op = Some (Ptr p)" "pod_ok K reqs p" "pod_queue p = Some n'" and q: "st_queue s a = Some q"
    and only: "\<And>n''. owns s m n'' a \<Longrightarrow> n'' = n'" and x: "x = (if owns s m n' a then AWaiting op else ADone None)"
    by (auto simp: pod_pending_def)
  have "n'' = n'" if "owns s' m n'' a" for n''
    using that only assms(3) [of n'' a] assms(4) [OF q] by (cases "n'' = n") auto
  moreover have "owns s' m n' a \<longleftrightarrow> n' \<noteq> n \<and> owns s m n' a" using assms(3) [of n' a] assms(4) [OF q] by auto
  moreover have "waits_on n pc x \<longleftrightarrow> n' = n \<and> owns s m n' a" using p x assms(5) by (auto simp: waits_on_def)
  ultimately show ?thesis using p x assms(2) [OF q] by (auto simp: pod_pending_def)
qed

lemma pc_sim_replaced:
  assumes "pc_sim K reqs m s pc x" and "\<And>a q. st_queue s a = Some q \<Longrightarrow> st_queue s' a = Some q"
    and "\<And>n' a. n' \<noteq> n \<Longrightarrow> owns s' m n' a \<longleftrightarrow> owns s m n' a" and "\<And>a q. st_queue s a = Some q \<Longrightarrow> \<not> owns s' m n a"
  shows "pc_sim K reqs m s' pc (if waits_on n pc x then ADone None else x)"
proof (cases pc)
  case (HasQueue op a)
  with assms(1) obtain n' where n': "pod_pending K reqs m s op n' a x" by auto
  have "pod_pending K reqs m s' op n' a (if waits_on n pc x then ADone None else x)"
    by (rule pod_pending_replaced [OF n']) (use assms(2-4) HasQueue in auto)
  then show ?thesis using HasQueue by auto
next
  case (HasQuota op r)
  with assms(1) obtain n' a q where q: "st_queue s a = Some q" "hq_quota q = r" "pod_pending K reqs m s op n' a x" by auto
  have "pod_pending K reqs m s' op n' a (if waits_on n pc x then ADone None else x)"
    by (rule pod_pending_replaced [OF q(3)]) (use assms(2-4) HasQuota in auto)
  with assms(2) [OF q(1)] q(2) show ?thesis unfolding HasQuota pc_sim.simps by blast
qed (use assms(1) in \<open>simp_all add: waits_on_def\<close>)

lemma waits_on_owned:
  assumes "pc_sim K reqs m s pc x" and "waits_on n pc x"
  shows "pc \<noteq> Idle" and "\<exists>a q. owns s m n a \<and> st_queue s a = Some q"
    and "\<exists>op p. x = AWaiting op \<and> op_pod op = Some (Ptr p) \<and> pod_ok K reqs p \<and> pod_queue p = Some n"
  using assms by (cases pc; auto simp: waits_on_def pod_pending_def split: if_splits)+

context kube_laws
begin

lemma sim_replace:
  assumes sim: "conc_sim K amount reqs m c a" and run: "atomic_run K a0 h a" and pc: "co_pc c i = Called op"
    and ok': "store_ok s'" and dom': "m \<in> dom (st_mgr s')"
    and cells: "\<And>a q. st_queue (co_store c) a = Some q \<Longrightarrow> st_queue s' a = Some q"
    and own: "\<And>n' a. n' \<noteq> n \<Longrightarrow> owns s' m n' a \<longleftrightarrow> owns (co_store c) m n' a"
    and gone: "\<And>a q. st_queue (co_store c) a = Some q \<Longrightarrow> \<not> owns s' m n a"
    and ap: "\<And>qm'. same_but n (mgr_val (co_store c) m) qm' \<Longrightarrow> mgr_apply K op qm' = Some (mgr_val s' m, None)"
  shows "\<exists>a'. atomic_run K a0 h a' \<and> conc_sim K amount reqs m \<lparr>co_store = s', co_pc = (co_pc c)(i := Returning None)\<rparr> a'"
proof -
  note d = conc_simD [OF sim]
  let ?I = "{j. waits_on n (co_pc c j) (at_pc a j)}"
  note w = waits_on_owned [OF d(6), of n]
  have fin: "finite ?I" by (rule finite_subset [OF _ d(5)]) (use w(1) in auto)
  have "Manager_GetByName (at_mgr a) n \<noteq> NilP" if "?I \<noteq> {}"
    using that w(2) GetByName_owned d(3) by (fastforce simp: queue_val_cell)
  from waiting_take_effect [OF fin run d(4) this] w(3) obtain a1 where
    a1: "atomic_run K a0 h a1" "at_pc a1 = (\<lambda>j. if j \<in> ?I then ADone None else at_pc a j)"
      "mgr_balanced K amount reqs (at_mgr a1)" "same_but n (at_mgr a) (at_mgr a1)" by blast
  have i: "at_pc a1 i = AWaiting op" "mgr_op_ok K reqs op" using d(6) [of i] pc a1(2) by (auto simp: waits_on_def)
  have eff: "mgr_apply K op (at_mgr a1) = Some (mgr_val s' m, None)" using ap a1(4) d(3) by simp
  let ?a' = "\<lparr>at_mgr = mgr_val s' m, at_pc = (at_pc a1)(i := ADone None)\<rparr>"
  have "mgr_balanced K amount reqs (mgr_val s' m)" using mgr_apply_result [OF a1(3) i(2)] eff by auto
  moreover have "pc_sim K reqs m s' (co_pc c j) (at_pc a1 j)" for j
  proof -
    have "pc_sim K reqs m s' (co_pc c j) (if waits_on n (co_pc c j) (at_pc a j) then ADone None else at_pc a j)"
      by (rule pc_sim_replaced [OF d(6)]) (use cells own gone in auto)
    then show ?thesis using a1(2) by simp
  qed
  ultimately have "conc_sim K amount reqs m \<lparr>co_store = s', co_pc = (co_pc c)(i := Returning None)\<rparr> ?a'"
    using ok' dom' by (intro conc_simI [OF sim]) auto
  with atomic_effect [OF a1(1) i(1) eff] show ?thesis by blast
qed

lemma sim_queue_op:
  assumes sim: "conc_sim K amount reqs m c a" and run: "atomic_run K a0 h a" and pc: "co_pc c i = Called op"
    and pod: "op_pod op = None" and step: "section_step K m (Called op) (co_store c) = Some (s', pc')"
  shows "\<exists>a'. atomic_run K a0 h a' \<and> conc_sim K amount reqs m \<lparr>co_store = s', co_pc = (co_pc c)(i := pc')\<rparr> a'"
proof -
  let ?s = "co_store c"
  note d = conc_simD [OF sim]
  from d(2) obtain M where M: "st_mgr ?s m = Some M" by blast
  note ext = extends_cells(1) [OF store_okD(1) [OF d(1)]]
  show ?thesis
  proof (cases op)
    case (OpPut n mx lbls cfg)
    show ?thesis
    proof (rule h_Put_refines [OF d(1) M, of mx K n lbls cfg])
      fix s1
      assume p: "with_max mx (\<lambda>mp. h_Manager_Put K m n (h_spec_opts mp lbls cfg)) ?s = Some s1" "store_ok s1" "extends ?s s1"
        "Manager_Put K n (spec_opts mx lbls cfg) (mgr_val ?s m) = Some (mgr_val s1 m)" "dom (st_mgr s1) = dom (st_mgr ?s)"
        "\<And>n' a. n' \<noteq> n \<Longrightarrow> owns s1 m n' a = owns ?s m n' a" "\<And>a q. st_queue ?s a = Some q \<Longrightarrow> \<not> owns s1 m n a"
      have "mgr_apply K op qm' = Some (mgr_val s1 m, None)" if "same_but n (mgr_val ?s m) qm'" for qm'
        using that p(4) OpPut by (auto simp: same_but_def Manager_Put_def mgr_store_twice)
      moreover have "s' = s1" "pc' = Returning None" using step p(1) OpPut by auto
      moreover have "\<exists>a'. atomic_run K a0 h a' \<and> conc_sim K amount reqs m \<lparr>co_store = s1, co_pc = (co_pc c)(i := Returning None)\<rparr> a'"
        by (rule sim_replace [OF sim run pc p(2), of n]) (use ext [OF p(3)] p(5-7) M calculation(1) in auto)
      ultimately show ?thesis by simp
    qed
  next
    case (OpUpdate n mx lbls cfg)
    show ?thesis
    proof (rule h_Update_refines [OF d(1) M, of mx K n lbls cfg])
      fix s1
      assume p: "with_max mx (\<lambda>mp. h_Manager_Update K m n (h_spec_opts mp lbls cfg)) ?s = Some s1" "store_ok s1"
        "Manager_Update K n (spec_opts mx lbls cfg) (mgr_val ?s m) = Some (mgr_val s1 m)" "dom (st_mgr s1) = dom (st_mgr ?s)"
        "\<And>n' a q. st_queue ?s a = Some q \<Longrightarrow> owns s1 m n' a = owns ?s m n' a"
        "\<And>a q. st_queue ?s a = Some q \<Longrightarrow> \<exists>q'. st_queue s1 a = Some q' \<and> hq_quota q' = hq_quota q"
      have "s' = s1" "pc' = Returning None" using step p(1) OpUpdate by auto
      moreover have "at_pc a i = AWaiting op" "mgr_op_ok K reqs op" using d(6) [of i] pc by simp_all
      moreover have "mgr_apply K op (at_mgr a) = Some (mgr_val s1 m, None)" using p(3) d(3) OpUpdate by simp
      moreover have "m \<in> dom (st_mgr s1)" using p(4) M by auto
      moreover have "pc_sim K reqs m s1 (co_pc c j) (at_pc a j)" for j
        by (rule pc_sim_mono [OF d(6)]) (use p(5,6) in auto)
      ultimately show ?thesis using sim_effect [OF sim run _ _ p(2)] by blast
    qed
  next
    case (OpDelete n)
    show ?thesis
    proof (rule h_Delete_refines [OF d(1) M, of n])
      fix s1
      assume p: "h_Manager_Delete m n ?s = Some s1" "store_ok s1" "extends ?s s1"
        "mgr_val s1 m = Manager_Delete n (mgr_val ?s m)" "dom (st_mgr s1) = dom (st_mgr ?s)"
        "\<And>n' a. owns s1 m n' a = (n' \<noteq> n \<and> owns ?s m n' a)"
      have "mgr_apply K op qm' = Some (mgr_val s1 m, None)" if "same_but n (mgr_val ?s m) qm'" for qm'
        using that p(4) OpDelete by (auto simp: same_but_def Manager_Delete_stored)
      moreover have "s' = s1" "pc' = Returning None" using step p(1) OpDelete by auto
      moreover have "\<exists>a'. atomic_run K a0 h a' \<and> conc_sim K amount reqs m \<lparr>co_store = s1, co_pc = (co_pc c)(i := Returning None)\<rparr> a'"
        by (rule sim_replace [OF sim run pc p(2), of n]) (use ext [OF p(3)] p(5,6) M calculation(1) in auto)
      ultimately show ?thesis by simp
    qed
  qed (use pod in simp_all)
qed

text \<open>Every section of every goroutine is a step of the atomic manager, or several, or none.\<close>

lemma sim_section:
  assumes sim: "conc_sim K amount reqs m c a" and run: "atomic_run K a0 h a"
    and step: "section_step K m (co_pc c i) (co_store c) = Some (s', pc')"
  shows "\<exists>a'. atomic_run K a0 h a' \<and> conc_sim K amount reqs m \<lparr>co_store = s', co_pc = (co_pc c)(i := pc')\<rparr> a'"
proof (cases "co_pc c i")
  case (Called op)
  then show ?thesis using sim_lookup [OF sim run Called] sim_queue_op [OF sim run Called] step by (cases "op_pod op") auto
next
  case (HasQueue op qa)
  note d = conc_simD [OF sim]
  from d(6) [of i] HasQueue obtain n where n: "pod_pending K reqs m (co_store c) op n qa (at_pc a i)" by auto
  then obtain q where q: "st_queue (co_store c) qa = Some q" by (auto simp: pod_pending_def)
  with step HasQueue have "s' = co_store c" "pc' = HasQuota op (hq_quota q)" by (auto simp: h_Queue_Quota_def)
  then show ?thesis using sim_stutter [OF sim run, of pc' i] n q by auto
next
  case (HasQuota op r)
  then show ?thesis using sim_quota [OF sim run HasQuota] step by simp
qed (use step in simp_all)

lemma sim_run:
  assumes "conc_run K m c0 h c" and "conc_sim K amount reqs m c0 a0" and "\<forall>i op. Call i op \<in> set h \<longrightarrow> mgr_op_ok K reqs op"
  shows "\<exists>a. atomic_run K a0 h a \<and> conc_sim K amount reqs m c a"
  using assms(1,3)
proof (induction rule: conc_run.induct)
  case conc_start
  then show ?case using assms(2) atomic_start by blast
next
  case (conc_call h c i op)
  then obtain a where a: "atomic_run K a0 h a" "conc_sim K amount reqs m c a" by auto
  note d = conc_simD [OF a(2)]
  have "at_pc a i = AIdle" using d(6) [of i] conc_call.hyps(2) by simp
  note run = atomic_call [OF a(1) this, of op]
  have "conc_sim K amount reqs m \<lparr>co_store = co_store c, co_pc = (co_pc c)(i := Called op)\<rparr> (a\<lparr>at_pc := (at_pc a)(i := AWaiting op)\<rparr>)"
    using d conc_call.prems by (intro conc_simI [OF a(2)]) auto
  with run show ?case unfolding conc_with_pc by blast
next
  case (conc_section h c i s' pc')
  then show ?case using sim_section by blast
next
  case (conc_return h c i r)
  then obtain a where a: "atomic_run K a0 h a" "conc_sim K amount reqs m c a" by auto
  note d = conc_simD [OF a(2)]
  have "at_pc a i = ADone r" using d(6) [of i] conc_return.hyps(2) by simp
  note run = atomic_return [OF a(1) this]
  have "conc_sim K amount reqs m \<lparr>co_store = co_store c, co_pc = (co_pc c)(i := Idle)\<rparr> (a\<lparr>at_pc := (at_pc a)(i := AIdle)\<rparr>)"
    using d by (intro conc_simI [OF a(2)]) auto
  with run show ?case unfolding conc_with_pc by blast
qed

end
section \<open>No section panics\<close>

definition quotas_ok :: "('q, 's, 'm) kube \<Rightarrow> ('q \<Rightarrow> rat) \<Rightarrow> (string \<Rightarrow> 'q resource_list) \<Rightarrow> ('q, 's, 'm) store \<Rightarrow> bool" where
  "quotas_ok K amount reqs s \<longleftrightarrow> (\<forall>b v. st_quota s b = Some v \<longrightarrow> quota_balanced K amount reqs v)"

lemma quotas_ok_wrote:
  "quotas_ok K amount reqs s \<Longrightarrow> wrote b v s s' \<Longrightarrow> quota_balanced K amount reqs v \<Longrightarrow> quotas_ok K amount reqs s'"
  by (auto simp: quotas_ok_def wrote_def)

context kube_laws
begin

lemma quotas_ok_section:
  assumes "quotas_ok K amount reqs s" and "section_step K m pc s = Some (s', pc')" and "pc_sim K reqs m s pc x"
    and "store_ok s" and "st_mgr s m = Some M"
  shows "quotas_ok K amount reqs s'"
proof (cases pc)
  case (Called op)
  have new: "quota_balanced K amount reqs \<lparr>quota_max = mx, quota_used = gm_make, quota_podsByID = imm_New K\<rparr>" if "gm_wf mx" for mx
    using NewQuota_balanced [OF that, of reqs] by (auto simp: NewQuota_def)
  have old: "quota_balanced K amount reqs v" if "st_quota s b = Some v" for b v
    using that assms(1) by (simp add: quotas_ok_def)
  show ?thesis
  proof (cases op)
    case (OpPut n mx lbls cfg)
    then have wf: "gm_wf mx" using Called assms(3) by simp
    have "quotas_ok K amount reqs s1" if "\<And>b v. st_quota s1 b = Some v \<Longrightarrow> st_quota s b = Some v \<or>
        v = \<lparr>quota_max = mx, quota_used = gm_make, quota_podsByID = imm_New K\<rparr>" for s1
      unfolding quotas_ok_def using that new [OF wf] old by blast
    then show ?thesis
      by - (rule h_Put_refines [OF assms(4,5), of mx K n lbls cfg], use OpPut Called assms(2) in auto)
  next
    case (OpUpdate n mx lbls cfg)
    then have wf: "gm_wf mx" using Called assms(3) by simp
    have "quotas_ok K amount reqs s1" if "\<And>b v. st_quota s1 b = Some v \<Longrightarrow> st_quota s b = Some v \<or>
        v = \<lparr>quota_max = mx, quota_used = gm_make, quota_podsByID = imm_New K\<rparr> \<or> (\<exists>v0. st_quota s b = Some v0 \<and> v = v0\<lparr>quota_max := mx\<rparr>)" for s1
      unfolding quotas_ok_def using that new [OF wf] old SetMax_balanced [OF old wf] by blast
    then show ?thesis
      by - (rule h_Update_refines [OF assms(4,5), of mx K n lbls cfg], use OpUpdate Called assms(2) in auto)
  next
    case (OpDelete n)
    then show ?thesis using Called assms by (auto simp: h_Manager_Delete_def quotas_ok_def split: bind_splits)
  qed (use Called assms in \<open>auto split: bind_splits\<close>)
next
  case (HasQuota op r)
  with assms(3) obtain qa q p where q: "st_queue s qa = Some q" "hq_quota q = r" and p: "op_pod op = Some (Ptr p)" "pod_ok K reqs p"
    by (auto simp: pod_pending_def)
  from store_ok_queue [OF assms(4) q(1)] q(2) obtain b v where b: "r = Ptr b" "st_quota s b = Some v" by metis
  from quota_section [OF assms(2) [unfolded HasQuota b(1)] store_ok_maps [OF assms(4)] b(2) p(1)] obtain v' where
    v': "wrote b v' s s'" "Quota_AddPodIfNotPresent K (Ptr v) [Ptr p] = Some (Ptr v') \<or> Quota_DeletePodIfPresent K (Ptr v) [Ptr p] = Some (Ptr v')" .
  have bal: "quota_balanced K amount reqs v" using assms(1) b(2) by (simp add: quotas_ok_def)
  have "quota_balanced K amount reqs v'"
    using v'(2) Quota_Add_balanced [OF bal, of "[p]"] Quota_Delete_balanced [OF bal, of "[p]"] p(2) by auto
  with quotas_ok_wrote [OF assms(1) v'(1)] show ?thesis .
qed (use assms in \<open>auto split: bind_splits\<close>)

lemma section_defined:
  assumes "conc_sim K amount reqs m c a" and "quotas_ok K amount reqs (co_store c)"
    and "co_pc c i \<noteq> Idle" and "\<And>r. co_pc c i \<noteq> Returning r"
  shows "\<exists>s' pc'. section_step K m (co_pc c i) (co_store c) = Some (s', pc')"
proof -
  note d = conc_simD [OF assms(1)]
  from d(2) obtain M where M: "st_mgr (co_store c) m = Some M" by blast
  show ?thesis
  proof (cases "co_pc c i")
    case (Called op)
    with d(6) [of i] have "mgr_op_ok K reqs op" by simp
    from mgr_apply_result [OF d(4) this] h_apply_refines [OF d(1) M, of K op] d(3) have
      ap: "\<exists>s' err. h_apply K m op (co_store c) = Some (s', err)" by fastforce
    show ?thesis using Called ap M
      by (cases op) (auto simp: lookup_section_def h_GetByName_def split: ptr.split option.split bind_splits)
  next
    case (HasQueue op qa)
    with d(6) [of i] show ?thesis by (auto simp: pod_pending_def h_Queue_Quota_def)
  next
    case (HasQuota op r)
    with d(6) [of i] obtain qa q p where q: "st_queue (co_store c) qa = Some q" "hq_quota q = r"
      and p: "op_pod op = Some (Ptr p)" "pod_ok K reqs p" by (auto simp: pod_pending_def)
    from store_ok_queue [OF d(1) q(1)] q(2) obtain b v where b: "r = Ptr b" "st_quota (co_store c) b = Some v" by metis
    then have bal: "quota_balanced K amount reqs v" using assms(2) by (simp add: quotas_ok_def)
    from Quota_Add_balanced [OF bal, of "[p]"] Quota_Delete_balanced [OF bal, of "[p]"] p b(1) HasQuota
      h_Quota_pods_refine [OF store_ok_maps [OF d(1)] b(2), of K "[Ptr p]"] show ?thesis
      by (cases op) (auto simp: option_rel_Some1)
  qed (use assms(3,4) in auto)
qed

lemma quotas_ok_run:
  assumes "conc_run K m c0 h c" and "conc_sim K amount reqs m c0 a0" and "quotas_ok K amount reqs (co_store c0)"
    and "\<forall>i op. Call i op \<in> set h \<longrightarrow> mgr_op_ok K reqs op"
  shows "quotas_ok K amount reqs (co_store c)"
  using assms(1,4)
proof (induction rule: conc_run.induct)
  case (conc_section h c i s' pc')
  from sim_run [OF conc_section.hyps(1) assms(2) conc_section.prems] obtain a where "conc_sim K amount reqs m c a" by blast
  note d = conc_simD [OF this]
  with quotas_ok_section [OF _ conc_section.hyps(2) d(6) d(1)] conc_section show ?case by auto
qed (use assms(3) in auto)

end

section \<open>Schedules\<close>

text \<open>An execution is determined by the order in which the goroutines take their steps.\<close>

datatype ('q, 's) sched = DoCall nat "('q, 's) mgr_op" | DoSection nat | DoReturn nat

fun sched_step :: "('q, 's, 'm) kube \<Rightarrow> addr \<Rightarrow> ('q, 's) sched \<Rightarrow> ('q, 's, 'm) conc \<times> ('q, 's) call_event list \<Rightarrow> (('q, 's, 'm) conc \<times> ('q, 's) call_event list) option" where
  "sched_step K m (DoCall i op) (c, h) = (case co_pc c i of
     Idle \<Rightarrow> Some (c\<lparr>co_pc := (co_pc c)(i := Called op)\<rparr>, h @ [Call i op]) | _ \<Rightarrow> None)"
| "sched_step K m (DoSection i) (c, h) = do {
     (s', pc') \<leftarrow> section_step K m (co_pc c i) (co_store c);
     Some (\<lparr>co_store = s', co_pc = (co_pc c)(i := pc')\<rparr>, h) }"
| "sched_step K m (DoReturn i) (c, h) = (case co_pc c i of
     Returning r \<Rightarrow> Some (c\<lparr>co_pc := (co_pc c)(i := Idle)\<rparr>, h @ [Return i r]) | _ \<Rightarrow> None)"

lemma sched_run: "for_each (sched_step K m) xs (c, h) = Some (c', h') \<Longrightarrow> conc_run K m c0 h c \<Longrightarrow> conc_run K m c0 h' c'"
proof (induction xs arbitrary: c h)
  case (Cons x xs)
  then obtain c1 h1 where x: "sched_step K m x (c, h) = Some (c1, h1)" "for_each (sched_step K m) xs (c1, h1) = Some (c', h')"
    by (auto split: bind_splits)
  have "conc_run K m c0 h1 c1"
    using x(1) Cons.prems(2) by (cases x) (auto split: pc.splits bind_splits intro: conc_run.intros)
  then show ?case using Cons.IH x(2) by blast
qed simp

definition conc_init :: "('q, 's, 'm) conc" where
  "conc_init = \<lparr>co_store = snd (h_NewManager empty_store), co_pc = (\<lambda>_. Idle)\<rparr>"

definition atomic_init :: "('q, 's, 'm) atomic" where
  "atomic_init = \<lparr>at_mgr = NewManager, at_pc = (\<lambda>_. AIdle)\<rparr>"

lemma init_sim: "conc_sim K amount reqs 0 conc_init atomic_init" "quotas_ok K amount reqs (co_store conc_init)"
proof -
  show "conc_sim K amount reqs 0 conc_init atomic_init"
    by (simp add: conc_sim_def conc_init_def atomic_init_def new_store_ok mgr_balanced_new)
  show "quotas_ok K amount reqs (co_store conc_init)"
    by (simp add: quotas_ok_def conc_init_def h_NewManager_def new_mgr_def empty_store_def st_quota_def)
qed

section \<open>Properties\<close>

text \<open>
  C5. The queue manager is linearizable: however its callers interleave between the sections
  that hold a lock, what they see (the order of calls and returns, and every error returned) is
  what a manager would show whose operations each take effect at one instant between call and
  return, and the queues it holds are the same. This includes a pod counted in a queue that is
  replaced or deleted while the pod is being counted. No section panics: a goroutine that has not
  returned can always go on.
\<close>

theorem manager_is_linearizable:
  assumes "kube_laws K amount" and "conc_run K 0 conc_init h c" and "\<forall>i op. Call i op \<in> set h \<longrightarrow> mgr_op_ok K reqs op"
  shows "(\<exists>a. atomic_run K atomic_init h a \<and> at_mgr a = mgr_val (co_store c) 0) \<and>
    (\<forall>i. co_pc c i = Idle \<or> (\<exists>r. co_pc c i = Returning r) \<or>
      (\<exists>s' pc'. section_step K 0 (co_pc c i) (co_store c) = Some (s', pc')))"
proof -
  from kube_laws.sim_run [OF assms(1,2) init_sim(1) assms(3)] obtain a where
    a: "atomic_run K atomic_init h a" "conc_sim K amount reqs 0 c a" by blast
  have "quotas_ok K amount reqs (co_store c)"
    using kube_laws.quotas_ok_run [OF assms(1,2) init_sim(1) init_sim(2) assms(3)] .
  with kube_laws.section_defined [OF assms(1) a(2)] a conc_simD(3) [OF a(2)] show ?thesis by blast
qed

text \<open>
  Goroutine 1 looks up the queue of a pod, goroutine 2 replaces that queue, goroutine 1 goes on:
  its call returns no error and the pod is not counted.
\<close>

definition replaced_schedule :: "(int, ref_selector) sched list" where
  "replaced_schedule =
     [DoCall 0 (OpPut ''a'' NilP NilP zero_config), DoSection 0, DoReturn 0,
      DoCall 1 (OpAddPod (Ptr (ref_pod ''p'' ''a'' 1 500))), DoSection 1,
      DoCall 2 (OpPut ''a'' NilP NilP zero_config), DoSection 2, DoReturn 2,
      DoSection 1, DoSection 1, DoReturn 1]"

definition replaced_history :: "(int, ref_selector) call_event list" where
  "replaced_history =
     [Call 0 (OpPut ''a'' NilP NilP zero_config), Return 0 None,
      Call 1 (OpAddPod (Ptr (ref_pod ''p'' ''a'' 1 500))),
      Call 2 (OpPut ''a'' NilP NilP zero_config), Return 2 None, Return 1 None]"

lemma replaced_schedule_result:
  "case for_each (sched_step ref_kube 0) replaced_schedule (conc_init, []) of
     None \<Rightarrow> False
   | Some (c, h) \<Rightarrow> h = replaced_history \<and>
       Quota_ContainsPod ref_kube (Queue_Quota (Manager_GetByName (mgr_val (co_store c) 0) ''a''))
         (Ptr (ref_pod ''p'' ''a'' 1 500)) = Some False"
  by code_simp

theorem manager_is_linearizable_witness:
  "\<exists>c a. conc_run ref_kube 0 conc_init replaced_history c \<and> atomic_run ref_kube atomic_init replaced_history a \<and>
    Quota_ContainsPod ref_kube (Queue_Quota (Manager_GetByName (at_mgr a) ''a'')) (Ptr (ref_pod ''p'' ''a'' 1 500)) = Some False"
proof -
  from replaced_schedule_result obtain c where
    c: "for_each (sched_step ref_kube 0) replaced_schedule (conc_init, []) = Some (c, replaced_history)"
      "Quota_ContainsPod ref_kube (Queue_Quota (Manager_GetByName (mgr_val (co_store c) 0) ''a''))
         (Ptr (ref_pod ''p'' ''a'' 1 500)) = Some False"
    by (auto split: option.splits)
  note run = sched_run [OF c(1) conc_start]
  have "pod_ok ref_kube (\<lambda>u. Ptr [(''cpu'', 500)]) (ref_pod ''p'' ''a'' 1 500)"
    by (simp add: pod_ok_def ref_pod_requests_def ref_pod_def)
  then have "\<forall>i op. Call i op \<in> set replaced_history \<longrightarrow> mgr_op_ok ref_kube (\<lambda>u. Ptr [(''cpu'', 500)]) op"
    by (auto simp: replaced_history_def)
  from manager_is_linearizable [OF ref_laws.kube_laws_axioms run this] c(2) run show ?thesis by metis
qed

end
