(* ===== verification/ConcurrentClone.thy ===== *)
theory ConcurrentClone
  imports Concurrency
begin

text \<open>
  A snapshot taken while others use the manager. \<^verbatim>\<open>Clone\<close> copies the map of pointers under the manager's
  lock and then clones the queues one by one, each under its own lock; between two of these sections
  the other goroutines go on (\<open>clone_run\<close>), so that the queues of a snapshot need not stem from the
  same instant. What the scheduling cycle relies on still holds: each queue of the snapshot is as it
  was at one instant of the cloning, its usage is that of the pods it counts, nobody else can reach
  it, and the callers of the live manager notice nothing.
\<close>

section \<open>Cloning among other goroutines\<close>

datatype clone_phase = Copying "(string \<times> addr ptr) list" "(string \<times> addr ptr) list" | Cloned addr

text \<open>
  \<open>Copying built todo\<close>: the copy of the map, and its entries still to be replaced. The stores
  recorded are those at instants of the cloning.
\<close>

inductive clone_run :: "('q, 's, 'm) kube \<Rightarrow> addr \<Rightarrow> ('q, 's, 'm) conc \<Rightarrow> ('q, 's) call_event list \<Rightarrow> ('q, 's, 'm) store list \<Rightarrow>
    ('q, 's, 'm) conc \<Rightarrow> clone_phase \<Rightarrow> bool"
  for K :: "('q, 's, 'm) kube" and m :: addr and c0 :: "('q, 's, 'm) conc" where
  clone_start: "st_mgr (co_store c0) m = Some (Ptr es) \<Longrightarrow> clone_run K m c0 [] [co_store c0] c0 (Copying es es)"
| clone_others: "clone_run K m c0 h ss c (Copying built todo) \<Longrightarrow> conc_run K m c h' c' \<Longrightarrow>
    clone_run K m c0 (h @ h') (ss @ [co_store c']) c' (Copying built todo)"
| clone_next: "clone_run K m c0 h ss c (Copying built (e # todo)) \<Longrightarrow>
    clone_entry K e (built, co_store c) = Some (built', s') \<Longrightarrow>
    clone_run K m c0 h (ss @ [s']) (c\<lparr>co_store := s'\<rparr>) (Copying built' todo)"
| clone_done: "clone_run K m c0 h ss c (Copying built []) \<Longrightarrow> new_mgr (Ptr built) (co_store c) = (snap, s') \<Longrightarrow>
    clone_run K m c0 h ss (c\<lparr>co_store := s'\<rparr>) (Cloned snap)"
| clone_later: "clone_run K m c0 h ss c (Cloned snap) \<Longrightarrow> conc_run K m c h' c' \<Longrightarrow>
    clone_run K m c0 (h @ h') ss c' (Cloned snap)"

section \<open>Cells the other goroutines cannot reach\<close>

fun holds :: "('q, 's, 'm) store \<Rightarrow> ('q, 's) pc \<Rightarrow> addr \<Rightarrow> bool" where
  "holds s (HasQueue op a) x \<longleftrightarrow> a = x"
| "holds s (HasQuota op r) x \<longleftrightarrow> (\<exists>q. st_queue s x = Some q \<and> hq_quota q = r)"
| "holds s _ x \<longleftrightarrow> False"

definition unshared :: "addr \<Rightarrow> ('q, 's, 'm) conc \<Rightarrow> addr \<Rightarrow> bool" where
  "unshared m c x \<longleftrightarrow> st_queue (co_store c) x \<noteq> None \<and> (\<forall>n. \<not> owns (co_store c) m n x) \<and>
     (\<forall>i. \<not> holds (co_store c) (co_pc c i) x)"

text \<open>Queues stay where they are, other managers keep their maps, and queues that are not shared are not touched.\<close>

definition cells_kept :: "('q, 's, 'm) store \<Rightarrow> ('q, 's, 'm) store \<Rightarrow> bool" where
  "cells_kept s s' \<longleftrightarrow> (\<forall>x q. st_queue s x = Some q \<longrightarrow>
     (\<exists>q'. st_queue s' x = Some q' \<and> hq_name q' = hq_name q \<and> hq_quota q' = hq_quota q))"

definition frame :: "addr \<Rightarrow> ('q, 's, 'm) conc \<Rightarrow> ('q, 's, 'm) conc \<Rightarrow> bool" where
  "frame m c c' \<longleftrightarrow> cells_kept (co_store c) (co_store c') \<and>
     (\<forall>m'. m' \<noteq> m \<longrightarrow> st_mgr (co_store c') m' = st_mgr (co_store c) m') \<and>
     (\<forall>x. unshared m c x \<longrightarrow> unshared m c' x \<and> queue_val (co_store c') (Ptr x) = queue_val (co_store c) (Ptr x))"

lemma frame_refl: "frame m c c"
  by (simp add: frame_def cells_kept_def)

lemma cells_kept_trans: "cells_kept s s' \<Longrightarrow> cells_kept s' s'' \<Longrightarrow> cells_kept s s''"
  unfolding cells_kept_def by metis

lemma frameD:
  assumes "frame m c c'"
  shows "cells_kept (co_store c) (co_store c')" and "m' \<noteq> m \<Longrightarrow> st_mgr (co_store c') m' = st_mgr (co_store c) m'"
    and "unshared m c x \<Longrightarrow> unshared m c' x" and "unshared m c x \<Longrightarrow> queue_val (co_store c') (Ptr x) = queue_val (co_store c) (Ptr x)"
  using assms unfolding frame_def by blast+

lemma frame_trans:
  assumes "frame m c c'" and "frame m c' c''"
  shows "frame m c c''"
  unfolding frame_def
proof (intro conjI allI impI)
  show "cells_kept (co_store c) (co_store c'')" using cells_kept_trans frameD(1) assms by blast
  show "st_mgr (co_store c'') m' = st_mgr (co_store c) m'" if "m' \<noteq> m" for m'
    using frameD(2) [OF assms(1) that] frameD(2) [OF assms(2) that] by (rule trans [rotated])
  show "unshared m c'' x" if "unshared m c x" for x using frameD(3) that assms by blast
  show "queue_val (co_store c'') (Ptr x) = queue_val (co_store c) (Ptr x)" if "unshared m c x" for x
    using frameD(4) [OF assms(1) that] frameD(4) [OF assms(2) frameD(3) [OF assms(1) that]] by (rule trans [rotated])
qed

lemma extends_kept: "cells_ok s \<Longrightarrow> extends s s' \<Longrightarrow> cells_kept s s'"
  using extends_cells(1) [of s s'] unfolding cells_kept_def by blast

text \<open>What an operation on the map leaves alone.\<close>

definition op_frame :: "addr \<Rightarrow> ('q, 's, 'm) store \<Rightarrow> ('q, 's, 'm) store \<Rightarrow> bool" where
  "op_frame m s s' \<longleftrightarrow> cells_kept s s' \<and> (\<forall>m'. m' \<noteq> m \<longrightarrow> st_mgr s' m' = st_mgr s m') \<and>
     (\<forall>x q. st_queue s x = Some q \<longrightarrow> (\<forall>n. \<not> owns s m n x) \<longrightarrow>
        st_queue s' x = Some q \<and> queue_val s' (Ptr x) = queue_val s (Ptr x) \<and> (\<forall>n. \<not> owns s' m n x))"

lemma op_frame_extends:
  assumes "store_ok s" and "extends s s'" and "\<And>m'. m' \<noteq> m \<Longrightarrow> st_mgr s' m' = st_mgr s m'"
    and "\<And>x q n. st_queue s x = Some q \<Longrightarrow> owns s' m n x \<Longrightarrow> owns s m n x"
  shows "op_frame m s s'"
  using extends_cells [OF store_okD(1) [OF assms(1)] assms(2)] extends_kept [OF store_okD(1) [OF assms(1)] assms(2)] assms(3,4)
  unfolding op_frame_def by blast

lemma put_frame:
  fixes s :: "('q, 's, 'm) store"
  assumes "store_ok s" and "spare s mp"
    and "do { (a, s1) \<leftarrow> h_Queue_New K n (h_spec_opts mp lbls cfg) s; h_mgr_store m n (Ptr a) s1 } = Some s'"
  shows "op_frame m s s'"
proof (rule h_Queue_New_spec [OF assms(1,2), of K n lbls cfg])
  fix a s1 q
  assume new: "h_Queue_New K n (h_spec_opts mp lbls cfg) s = Some (a, s1)" "extends s s1" "st_mgr s1 = st_mgr s" "st_queue s a = None"
  from assms(3) new(1,3) obtain M M' where M: "st_mgr s m = Some M" "gm_set M n (Ptr a) = Some M'" "s' = set_mgr m M' s1"
    by (auto simp: h_mgr_store_def split: bind_splits)
  show ?thesis
  proof (rule op_frame_extends [OF assms(1)])
    show "extends s s'" using new(2) M(3) by (simp add: extends_def)
    show "st_mgr s' m' = st_mgr s m'" if "m' \<noteq> m" for m' using that M(3) new(3) by simp
    show "owns s m n' x" if "st_queue s x = Some q'" "owns s' m n' x" for x q' n'
      using that M new(4) by (auto simp: owns_def gm_get_set [OF M(2)] split: if_splits)
  qed
qed

lemma update_frame:
  fixes s :: "('q, 's, 'm) store"
  assumes "store_ok s" and "st_mgr s m = Some M" and "spare s mp" and "h_Manager_Update K m n (h_spec_opts mp lbls cfg) s = Some s'"
  shows "op_frame m s s'"
proof (rule at_cell_cases [OF assms(1,2), of n])
  assume "h_GetByName m n s = Some NilP"
  then show ?thesis using assms(4) put_frame [OF assms(1,3), of K n lbls cfg m s'] by (simp add: h_Manager_Update_def h_spec_opts_def)
next
  fix a q b v
  assume c: "at_cell s m n a q b v"
  then have a: "owns s m n a" "st_queue s a = Some q" "hq_quota q = Ptr b" "st_quota s b = Some v" by (simp_all add: at_cell_def)
  from st_quota_hquota [OF a(4)] obtain h where h: "st_hquota s b = Some h" by blast
  have "h_Manager_Update K m n (h_spec_opts mp lbls cfg) s = h_ApplyOpts (Ptr a) (h_spec_opts mp lbls cfg) s"
    using at_cell_read(1) [OF c] by (simp add: h_Manager_Update_def) (simp add: h_spec_opts_def)
  with assms(4) h_ApplyOpts_spec [OF a(2,3) h] have
    s': "s' = set_queue a (respec_hqueue lbls cfg q) (set_hquota b (h\<lparr>hqt_max := mp\<rparr>) s)" by simp
  note quota = respec_cell(4) [OF assms(1) c h assms(3), of lbls cfg, folded s']
  have "cells_kept s s'" using a by (auto simp: cells_kept_def s' respec_hqueue_def)
  moreover have "queue_val s' (Ptr x) = queue_val s (Ptr x)" if "x \<noteq> a" for x
    using that cells_okD(5) [OF store_okD(1) [OF assms(1)] a(2)] a(3) quota by (intro queue_val_agree) (auto simp: s')
  ultimately show ?thesis using a(1) unfolding op_frame_def by (auto simp: s' owns_def)
qed

text \<open>The map the caller makes for a maximum is not noticed.\<close>

lemma with_max_frame:
  assumes "store_ok s" and "with_max mx f s = Some s'" and "\<And>mp s1. store_ok s1 \<Longrightarrow> spare s1 mp \<Longrightarrow> st_mgr s1 = st_mgr s \<Longrightarrow> f mp s1 = Some s' \<Longrightarrow> op_frame m s1 s'"
  shows "op_frame m s s'"
proof -
  obtain mp s1 where n: "new_map mx s = (mp, s1)" by (cases "new_map mx s")
  note w = with_max_new [OF assms(1) n]
  have "f mp s1 = Some s'" using assms(2) unfolding w(1) .
  with assms(3) [OF w(2,3,8)] have "op_frame m s1 s'" .
  moreover have "queue_val s1 = queue_val s"
    by (rule ext) (simp add: queue_val_def quota_val_def w(6,7) split: ptr.split option.split)
  ultimately show ?thesis by (simp add: op_frame_def cells_kept_def w(6,8,9))
qed

lemma queue_op_frame:
  assumes "store_ok s" and "st_mgr s m = Some M" and "op_pod op = None" and "h_apply K m op s = Some (s', err)"
  shows "op_frame m s s'"
proof (cases op)
  case (OpPut n mx lbls cfg)
  then have "with_max mx (\<lambda>mp. h_Manager_Put K m n (h_spec_opts mp lbls cfg)) s = Some s'" using assms(4) by (auto split: bind_splits)
  then show ?thesis by (rule with_max_frame [OF assms(1)]) (simp add: h_Manager_Put_def put_frame)
next
  case (OpUpdate n mx lbls cfg)
  then have "with_max mx (\<lambda>mp. h_Manager_Update K m n (h_spec_opts mp lbls cfg)) s = Some s'" using assms(4) by (auto split: bind_splits)
  then show ?thesis by (rule with_max_frame [OF assms(1)]) (use assms(2) update_frame in fastforce)
next
  case (OpDelete n)
  then have s': "s' = set_mgr m (gm_delete M n) s" using assms(2,4) by (auto simp: h_Manager_Delete_def)
  show ?thesis
    by (rule op_frame_extends [OF assms(1)])
      (use assms(2) in \<open>auto simp: s' extends_def owns_def gm_get_delete split: if_splits\<close>)
qed (use assms(3) in simp_all)

section \<open>Sections of the other goroutines\<close>

lemma frameI:
  assumes "op_frame m (co_store c) s'"
    and "\<And>x q. st_queue (co_store c) x = Some q \<Longrightarrow> unshared m c x \<Longrightarrow> \<not> holds s' pc' x"
  shows "frame m c \<lparr>co_store = s', co_pc = (co_pc c)(i := pc')\<rparr>"
proof -
  have "unshared m \<lparr>co_store = s', co_pc = (co_pc c)(i := pc')\<rparr> x \<and> queue_val s' (Ptr x) = queue_val (co_store c) (Ptr x)"
    if x: "unshared m c x" for x
  proof -
    from x obtain q where q: "st_queue (co_store c) x = Some q" by (auto simp: unshared_def)
    with x assms(1) have s': "st_queue s' x = Some q" "queue_val s' (Ptr x) = queue_val (co_store c) (Ptr x)" "\<And>n. \<not> owns s' m n x"
      unfolding op_frame_def unshared_def by blast+
    have "holds s' pc x = holds (co_store c) pc x" for pc using s'(1) q by (cases pc) auto
    with x s' assms(2) [OF q x] show ?thesis by (auto simp: unshared_def)
  qed
  then show ?thesis using assms(1) by (simp add: frame_def op_frame_def)
qed

lemma op_frame_refl: "op_frame m s s"
  by (simp add: op_frame_def cells_kept_def)

lemma frame_pc: "(\<And>x. \<not> holds (co_store c) pc' x) \<Longrightarrow> frame m c \<lparr>co_store = co_store c, co_pc = (co_pc c)(i := pc')\<rparr>"
  by (rule frameI [OF op_frame_refl]) blast

lemma lookup_section_result:
  assumes "lookup_section m op pod err s = Some pc'"
  shows "(\<exists>r. pc' = Returning r) \<or> (\<exists>n a. pc' = HasQueue op a \<and> owns s m n a)"
proof (cases "\<exists>p n. pod = Ptr p \<and> gm_get (pod_labels p) LabelKeyQueue = Some n")
  case True
  then obtain p n where p: "pod = Ptr p" "gm_get (pod_labels p) LabelKeyQueue = Some n" by blast
  with assms obtain M where M: "st_mgr s m = Some M" "pc' = (case opt_ptr (gm_get M n) of NilP \<Rightarrow> Returning (Some (err n)) | Ptr a \<Rightarrow> HasQueue op a)"
    by (auto simp: lookup_section_def h_GetByName_def split: bind_splits)
  show ?thesis
  proof (cases "opt_ptr (gm_get M n)")
    case (Ptr a)
    then have "gm_get M n = Some (Ptr a)" by (cases "gm_get M n") (auto simp: opt_ptr_def)
    then show ?thesis using M Ptr by (auto simp: owns_def)
  qed (use M in simp)
qed (use assms in \<open>auto simp: lookup_section_def split: ptr.splits option.splits\<close>)

lemma pod_lookup:
  assumes "op_pod op = Some pod" and "section_step K m (Called op) s = Some (s', pc')"
  shows "\<exists>err. lookup_section m op pod err s = Some pc' \<and> s' = s"
  using assms by (cases op) (auto split: bind_splits)

lemma frame_quota:
  assumes sim: "conc_sim K amount reqs m c a" and pc: "co_pc c i = HasQuota op r"
    and step: "section_step K m (HasQuota op r) (co_store c) = Some (s', pc')"
  shows "frame m c \<lparr>co_store = s', co_pc = (co_pc c)(i := pc')\<rparr>"
proof -
  let ?s = "co_store c"
  note d = conc_simD [OF sim]
  from d(6) [of i] pc obtain y qy p where y: "st_queue ?s y = Some qy" "hq_quota qy = r" and p: "op_pod op = Some (Ptr p)"
    by (auto simp: pod_pending_def)
  from store_ok_queue [OF d(1) y(1)] y(2) obtain b v where b: "r = Ptr b" "st_quota ?s b = Some v" by metis
  from quota_section [OF step [unfolded b(1)] store_ok_maps [OF d(1)] b(2) p] obtain v' where
    s': "wrote b v' ?s s'" "pc' = Returning None" .
  note w = wroteD [OF s'(1)]
  have val: "queue_val s' (Ptr x) = queue_val ?s (Ptr x)" if "x \<noteq> y" for x
    using queue_val_wrote(2) [OF d(1) y(1) _ s'(1) that] b(1) y(2) by simp
  have "unshared m \<lparr>co_store = s', co_pc = (co_pc c)(i := pc')\<rparr> x \<and> queue_val s' (Ptr x) = queue_val ?s (Ptr x)"
    if x: "unshared m c x" for x
  proof -
    have "\<not> holds ?s (co_pc c i) x" using x by (simp add: unshared_def)
    then have "x \<noteq> y" using pc y by auto
    moreover have "holds s' pc x = holds ?s pc x" for pc using w(3) by (cases pc) auto
    ultimately show ?thesis using x val s'(2) w(3,4) by (auto simp: unshared_def owns_def)
  qed
  then show ?thesis using w(3,4) by (simp add: frame_def cells_kept_def)
qed

lemma frame_section:
  assumes sim: "conc_sim K amount reqs m c a" and step: "section_step K m (co_pc c i) (co_store c) = Some (s', pc')"
  shows "frame m c \<lparr>co_store = s', co_pc = (co_pc c)(i := pc')\<rparr>"
proof (cases "co_pc c i")
  case (Called op)
  let ?s = "co_store c"
  note d = conc_simD [OF sim]
  from d(2) obtain M where M: "st_mgr ?s m = Some M" by blast
  show ?thesis
  proof (cases "op_pod op")
    case None
    then obtain err where "h_apply K m op ?s = Some (s', err)" "pc' = Returning err"
      using step Called by (cases op) (auto split: bind_splits)
    with queue_op_frame [OF d(1) M None] show ?thesis by (intro frameI) auto
  next
    case (Some pod)
    from pod_lookup [OF this step [unfolded Called]] obtain err where
      l: "lookup_section m op pod err ?s = Some pc'" "s' = ?s" by blast
    have "\<not> holds ?s pc' x" if "unshared m c x" for x
      using lookup_section_result [OF l(1)] that by (auto simp: unshared_def)
    then show ?thesis using frameI [OF op_frame_refl, where c = c and pc' = pc' and i = i and m = m] l(2) by simp
  qed
next
  case (HasQueue op y)
  note d = conc_simD [OF sim]
  from d(6) [of i] HasQueue obtain qy where y: "st_queue (co_store c) y = Some qy" by (auto simp: pod_pending_def)
  with step HasQueue have s': "s' = co_store c" "pc' = HasQuota op (hq_quota qy)" by (auto simp: h_Queue_Quota_def)
  have "\<not> holds (co_store c) pc' x" if x: "unshared m c x" for x
  proof -
    have "\<not> holds (co_store c) (co_pc c i) x" using x by (simp add: unshared_def)
    then have "x \<noteq> y" using HasQueue by simp
    then show ?thesis using cells_okD(5) [OF store_okD(1) [OF d(1)] y] s'(2) by auto
  qed
  then show ?thesis using frameI [OF op_frame_refl, where c = c and pc' = pc' and i = i and m = m] s'(1) by simp
next
  case (HasQuota op r)
  then show ?thesis using frame_quota [OF sim HasQuota] step by simp
qed (use step in simp_all)

context kube_laws
begin

lemma frame_run:
  assumes "conc_run K m c0 h c" and "conc_sim K amount reqs m c0 a0" and "\<forall>i op. Call i op \<in> set h \<longrightarrow> mgr_op_ok K reqs op"
  shows "frame m c0 c"
  using assms(1,3)
proof (induction rule: conc_run.induct)
  case conc_start
  show ?case by (rule frame_refl)
next
  case (conc_call h c i op)
  then have "frame m c0 c" by auto
  then show ?case unfolding conc_with_pc by (rule frame_trans) (rule frame_pc, simp)
next
  case (conc_section h c i s' pc')
  from sim_run [OF conc_section.hyps(1) assms(2) conc_section.prems] obtain a where "conc_sim K amount reqs m c a" by blast
  from frame_section [OF this conc_section.hyps(2)] conc_section.IH [OF conc_section.prems] show ?case by (rule frame_trans [rotated])
next
  case (conc_return h c i r)
  then have "frame m c0 c" by auto
  then show ?case unfolding conc_with_pc by (rule frame_trans) (rule frame_pc, simp)
qed

end

section \<open>Steps of the clone\<close>

text \<open>New cells, and maps of new managers, are not noticed by the goroutines.\<close>

lemma sim_extend:
  assumes "conc_sim K amount reqs m c a" and "store_ok s'" and "extends (co_store c) s'" and "st_mgr s' m = st_mgr (co_store c) m"
  shows "conc_sim K amount reqs m (c\<lparr>co_store := s'\<rparr>) a"
proof -
  note d = conc_simD [OF assms(1)]
  have "pc_sim K reqs m s' (co_pc c i) (at_pc a i)" for i
  proof (rule pc_sim_mono [OF d(6)])
    show "\<exists>q'. st_queue s' y = Some q' \<and> hq_quota q' = hq_quota q" if "st_queue (co_store c) y = Some q" for y q
      using extends_cells(1) [OF store_okD(1) [OF d(1)] assms(3) that] by simp
  qed (simp add: owns_def assms(4))
  then show ?thesis using d assms(2,4) extends_mgr_val [OF d(1) assms(3,4)] by (auto simp: conc_sim_def)
qed

lemma frame_extend:
  assumes "store_ok (co_store c)" and "extends (co_store c) s'" and "st_mgr s' = st_mgr (co_store c)"
  shows "frame m c (c\<lparr>co_store := s'\<rparr>)"
proof -
  have "op_frame m (co_store c) s'" by (rule op_frame_extends [OF assms(1,2)]) (use assms(3) in \<open>simp_all add: owns_def\<close>)
  from frameI [OF this, where pc' = "co_pc c 0" and i = 0] have "frame m c \<lparr>co_store = s', co_pc = (co_pc c)(0 := co_pc c 0)\<rparr>"
    if "\<And>x q. st_queue (co_store c) x = Some q \<Longrightarrow> unshared m c x \<Longrightarrow> \<not> holds s' (co_pc c 0) x" using that by blast
  moreover have "\<not> holds s' (co_pc c 0) x" if "st_queue (co_store c) x = Some q" "unshared m c x" for x q
  proof -
    have "st_queue s' x = st_queue (co_store c) x" using extends_cells(1) [OF store_okD(1) [OF assms(1)] assms(2) that(1)] that(1) by simp
    then have "holds s' (co_pc c 0) x = holds (co_store c) (co_pc c 0) x" by (cases "co_pc c 0") auto
    then show ?thesis using that(2) by (simp add: unshared_def)
  qed
  ultimately have "frame m c \<lparr>co_store = s', co_pc = co_pc c\<rparr>" by simp
  then show ?thesis by (cases c) simp
qed

lemma new_cell_unshared:
  assumes "conc_sim K amount reqs m c a" and "store_ok s'" and "extends (co_store c) s'" and "st_mgr s' = st_mgr (co_store c)"
    and "st_next (co_store c) \<le> x" and "st_queue s' x = Some q"
  shows "unshared m (c\<lparr>co_store := s'\<rparr>) x" and "\<not> owns s' m' n x"
proof -
  note d = conc_simD [OF assms(1)]
  have fresh: "st_queue (co_store c) x = None" using cells_okD(2) [OF store_okD(1) [OF d(1)] assms(5)] .
  show own: "\<not> owns s' m' n x" for m' n
    using owned_cell [OF d(1), of m' n x] fresh assms(4) by (auto simp: owns_def)
  have "\<not> holds s' (co_pc c i) x" for i
  proof
    assume h: "holds s' (co_pc c i) x"
    then obtain y qy where y: "st_queue (co_store c) y = Some qy" "y = x \<or> hq_quota qy = hq_quota q"
      using d(6) [of i] assms(6) by (cases "co_pc c i") (auto simp: pod_pending_def)
    have "st_queue s' y = Some qy" using extends_cells(1) [OF store_okD(1) [OF d(1)] assms(3) y(1)] .
    with cells_okD(5) [OF store_okD(1) [OF assms(2)] this assms(6)] y fresh show False by auto
  qed
  with own assms(6) show "unshared m (c\<lparr>co_store := s'\<rparr>) x" by (simp add: unshared_def)
qed

context kube_laws
begin

lemma queue_cell_balanced:
  assumes "store_ok s" and "quotas_ok K amount reqs s" and "st_queue s a = Some q"
  obtains y where "queue_val s (Ptr a) = Ptr y" "queue_balanced K amount reqs (hq_name q) y"
proof -
  from store_ok_queue [OF assms(1,3)] obtain b v where b: "hq_quota q = Ptr b" "st_quota s b = Some v" .
  with assms(2) have "quota_balanced K amount reqs v" by (simp add: quotas_ok_def)
  then show ?thesis using that b assms(3) by (simp add: queue_val_cell queue_balanced_def)
qed

lemma quotas_ok_clone:
  assumes "store_ok s" and "quotas_ok K amount reqs s" and "h_Queue_Clone K p s = Some (p', s')"
  shows "quotas_ok K amount reqs s'"
proof (cases p)
  case (Ptr a)
  with assms(3) obtain q where q: "st_queue s a = Some q" by (auto simp: h_Queue_Clone_def split: bind_splits)
  from store_ok_queue [OF assms(1) q] obtain b v where b: "hq_quota q = Ptr b" "st_quota s b = Some v" .
  with assms(2) have v: "quota_balanced K amount reqs v" by (simp add: quotas_ok_def)
  from Quota_Clone_eq [OF quota_balanced_invar [OF v]] have eq: "\<lparr>quota_max = Resources_Clone K (quota_max v),
      quota_used = Resources_Clone K (quota_used v), quota_podsByID = quota_podsByID v\<rparr> = v" by (simp add: Quota_Clone_def)
  obtain a' b' s1 where c: "h_Queue_Clone K (Ptr a) s = Some (Ptr a', s1)" "st_quota s1 = (st_quota s)(b' \<mapsto> v)"
    by (rule h_Queue_Clone_result [OF assms(1) q, of K]) (metis b eq)
  then show ?thesis using assms(2,3) v Ptr by (simp add: quotas_ok_def)
qed (use assms in \<open>simp add: h_Queue_Clone_def\<close>)

text \<open>One queue is cloned: a cell nobody else reaches, which reads as the queue does now.\<close>

lemma clone_queue_step:
  assumes "conc_sim K amount reqs m c a" and "quotas_ok K amount reqs (co_store c)" and "st_queue (co_store c) y = Some q"
  obtains x s' z where "h_Queue_Clone K (Ptr y) (co_store c) = Some (Ptr x, s')"
    "conc_sim K amount reqs m (c\<lparr>co_store := s'\<rparr>) a" "quotas_ok K amount reqs s'" "frame m c (c\<lparr>co_store := s'\<rparr>)"
    "st_mgr s' = st_mgr (co_store c)" "unshared m (c\<lparr>co_store := s'\<rparr>) x" "\<And>m' n. \<not> owns s' m' n x"
    "queue_val s' (Ptr x) = Ptr z" "queue_val s' (Ptr y) = Ptr z" "queue_balanced K amount reqs (hq_name q) z"
proof -
  note d = conc_simD [OF assms(1)]
  obtain x s' q' where c: "h_Queue_Clone K (Ptr y) (co_store c) = Some (Ptr x, s')" "store_ok s'" "extends (co_store c) s'"
    "st_mgr s' = st_mgr (co_store c)" "st_next (co_store c) \<le> x" "st_queue s' x = Some q'"
    "queue_val s' (Ptr x) = Queue_Clone K (queue_val (co_store c) (Ptr y))"
    by (rule h_Queue_Clone_result [OF d(1) assms(3), of K]) blast
  from queue_cell_balanced [OF d(1) assms(2,3)] obtain z where
    z: "queue_val (co_store c) (Ptr y) = Ptr z" "queue_balanced K amount reqs (hq_name q) z" .
  show ?thesis
  proof (rule that [OF c(1)])
    show "conc_sim K amount reqs m (c\<lparr>co_store := s'\<rparr>) a" using sim_extend [OF assms(1) c(2,3)] c(4) by simp
    show "quotas_ok K amount reqs s'" using quotas_ok_clone [OF d(1) assms(2) c(1)] .
    show "frame m c (c\<lparr>co_store := s'\<rparr>)" using frame_extend [OF d(1) c(3,4)] .
    show "unshared m (c\<lparr>co_store := s'\<rparr>) x" "\<not> owns s' m' n x" for m' n
      using new_cell_unshared [OF assms(1) c(2,3,4,5,6)] by blast+
    show "queue_val s' (Ptr x) = Ptr z" using c(7) z Queue_Clone_eq [OF queue_balanced_invar [OF z(2)]] by simp
    show "queue_val s' (Ptr y) = Ptr z" using extends_cells(3) [OF store_okD(1) [OF d(1)] c(3) assms(3)] z(1) by simp
  qed (use c(4) z(2) in simp_all)
qed

end

section \<open>Invariant of the cloning\<close>

text \<open>An entry of the snapshot: its own cell, which reads as the queue it was cloned from did at an instant of \<open>ss\<close>.\<close>

definition entry_cloned :: "('q, 's, 'm) kube \<Rightarrow> ('q \<Rightarrow> rat) \<Rightarrow> (string \<Rightarrow> 'q resource_list) \<Rightarrow> addr \<Rightarrow> ('q, 's, 'm) conc \<Rightarrow>
    ('q, 's, 'm) store list \<Rightarrow> string \<times> addr ptr \<Rightarrow> string \<times> addr ptr \<Rightarrow> bool" where
  "entry_cloned K amount reqs m c ss e e' \<longleftrightarrow> fst e' = fst e \<and> (\<exists>x z s. snd e' = Ptr x \<and> unshared m c x \<and> s \<in> set ss \<and>
     queue_val (co_store c) (Ptr x) = Ptr z \<and> queue_val s (snd e) = Ptr z \<and> queue_balanced K amount reqs (fst e) z)"

definition unowned :: "('q, 's, 'm) conc \<Rightarrow> (string \<times> addr ptr) list \<Rightarrow> bool" where
  "unowned c es \<longleftrightarrow> (\<forall>e \<in> set es. \<forall>x m n. snd e = Ptr x \<longrightarrow> \<not> owns (co_store c) m n x)"

definition to_clone :: "('q, 's, 'm) store \<Rightarrow> (string \<times> addr ptr) list \<Rightarrow> bool" where
  "to_clone s es \<longleftrightarrow> (\<forall>e \<in> set es. \<exists>y q. snd e = Ptr y \<and> st_queue s y = Some q \<and> hq_name q = fst e)"

fun clone_inv :: "('q, 's, 'm) kube \<Rightarrow> ('q \<Rightarrow> rat) \<Rightarrow> (string \<Rightarrow> 'q resource_list) \<Rightarrow> addr \<Rightarrow> (string \<times> addr ptr) list \<Rightarrow>
    ('q, 's, 'm) store list \<Rightarrow> ('q, 's, 'm) conc \<Rightarrow> clone_phase \<Rightarrow> bool" where
  "clone_inv K amount reqs m es ss c (Copying built todo) \<longleftrightarrow> (\<exists>old new. es = old @ todo \<and> built = new @ todo \<and>
     list_all2 (entry_cloned K amount reqs m c ss) old new \<and> unowned c new \<and> to_clone (co_store c) todo)"
| "clone_inv K amount reqs m es ss c (Cloned snap) \<longleftrightarrow> snap \<noteq> m \<and> (\<exists>built. st_mgr (co_store c) snap = Some (Ptr built) \<and>
     list_all2 (entry_cloned K amount reqs m c ss) es built)"

lemma entry_cloned_frame:
  assumes "entry_cloned K amount reqs m c ss e e'" and "frame m c c'" and "set ss \<subseteq> set ss'"
  shows "entry_cloned K amount reqs m c' ss' e e'"
proof -
  from assms(1) obtain x z s where e: "fst e' = fst e" "snd e' = Ptr x" "unshared m c x" "s \<in> set ss"
    "queue_val (co_store c) (Ptr x) = Ptr z" "queue_val s (snd e) = Ptr z" "queue_balanced K amount reqs (fst e) z"
    unfolding entry_cloned_def by blast
  have "queue_val (co_store c') (Ptr x) = Ptr z" using frameD(4) [OF assms(2) e(3)] e(5) by (rule trans)
  with e frameD(3) [OF assms(2) e(3)] assms(3) show ?thesis unfolding entry_cloned_def by blast
qed

lemma entries_cloned_frame:
  assumes "list_all2 (entry_cloned K amount reqs m c ss) es es'" and "frame m c c'" and "set ss \<subseteq> set ss'"
  shows "list_all2 (entry_cloned K amount reqs m c' ss') es es'"
  using assms(1) by (rule list_all2_mono) (rule entry_cloned_frame [OF _ assms(2,3)])

lemma cloned_unshared:
  assumes "list_all2 (entry_cloned K amount reqs m c ss) es es'" and "e' \<in> set es'" and "snd e' = Ptr x"
  shows "unshared m c x"
proof -
  from assms(1,2) obtain e where "entry_cloned K amount reqs m c ss e e'" by (metis in_set_conv_nth list_all2_conv_all_nth)
  then show ?thesis using assms(3) by (auto simp: entry_cloned_def)
qed

lemma unowned_frame:
  assumes "unowned c es'" and "frame m c c'" and "list_all2 (entry_cloned K amount reqs m c ss) es es'"
  shows "unowned c' es'"
  unfolding unowned_def
proof (intro ballI allI impI)
  fix e x m' n assume e: "e \<in> set es'" "snd e = Ptr x"
  show "\<not> owns (co_store c') m' n x"
  proof (cases "m' = m")
    case True
    then show ?thesis using frameD(3) [OF assms(2) cloned_unshared [OF assms(3) e]] by (simp add: unshared_def)
  next
    case False
    then show ?thesis using assms(1) e frameD(2) [OF assms(2) False] by (auto simp: unowned_def owns_def)
  qed
qed

lemma to_clone_kept:
  assumes "to_clone s es" and "cells_kept s s'"
  shows "to_clone s' es"
  using assms unfolding to_clone_def cells_kept_def by metis

lemma clone_inv_frame:
  assumes "clone_inv K amount reqs m es ss c ph" and "frame m c c'" and "set ss \<subseteq> set ss'"
  shows "clone_inv K amount reqs m es ss' c' ph"
proof (cases ph)
  case (Copying built todo)
  with assms(1) obtain old new where i: "es = old @ todo" "built = new @ todo" "list_all2 (entry_cloned K amount reqs m c ss) old new"
    "unowned c new" "to_clone (co_store c) todo" by auto
  then show ?thesis using Copying entries_cloned_frame [OF i(3) assms(2,3)] unowned_frame [OF i(4) assms(2) i(3)]
      to_clone_kept [OF i(5) frameD(1) [OF assms(2)]] by auto
next
  case (Cloned snap)
  with assms(1) obtain built where "snap \<noteq> m" "st_mgr (co_store c) snap = Some (Ptr built)"
    "list_all2 (entry_cloned K amount reqs m c ss) es built" by auto
  then show ?thesis using Cloned frameD(2) [OF assms(2)] entries_cloned_frame [OF _ assms(2,3)] by auto
qed

lemma atomic_run_append: "atomic_run K a h' a' \<Longrightarrow> atomic_run K a0 h a \<Longrightarrow> atomic_run K a0 (h @ h') a'"
proof (induction rule: atomic_run.induct)
  case (atomic_call h' b i op)
  then show ?case using atomic_run.atomic_call [of K a0 "h @ h'" b i op] by simp
next
  case (atomic_return h' b i r)
  then show ?case using atomic_run.atomic_return [of K a0 "h @ h'" b i r] by simp
qed (auto intro: atomic_run.intros)

text \<open>Finding an entry of the snapshot by name.\<close>

lemma cloned_names: "list_all2 (entry_cloned K amount reqs m c ss) es es' \<Longrightarrow> map fst es' = map fst es"
  by (induction rule: list_all2_induct) (auto simp: entry_cloned_def)

lemma cloned_lookup:
  assumes "list_all2 (entry_cloned K amount reqs m c ss) es es'"
  shows "map_of es n = None \<and> map_of es' n = None \<or>
    (\<exists>p p'. map_of es n = Some p \<and> map_of es' n = Some p' \<and> entry_cloned K amount reqs m c ss (n, p) (n, p'))"
  using assms
proof (induction rule: list_all2_induct)
  case (Cons e es e' es')
  then have "fst e' = fst e" by (simp add: entry_cloned_def)
  with Cons show ?case by (cases e; cases e') auto
qed simp

lemma cloned_map_ok:
  assumes "list_all2 (entry_cloned K amount reqs m c ss) es es'" and "distinct (map fst es)" and "unowned c es'"
  shows "map_ok (co_store c) (Ptr es')" and "gm_get (Ptr es') n = Some (Ptr x) \<Longrightarrow> \<not> owns (co_store c) m' n' x"
    and "gm_get (Ptr es') n = Some (Ptr x) \<Longrightarrow> gm_get (Ptr es') n' = Some (Ptr x) \<Longrightarrow> n = n'"
proof -
  have entry: "\<exists>p. entry_cloned K amount reqs m c ss (n, p) (n, p')" if "map_of es' n = Some p'" for n p'
    using cloned_lookup [OF assms(1), of n] that by auto
  have "distinct (map fst es')" using cloned_names [OF assms(1)] assms(2) by simp
  moreover have "\<exists>a q. p' = Ptr a \<and> st_queue (co_store c) a = Some q" if "map_of es' n = Some p'" for n p'
    using entry [OF that] by (auto simp: entry_cloned_def unshared_def)
  ultimately show "map_ok (co_store c) (Ptr es')" by (simp add: map_ok_def gm_wf_Ptr)
  show "\<not> owns (co_store c) m' n' x" if "gm_get (Ptr es') n = Some (Ptr x)"
    using that assms(3) map_of_SomeD [of es' n "Ptr x"] by (auto simp: unowned_def)
  show "n = n'" if "gm_get (Ptr es') n = Some (Ptr x)" "gm_get (Ptr es') n' = Some (Ptr x)"
    using that entry [of n "Ptr x"] entry [of n' "Ptr x"] by (auto simp: entry_cloned_def queue_balanced_def)
qed

context kube_laws
begin

lemma inv_next:
  assumes "clone_inv K amount reqs m es ss c (Copying built (e # todo))" and "distinct (map fst es)"
    and "conc_sim K amount reqs m c a" and "quotas_ok K amount reqs (co_store c)"
    and "clone_entry K e (built, co_store c) = Some (built', s')"
  shows "clone_inv K amount reqs m es (ss @ [s']) (c\<lparr>co_store := s'\<rparr>) (Copying built' todo) \<and>
    conc_sim K amount reqs m (c\<lparr>co_store := s'\<rparr>) a \<and> quotas_ok K amount reqs s'"
proof -
  from assms(1) obtain old new where i: "es = old @ e # todo" "built = new @ e # todo"
    "list_all2 (entry_cloned K amount reqs m c ss) old new" "unowned c new" "to_clone (co_store c) (e # todo)" by auto
  obtain n y q where e: "e = (n, Ptr y)" "st_queue (co_store c) y = Some q" "hq_name q = n"
    using i(5) by (cases e) (auto simp: to_clone_def)
  obtain x s1 z where x: "h_Queue_Clone K (Ptr y) (co_store c) = Some (Ptr x, s1)"
    "conc_sim K amount reqs m (c\<lparr>co_store := s1\<rparr>) a" "quotas_ok K amount reqs s1" "frame m c (c\<lparr>co_store := s1\<rparr>)"
    "unshared m (c\<lparr>co_store := s1\<rparr>) x" "\<And>m' n. \<not> owns s1 m' n x"
    "queue_val s1 (Ptr x) = Ptr z" "queue_val s1 (Ptr y) = Ptr z" "queue_balanced K amount reqs n z"
    by (rule clone_queue_step [OF assms(3,4) e(2)]) (use e(3) in blast)
  have "distinct (map fst (new @ e # todo))" using assms(2) i(1) cloned_names [OF i(3)] by simp
  then have s': "s' = s1" "built' = (new @ [(n, Ptr x)]) @ todo"
    using assms(5) i(2) e(1) x(1) update_middle [of new n "Ptr y" todo "Ptr x"] by (auto simp: clone_entry_def)
  let ?c = "c\<lparr>co_store := s1\<rparr>"
  have "entry_cloned K amount reqs m ?c (ss @ [s1]) e (n, Ptr x)" using x(5,7,8,9) e(1) by (auto simp: entry_cloned_def)
  then have "list_all2 (entry_cloned K amount reqs m ?c (ss @ [s1])) (old @ [e]) (new @ [(n, Ptr x)])"
    using entries_cloned_frame [OF i(3) x(4), of "ss @ [s1]"] by (auto intro: list_all2_appendI)
  moreover have "unowned ?c (new @ [(n, Ptr x)])"
    using unowned_frame [OF i(4) x(4) i(3)] x(6) by (auto simp: unowned_def)
  moreover have "to_clone s1 todo" using to_clone_kept [OF i(5) frameD(1) [OF x(4)]] by (simp add: to_clone_def)
  ultimately have "clone_inv K amount reqs m es (ss @ [s1]) ?c (Copying built' todo)"
    unfolding clone_inv.simps s'(2) i(1) by (intro exI [of _ "old @ [e]"] exI [of _ "new @ [(n, Ptr x)]"]) simp
  then show ?thesis using x(2,3) s'(1) by simp
qed

lemma inv_done:
  assumes "clone_inv K amount reqs m es ss c (Copying built [])" and "distinct (map fst es)"
    and "conc_sim K amount reqs m c a" and "quotas_ok K amount reqs (co_store c)" and "new_mgr (Ptr built) (co_store c) = (snap, s')"
  shows "clone_inv K amount reqs m es ss (c\<lparr>co_store := s'\<rparr>) (Cloned snap) \<and>
    conc_sim K amount reqs m (c\<lparr>co_store := s'\<rparr>) a \<and> quotas_ok K amount reqs s'"
proof -
  let ?s = "co_store c"
  note d = conc_simD [OF assms(3)]
  from assms(1) have i: "list_all2 (entry_cloned K amount reqs m c ss) es built" "unowned c built" by auto
  note ok = cloned_map_ok [OF i(1) assms(2) i(2)]
  have new: "store_ok s'" "snap = st_next ?s" "st_mgr s' = (st_mgr ?s)(snap \<mapsto> Ptr built)" "st_queue s' = st_queue ?s" "st_quota s' = st_quota ?s"
    using store_ok_new_mgr [OF d(1) assms(5) ok(1)] ok(2,3) by blast+
  have "snap \<noteq> m" using d(2) new(2) cells_okD(3) [OF store_okD(1) [OF d(1)], of snap] by auto
  moreover have grown: "extends ?s s'" using new(4,5) assms(5) by (auto simp: extends_def new_mgr_def)
  moreover have "queue_val s' = queue_val ?s"
    by (rule ext) (simp add: queue_val_def quota_val_def new(4,5) split: ptr.split option.split)
  moreover have "holds s' pc x = holds ?s pc x" for pc x using new(4) by (cases pc) auto
  ultimately have "list_all2 (entry_cloned K amount reqs m (c\<lparr>co_store := s'\<rparr>) ss) es built"
    using i(1) new(3,4) by (elim list_all2_mono) (simp add: entry_cloned_def unshared_def owns_def)
  then show ?thesis using \<open>snap \<noteq> m\<close> sim_extend [OF assms(3) new(1) grown] new(3,5) assms(4) by (simp add: quotas_ok_def)
qed

lemma clone_run_inv:
  assumes "clone_run K m c0 h ss c ph" and "conc_sim K amount reqs m c0 a0" and "quotas_ok K amount reqs (co_store c0)"
    and "st_mgr (co_store c0) m = Some (Ptr es)" and "\<forall>i op. Call i op \<in> set h \<longrightarrow> mgr_op_ok K reqs op"
  shows "(\<exists>a. atomic_run K a0 h a \<and> conc_sim K amount reqs m c a) \<and> quotas_ok K amount reqs (co_store c) \<and>
    clone_inv K amount reqs m es ss c ph"
proof -
  note d0 = conc_simD [OF assms(2)]
  have dist: "distinct (map fst es)" using store_okD(2) [OF d0(1) assms(4)] by (simp add: map_ok_def gm_wf_Ptr)
  have others: "(\<exists>a. atomic_run K a0 (h @ h') a \<and> conc_sim K amount reqs m c' a) \<and> quotas_ok K amount reqs (co_store c') \<and> frame m c c'"
    if "atomic_run K a0 h a" "conc_sim K amount reqs m c a" "quotas_ok K amount reqs (co_store c)" "conc_run K m c h' c'"
      "\<forall>i op. Call i op \<in> set (h @ h') \<longrightarrow> mgr_op_ok K reqs op" for h h' a c c'
  proof -
    have calls: "\<forall>i op. Call i op \<in> set h' \<longrightarrow> mgr_op_ok K reqs op" using that(5) by simp
    from sim_run [OF that(4,2) calls] atomic_run_append [OF _ that(1)] quotas_ok_run [OF that(4,2,3) calls] frame_run [OF that(4,2) calls]
    show ?thesis by blast
  qed
  show ?thesis using assms(1,5)
  proof (induction rule: clone_run.induct)
    case (clone_start es')
    then have es': "es' = es" using assms(4) by simp
    have "to_clone (co_store c0) es"
    proof (unfold to_clone_def, intro ballI)
      fix e assume e: "e \<in> set es"
      obtain n p where np: "e = (n, p)" by (cases e)
      with e dist have get: "gm_get (Ptr es) n = Some p" by simp
      from map_ok_get [OF store_okD(2) [OF d0(1) assms(4)] get] obtain y q where y: "p = Ptr y" "st_queue (co_store c0) y = Some q" .
      have "owns (co_store c0) m n y" using assms(4) get y(1) by (simp add: owns_def)
      from GetByName_owned [OF this] have "Manager_GetByName (at_mgr a0) n = queue_val (co_store c0) (Ptr y)" by (simp add: d0(3))
      with mgr_balancedD [OF d0(4)] y(2) have "hq_name q = n" by (fastforce simp: queue_val_cell queue_balanced_def)
      with np y show "\<exists>y q. snd e = Ptr y \<and> st_queue (co_store c0) y = Some q \<and> hq_name q = fst e" by auto
    qed
    then have "clone_inv K amount reqs m es [co_store c0] c0 (Copying es es)" by (auto simp: unowned_def)
    then show ?case using assms(2,3) atomic_start es' by blast
  next
    case (clone_others h ss c built todo h' c')
    then obtain a where IH: "atomic_run K a0 h a" "conc_sim K amount reqs m c a" "quotas_ok K amount reqs (co_store c)"
      "clone_inv K amount reqs m es ss c (Copying built todo)" by auto
    from others [OF IH(1-3) clone_others.hyps(2) clone_others.prems] clone_inv_frame [OF IH(4), of c' "ss @ [co_store c']"]
    show ?case by auto
  next
    case (clone_next h ss c built e todo built' s')
    then obtain a where IH: "atomic_run K a0 h a" "conc_sim K amount reqs m c a" "quotas_ok K amount reqs (co_store c)"
      "clone_inv K amount reqs m es ss c (Copying built (e # todo))" by auto
    from inv_next [OF IH(4) dist IH(2,3) clone_next.hyps(2)] IH(1) show ?case by auto
  next
    case (clone_done h ss c built snap s')
    then obtain a where IH: "atomic_run K a0 h a" "conc_sim K amount reqs m c a" "quotas_ok K amount reqs (co_store c)"
      "clone_inv K amount reqs m es ss c (Copying built [])" by auto
    from inv_done [OF IH(4) dist IH(2,3) clone_done.hyps(2)] IH(1) show ?case by auto
  next
    case (clone_later h ss c snap h' c')
    then obtain a where IH: "atomic_run K a0 h a" "conc_sim K amount reqs m c a" "quotas_ok K amount reqs (co_store c)"
      "clone_inv K amount reqs m es ss c (Cloned snap)" by auto
    from others [OF IH(1-3) clone_later.hyps(2) clone_later.prems] clone_inv_frame [OF IH(4), of c' ss] show ?case by blast
  qed
qed

end

lemma clone_instants: "clone_run K m c0 h ss c ph \<Longrightarrow> ss \<noteq> []"
  by (induction rule: clone_run.induct) simp_all

lemma cloned_balanced:
  assumes "list_all2 (entry_cloned K amount reqs m c ss) es es'" and "distinct (map fst es)" and "st_mgr (co_store c) snap = Some (Ptr es')"
  shows "mgr_balanced K amount reqs (mgr_val (co_store c) snap)"
proof -
  let ?f = "\<lambda>(n, p). (n, queue_val (co_store c) p)"
  have names: "map fst (map ?f es') = map fst es" using cloned_names [OF assms(1)] by (simp add: case_prod_beta comp_def)
  have "\<exists>q. qp = Ptr q \<and> queue_balanced K amount reqs n q" if get: "map_of (map ?f es') n = Some qp" for n qp
  proof -
    from get obtain p where p: "map_of es' n = Some p" "qp = queue_val (co_store c) p" by (auto simp: map_of_map_values)
    with cloned_lookup [OF assms(1), of n] show ?thesis by (auto simp: entry_cloned_def)
  qed
  then show ?thesis using names assms(2) by (simp add: mgr_val_map [OF assms(3)] mgr_balanced_def gm_wf_Ptr del: map_map)
qed

lemma snapshot_unshared:
  assumes "st_mgr (co_store c) snap = Some (Ptr es')" and "list_all2 (entry_cloned K amount reqs m c ss) es es'"
    and "reaches (co_store c) snap (QueueCell x)"
  shows "unshared m c x"
proof -
  from assms(3) obtain n where "owns (co_store c) snap n x" by (rule reaches_QueueE)
  then have "(n, Ptr x) \<in> set es'" using assms(1) by (auto simp: owns_def dest: map_of_SomeD)
  then show ?thesis using cloned_unshared [OF assms(2)] by simp
qed

section \<open>Schedules of a clone\<close>

datatype ('q, 's) clone_act = OthersRun "('q, 's) sched list" | CloneNext | CloneDone

fun clone_act_step :: "('q, 's, 'm) kube \<Rightarrow> addr \<Rightarrow> ('q, 's) clone_act \<Rightarrow>
    ('q, 's) call_event list \<times> ('q, 's, 'm) store list \<times> ('q, 's, 'm) conc \<times> clone_phase \<Rightarrow>
    (('q, 's) call_event list \<times> ('q, 's, 'm) store list \<times> ('q, 's, 'm) conc \<times> clone_phase) option" where
  "clone_act_step K m (OthersRun xs) (h, ss, c, Copying built todo) = do {
     (c', h') \<leftarrow> for_each (sched_step K m) xs (c, []);
     Some (h @ h', ss @ [co_store c'], c', Copying built todo) }"
| "clone_act_step K m (OthersRun xs) (h, ss, c, Cloned snap) = do {
     (c', h') \<leftarrow> for_each (sched_step K m) xs (c, []);
     Some (h @ h', ss, c', Cloned snap) }"
| "clone_act_step K m CloneNext (h, ss, c, Copying built (e # todo)) = do {
     (built', s') \<leftarrow> clone_entry K e (built, co_store c);
     Some (h, ss @ [s'], c\<lparr>co_store := s'\<rparr>, Copying built' todo) }"
| "clone_act_step K m CloneDone (h, ss, c, Copying built []) =
     (let (snap, s') = new_mgr (Ptr built) (co_store c) in Some (h, ss, c\<lparr>co_store := s'\<rparr>, Cloned snap))"
| "clone_act_step K m _ _ = None"

lemma clone_act_run:
  assumes "clone_act_step K m x (h, ss, c, ph) = Some (h', ss', c', ph')" and "clone_run K m c0 h ss c ph"
  shows "clone_run K m c0 h' ss' c' ph'"
  using assms
  by (cases "(K, m, x, h, ss, c, ph)" rule: clone_act_step.cases)
    (auto split: bind_splits prod.splits intro: clone_run.intros sched_run [OF _ conc_start])

lemma clone_acts_run:
  "for_each (clone_act_step K m) xs (h, ss, c, ph) = Some (h', ss', c', ph') \<Longrightarrow> clone_run K m c0 h ss c ph \<Longrightarrow>
     clone_run K m c0 h' ss' c' ph'"
proof (induction xs arbitrary: h ss c ph)
  case (Cons x xs)
  then obtain h1 ss1 c1 ph1 where "clone_act_step K m x (h, ss, c, ph) = Some (h1, ss1, c1, ph1)"
    "for_each (clone_act_step K m) xs (h1, ss1, c1, ph1) = Some (h', ss', c', ph')" by (auto split: bind_splits)
  with Cons.IH clone_act_run [OF _ Cons.prems(2)] show ?case by blast
qed simp

section \<open>Properties\<close>

text \<open>
  C7. A snapshot taken while other goroutines use the manager. The cloning is never stuck. Once it has
  returned, and however the others went on since, the snapshot has the names the manager had when the
  cloning began; the queue under each name reads as the queue that name led to did at some instant of
  the cloning, and the resources it has in use are those of exactly the pods it counts. No queue, no
  quota and no map of resources can be reached both from the snapshot and from the live manager, and
  no goroutine in the middle of an operation holds a queue of the snapshot or its quota. To the
  callers of the live manager the cloning is invisible: their calls, returns and the manager's queues
  are still those of a manager whose operations take effect at one instant.
\<close>

theorem concurrent_snapshot:
  fixes K :: "('q, 's, 'm) kube"
  assumes "kube_laws K amount" and "conc_run K 0 conc_init h0 c0" and "clone_run K 0 c0 h ss c ph"
    and "\<forall>i op. Call i op \<in> set (h0 @ h) \<longrightarrow> mgr_op_ok K reqs op"
  shows "(case ph of
      Copying built todo \<Rightarrow> todo = [] \<or> clone_entry K (hd todo) (built, co_store c) \<noteq> None
    | Cloned snap \<Rightarrow> mgr_balanced K amount reqs (mgr_val (co_store c) snap) \<and>
        (\<forall>n. \<exists>p s. h_GetByName 0 n (co_store c0) = Some p \<and> s \<in> set ss \<and>
          Manager_GetByName (mgr_val (co_store c) snap) n = queue_val s p) \<and>
        (\<nexists>x. reaches (co_store c) 0 x \<and> reaches (co_store c) snap x) \<and>
        (\<nexists>i x. reaches (co_store c) snap (QueueCell x) \<and> holds (co_store c) (co_pc c i) x)) \<and>
    (\<exists>a. atomic_run K atomic_init (h0 @ h) a \<and> at_mgr a = mgr_val (co_store c) 0)"
proof -
  have calls: "\<forall>i op. Call i op \<in> set h0 \<longrightarrow> mgr_op_ok K reqs op" "\<forall>i op. Call i op \<in> set h \<longrightarrow> mgr_op_ok K reqs op"
    using assms(4) by auto
  from kube_laws.sim_run [OF assms(1,2) init_sim(1) calls(1)] obtain a0 where
    a0: "atomic_run K atomic_init h0 a0" "conc_sim K amount reqs 0 c0 a0" by blast
  note q0 = kube_laws.quotas_ok_run [OF assms(1,2) init_sim(1) init_sim(2) calls(1)]
  note d0 = conc_simD [OF a0(2)]
  from d0(2) map_ok_Ptr [OF store_okD(2) [OF d0(1)]] obtain es where
    es: "st_mgr (co_store c0) 0 = Some (Ptr es)" "distinct (map fst es)" by metis
  from kube_laws.clone_run_inv [OF assms(1,3) a0(2) q0 es(1) calls(2)] obtain a where
    a: "atomic_run K a0 h a" "conc_sim K amount reqs 0 c a" "quotas_ok K amount reqs (co_store c)" "clone_inv K amount reqs 0 es ss c ph" by blast
  have "case ph of Copying built todo \<Rightarrow> todo = [] \<or> clone_entry K (hd todo) (built, co_store c) \<noteq> None
    | Cloned snap \<Rightarrow> mgr_balanced K amount reqs (mgr_val (co_store c) snap) \<and>
        (\<forall>n. \<exists>p s. h_GetByName 0 n (co_store c0) = Some p \<and> s \<in> set ss \<and>
          Manager_GetByName (mgr_val (co_store c) snap) n = queue_val s p) \<and>
        (\<nexists>x. reaches (co_store c) 0 x \<and> reaches (co_store c) snap x) \<and>
        (\<nexists>i x. reaches (co_store c) snap (QueueCell x) \<and> holds (co_store c) (co_pc c i) x)"
  proof (cases ph)
    case (Copying built todo)
    show ?thesis
    proof (cases todo)
      case (Cons e todo')
      with a(4) Copying obtain y q where y: "snd e = Ptr y" "st_queue (co_store c) y = Some q" by (auto simp: to_clone_def)
      have "\<exists>x s'. h_Queue_Clone K (Ptr y) (co_store c) = Some (Ptr x, s')"
        by (rule h_Queue_Clone_result [OF conc_simD(1) [OF a(2)] y(2), of K]) blast
      then show ?thesis using Copying Cons y(1) by (auto simp: clone_entry_def)
    qed (use Copying in simp)
  next
    case (Cloned snap)
    with a(4) obtain built where "snap \<noteq> 0" and b: "st_mgr (co_store c) snap = Some (Ptr built)" "list_all2 (entry_cloned K amount reqs 0 c ss) es built" by auto
    have "\<exists>p s. h_GetByName 0 n (co_store c0) = Some p \<and> s \<in> set ss \<and> Manager_GetByName (mgr_val (co_store c) snap) n = queue_val s p" for n
      using cloned_lookup [OF b(2), of n]
    proof
      assume "map_of es n = None \<and> map_of built n = None"
      then show ?thesis using es(1) GetByName_val [OF b(1), of n] clone_instants [OF assms(3)]
        by (intro exI [of _ NilP] exI [of _ "hd ss"]) (simp add: h_GetByName_def)
    next
      assume "\<exists>p p'. map_of es n = Some p \<and> map_of built n = Some p' \<and> entry_cloned K amount reqs 0 c ss (n, p) (n, p')"
      then obtain p p' s where p: "map_of es n = Some p" "map_of built n = Some p'" "s \<in> set ss" "queue_val (co_store c) p' = queue_val s p"
        by (auto simp: entry_cloned_def)
      then show ?thesis using es(1) GetByName_val [OF b(1), of n] by (intro exI [of _ p] exI [of _ s]) (simp add: h_GetByName_def)
    qed
    moreover have "\<nexists>x. reaches (co_store c) 0 x \<and> reaches (co_store c) snap x"
      using reaches_separate [OF conc_simD(1) [OF a(2)]] \<open>snap \<noteq> 0\<close> by blast
    moreover have "\<nexists>i x. reaches (co_store c) snap (QueueCell x) \<and> holds (co_store c) (co_pc c i) x"
      using snapshot_unshared [OF b] by (auto simp: unshared_def)
    ultimately show ?thesis using cloned_balanced [OF b(2) es(2) b(1)] Cloned by simp
  qed
  with atomic_run_append [OF a(1) a0(1)] conc_simD(3) [OF a(2)] show ?thesis by blast
qed

text \<open>
  Two queues; while the first has been cloned and the second not, a pod is counted in each. The
  snapshot has the second pod and not the first, a state the manager was never in.
\<close>

definition add_pod_sched :: "nat \<Rightarrow> int pod \<Rightarrow> (int, ref_selector) sched list" where
  "add_pod_sched i p = [DoCall i (OpAddPod (Ptr p)), DoSection i, DoSection i, DoSection i, DoReturn i]"

definition put_sched :: "nat \<Rightarrow> string \<Rightarrow> (int, ref_selector) sched list" where
  "put_sched i n = [DoCall i (OpPut n NilP NilP zero_config), DoSection i, DoReturn i]"

definition cut_acts :: "(int, ref_selector) clone_act list" where
  "cut_acts = [CloneNext,
     OthersRun (add_pod_sched 1 (ref_pod ''p'' ''a'' 1 500) @ add_pod_sched 2 (ref_pod ''r'' ''b'' 1 500)), CloneNext, CloneDone]"

definition cut_history :: "(int, ref_selector) call_event list" where
  "cut_history = [Call 0 (OpPut ''a'' NilP NilP zero_config), Return 0 None, Call 0 (OpPut ''b'' NilP NilP zero_config), Return 0 None,
     Call 1 (OpAddPod (Ptr (ref_pod ''p'' ''a'' 1 500))), Return 1 None,
     Call 2 (OpAddPod (Ptr (ref_pod ''r'' ''b'' 1 500))), Return 2 None]"

definition counts :: "(int, ref_selector, ref_map) manager \<Rightarrow> string \<Rightarrow> int pod \<Rightarrow> bool option" where
  "counts qm n p = Quota_ContainsPod ref_kube (Queue_Quota (Manager_GetByName qm n)) (Ptr p)"

lemma cut_result:
  "case for_each (sched_step ref_kube 0) (put_sched 0 ''a'' @ put_sched 0 ''b'') (conc_init, []) of
     None \<Rightarrow> False
   | Some (c0, h0) \<Rightarrow> (case st_mgr (co_store c0) 0 of
       Some (Ptr es) \<Rightarrow> (case for_each (clone_act_step ref_kube 0) cut_acts ([], [co_store c0], c0, Copying es es) of
         Some (h, ss, c, Cloned snap) \<Rightarrow> h0 @ h = cut_history \<and>
           counts (mgr_val (co_store c) snap) ''a'' (ref_pod ''p'' ''a'' 1 500) = Some False \<and>
           counts (mgr_val (co_store c) snap) ''b'' (ref_pod ''r'' ''b'' 1 500) = Some True
       | _ \<Rightarrow> False)
     | _ \<Rightarrow> False)"
  by code_simp

theorem concurrent_snapshot_witness:
  "\<exists>h0 c0 h ss c snap reqs. clone_run ref_kube 0 c0 h ss c (Cloned snap) \<and> h0 @ h = cut_history \<and>
    mgr_balanced ref_kube ref_amount reqs (mgr_val (co_store c) snap) \<and>
    counts (mgr_val (co_store c) snap) ''a'' (ref_pod ''p'' ''a'' 1 500) = Some False \<and>
    counts (mgr_val (co_store c) snap) ''b'' (ref_pod ''r'' ''b'' 1 500) = Some True"
proof -
  let ?put = "for_each (sched_step ref_kube 0) (put_sched 0 ''a'' @ put_sched 0 ''b'') (conc_init, [])"
  obtain c0 h0 where r1: "?put = Some (c0, h0)" using cut_result by (cases ?put) auto
  note cut1 = cut_result [unfolded r1 option.case prod.case]
  obtain es where r2: "st_mgr (co_store c0) 0 = Some (Ptr es)" using cut1 by (auto split: option.split_asm ptr.split_asm)
  note cut2 = cut1 [unfolded r2 option.case ptr.case]
  let ?acts = "for_each (clone_act_step ref_kube 0) cut_acts ([], [co_store c0], c0, Copying es es)"
  obtain h ss c ph where r3: "?acts = Some (h, ss, c, ph)" using cut2 by (cases ?acts) auto
  note cut3 = cut2 [unfolded r3 option.case prod.case]
  obtain snap where r4: "ph = Cloned snap" using cut3 by (cases ph) auto
  have v: "h0 @ h = cut_history" "counts (mgr_val (co_store c) snap) ''a'' (ref_pod ''p'' ''a'' 1 500) = Some False"
      "counts (mgr_val (co_store c) snap) ''b'' (ref_pod ''r'' ''b'' 1 500) = Some True"
    using cut3 unfolding r4 clone_phase.case by blast+
  note run = sched_run [OF r1 conc_start] and clone = clone_acts_run [OF r3 [unfolded r4] clone_start [OF r2]]
  let ?reqs = "\<lambda>u. Ptr [(''cpu'', 500)]"
  have "pod_ok ref_kube ?reqs (ref_pod ''p'' ''a'' 1 500)" "pod_ok ref_kube ?reqs (ref_pod ''r'' ''b'' 1 500)"
    by (simp_all add: pod_ok_def ref_pod_requests_def ref_pod_def)
  then have "\<forall>i op. Call i op \<in> set (h0 @ h) \<longrightarrow> mgr_op_ok ref_kube ?reqs op" by (auto simp: v(1) cut_history_def)
  from concurrent_snapshot [OF ref_laws.kube_laws_axioms run clone this]
  have "mgr_balanced ref_kube ref_amount ?reqs (mgr_val (co_store c) snap)" by simp
  with v clone show ?thesis by blast
qed

end
