(* ===== verification/Locking.thy ===== *)
theory Locking
  imports Prelude
begin

text \<open>
  The locks of the program: which of them each method takes, in which order and in which mode, and that
  no interleaving of the goroutines deadlocks.

  A method is the sequence of its acquisitions and releases (the definitions named \<open>locks_\<dots>\<close>, one per
  method of \<^verbatim>\<open>manager.go\<close>, \<^verbatim>\<open>queue.go\<close>, \<^verbatim>\<open>quota.go\<close>, \<^verbatim>\<open>node_aggregator.go\<close> and the informer factory). The
  addresses of the queues and quotas are parameters: the sequences are considered for any of them.

  The locks behave as Go's: \<^verbatim>\<open>sync.RWMutex\<close> has many readers or one writer, and a writer that waits
  keeps new readers out, so that a goroutine that read-locks twice can block itself against it. A
  \<^verbatim>\<open>sync.Mutex\<close> is only locked for writing.
\<close>

section \<open>Lock programs\<close>

datatype lock = FactoryLock addr | NodesLock addr | MgrLock addr | QueueLock addr | QuotaLock addr

datatype lock_mode = Read | Write

datatype lock_act = Acquire lock_mode lock | Release lock_mode lock

definition locked :: "lock_mode \<Rightarrow> lock \<Rightarrow> lock_act list \<Rightarrow> lock_act list" where
  "locked md l body = Acquire md l # body @ [Release md l]"

subsection \<open>quota.go\<close>

text \<open>\<open>q\<close> is the receiver, possibly nil.\<close>

definition on_quota :: "lock_mode \<Rightarrow> addr ptr \<Rightarrow> lock_act list" where
  "on_quota md q = (case q of NilP \<Rightarrow> [] | Ptr b \<Rightarrow> locked md (QuotaLock b) [])"

definition locks_Quota_AddPodIfNotPresent :: "addr ptr \<Rightarrow> 'p list \<Rightarrow> lock_act list" where
  "locks_Quota_AddPodIfNotPresent q pods = (if length pods = 0 then [] else on_quota Write q)"

definition locks_Quota_DeletePodIfPresent :: "addr ptr \<Rightarrow> 'p list \<Rightarrow> lock_act list" where
  "locks_Quota_DeletePodIfPresent q pods = (if length pods = 0 then [] else on_quota Write q)"

text \<open>\<open>pods\<close> are the values of \<^verbatim>\<open>podsByID\<close>; the predicate, possibly nil, runs between the two sections.\<close>

definition locks_Quota_DeletePodsFunc :: "addr ptr \<Rightarrow> ('p \<Rightarrow> bool) option \<Rightarrow> 'p list \<Rightarrow> lock_act list" where
  "locks_Quota_DeletePodsFunc q predicate pods = (case predicate of None \<Rightarrow> []
   | Some matches \<Rightarrow> if is_nil q then []
       else on_quota Read q @ locks_Quota_DeletePodIfPresent q (filter matches pods))"

definition locks_Quota_SetMax :: "addr ptr \<Rightarrow> lock_act list" where
  "locks_Quota_SetMax q = on_quota Write q"

text \<open>\<^verbatim>\<open>Max\<close>, \<^verbatim>\<open>Used\<close>, \<^verbatim>\<open>ContainsPod\<close>, \<^verbatim>\<open>WouldPutOverMax\<close>.\<close>

definition locks_Quota_read :: "addr ptr \<Rightarrow> lock_act list" where
  "locks_Quota_read q = on_quota Read q"

definition locks_Quota_Clone :: "addr ptr \<Rightarrow> lock_act list" where
  "locks_Quota_Clone q = on_quota Read q"

definition locks_Quota_String :: "addr ptr \<Rightarrow> lock_act list" where
  "locks_Quota_String q = locks_Quota_Clone q"

subsection \<open>queue.go\<close>

text \<open>A queue is the address of its cell and the pointer to its quota.\<close>

datatype queue_opt = OptQuotaMax | OptLabels | OptPreemptionConfig

definition locks_option :: "addr ptr \<Rightarrow> queue_opt \<Rightarrow> lock_act list" where
  "locks_option quota opt = (case opt of OptQuotaMax \<Rightarrow> locks_Quota_SetMax quota | OptLabels \<Rightarrow> [] | OptPreemptionConfig \<Rightarrow> [])"

definition locks_ApplyOpts :: "(addr \<times> addr ptr) ptr \<Rightarrow> queue_opt list \<Rightarrow> lock_act list" where
  "locks_ApplyOpts q opts = (case q of NilP \<Rightarrow> []
   | Ptr (a, quota) \<Rightarrow> locked Write (QueueLock a) (concat (map (locks_option quota) opts)))"

definition locks_Queue_New :: "addr \<Rightarrow> addr \<Rightarrow> queue_opt list \<Rightarrow> lock_act list" where
  "locks_Queue_New a b opts = locks_ApplyOpts (Ptr (a, Ptr b)) opts"

text \<open>\<^verbatim>\<open>Name\<close>, \<^verbatim>\<open>Quota\<close>, \<^verbatim>\<open>PreemptionConfig\<close>, \<^verbatim>\<open>Labels\<close>, and \<^verbatim>\<open>CanPodBePreemptedByOthers\<close> of a pod that is not nil.\<close>

definition locks_Queue_read :: "(addr \<times> addr ptr) ptr \<Rightarrow> lock_act list" where
  "locks_Queue_read q = (case q of NilP \<Rightarrow> [] | Ptr (a, quota) \<Rightarrow> locked Read (QueueLock a) [])"

definition locks_Queue_Clone :: "(addr \<times> addr ptr) ptr \<Rightarrow> lock_act list" where
  "locks_Queue_Clone q = (case q of NilP \<Rightarrow> [] | Ptr (a, quota) \<Rightarrow> locked Read (QueueLock a) (locks_Quota_Clone quota))"

subsection \<open>manager.go\<close>

definition locks_GetByName :: "addr \<Rightarrow> lock_act list" where
  "locks_GetByName m = locked Read (MgrLock m) []"

definition locks_Manager_Put :: "addr \<Rightarrow> addr \<Rightarrow> addr \<Rightarrow> queue_opt list \<Rightarrow> lock_act list" where
  "locks_Manager_Put m a b opts = locked Write (MgrLock m) (locks_Queue_New a b opts)"

text \<open>\<open>q\<close> is the queue of that name, nil if there is none; \<open>a\<close> and \<open>b\<close> are new cells for that case.\<close>

definition locks_Manager_Update :: "addr \<Rightarrow> (addr \<times> addr ptr) ptr \<Rightarrow> addr \<Rightarrow> addr \<Rightarrow> queue_opt list \<Rightarrow> lock_act list" where
  "locks_Manager_Update m q a b opts = (if length opts = 0 then []
     else locked Write (MgrLock m) (if is_nil q then locks_Queue_New a b opts else locks_ApplyOpts q opts))"

definition locks_Manager_Delete :: "addr \<Rightarrow> lock_act list" where
  "locks_Manager_Delete m = locked Write (MgrLock m) []"

text \<open>
  The pod operations: \<open>q\<close> is what \<^verbatim>\<open>GetByName\<close> returns for the queue the pod names, \<open>None\<close> if the pod is nil or
  names none.
\<close>

definition locks_Manager_AddPodIfNotPresent :: "addr \<Rightarrow> (addr \<times> addr ptr) ptr option \<Rightarrow> lock_act list" where
  "locks_Manager_AddPodIfNotPresent m pod_queue = (case pod_queue of None \<Rightarrow> []
   | Some q \<Rightarrow> locks_GetByName m @ (case q of NilP \<Rightarrow> []
       | Ptr (a, quota) \<Rightarrow> locks_Queue_read q @ locks_Quota_AddPodIfNotPresent quota [()]))"

definition locks_Manager_DeletePodIfPresent :: "addr \<Rightarrow> (addr \<times> addr ptr) ptr option \<Rightarrow> lock_act list" where
  "locks_Manager_DeletePodIfPresent m pod_queue = (case pod_queue of None \<Rightarrow> []
   | Some q \<Rightarrow> locks_GetByName m @ (case q of NilP \<Rightarrow> []
       | Ptr (a, quota) \<Rightarrow> locks_Queue_read q @ locks_Quota_DeletePodIfPresent quota [()]))"

definition locks_Manager_Clone :: "addr \<Rightarrow> (addr \<times> addr ptr) ptr list \<Rightarrow> lock_act list" where
  "locks_Manager_Clone m queues = locked Read (MgrLock m) [] @ concat (map locks_Queue_Clone queues)"

subsection \<open>node\_aggregator.go and the informer factory\<close>

definition locks_Nodes_GetTotal :: "addr \<Rightarrow> lock_act list" where
  "locks_Nodes_GetTotal c = locked Read (NodesLock c) []"

text \<open>\<^verbatim>\<open>Put\<close>, \<^verbatim>\<open>PutAll\<close>, \<^verbatim>\<open>Delete\<close>.\<close>

definition locks_Nodes_write :: "addr \<Rightarrow> lock_act list" where
  "locks_Nodes_write c = locked Write (NodesLock c) []"

text \<open>
  The factory's mutex. \<^verbatim>\<open>Shutdown\<close> and \<^verbatim>\<open>WaitForCacheSyncWithContext\<close> release it before they wait, for the informers'
  goroutines (\<^verbatim>\<open>f.wg.Wait\<close>) and for their caches (\<^verbatim>\<open>cache.WaitFor\<close>); these waits hold no lock, and whether they
  end is up to client-go's informers, so they are not modelled.
\<close>

definition locks_Factory_StartWithContext :: "addr \<Rightarrow> lock_act list" where
  "locks_Factory_StartWithContext f = locked Write (FactoryLock f) []"

definition locks_Factory_Shutdown :: "addr \<Rightarrow> lock_act list" where
  "locks_Factory_Shutdown f = locked Write (FactoryLock f) []"

definition locks_Factory_WaitForCacheSync :: "addr \<Rightarrow> lock_act list" where
  "locks_Factory_WaitForCacheSync f = locked Write (FactoryLock f) []"

definition locks_Factory_InformerFor :: "addr \<Rightarrow> lock_act list" where
  "locks_Factory_InformerFor f = locked Write (FactoryLock f) []"

section \<open>Calls\<close>

datatype locking_call =
    CallQuotaAdd "addr ptr" "unit list"
  | CallQuotaDelete "addr ptr" "unit list"
  | CallQuotaDeleteFunc "addr ptr" "(nat \<Rightarrow> bool) option" "nat list"
  | CallQuotaSetMax "addr ptr"
  | CallQuotaRead "addr ptr"
  | CallQuotaClone "addr ptr"
  | CallQuotaString "addr ptr"
  | CallApplyOpts "(addr \<times> addr ptr) ptr" "queue_opt list"
  | CallQueueNew addr addr "queue_opt list"
  | CallQueueRead "(addr \<times> addr ptr) ptr"
  | CallQueueClone "(addr \<times> addr ptr) ptr"
  | CallGetByName addr
  | CallPut addr addr addr "queue_opt list"
  | CallUpdate addr "(addr \<times> addr ptr) ptr" addr addr "queue_opt list"
  | CallDelete addr
  | CallAddPod addr "(addr \<times> addr ptr) ptr option"
  | CallDeletePod addr "(addr \<times> addr ptr) ptr option"
  | CallClone addr "(addr \<times> addr ptr) ptr list"
  | CallNodesGetTotal addr
  | CallNodesWrite addr
  | CallStartWithContext addr
  | CallShutdown addr
  | CallWaitForCacheSync addr
  | CallInformerFor addr

fun lock_prog :: "locking_call \<Rightarrow> lock_act list" where
  "lock_prog (CallQuotaAdd q pods) = locks_Quota_AddPodIfNotPresent q pods"
| "lock_prog (CallQuotaDelete q pods) = locks_Quota_DeletePodIfPresent q pods"
| "lock_prog (CallQuotaDeleteFunc q predicate pods) = locks_Quota_DeletePodsFunc q predicate pods"
| "lock_prog (CallQuotaSetMax q) = locks_Quota_SetMax q"
| "lock_prog (CallQuotaRead q) = locks_Quota_read q"
| "lock_prog (CallQuotaClone q) = locks_Quota_Clone q"
| "lock_prog (CallQuotaString q) = locks_Quota_String q"
| "lock_prog (CallApplyOpts q opts) = locks_ApplyOpts q opts"
| "lock_prog (CallQueueNew a b opts) = locks_Queue_New a b opts"
| "lock_prog (CallQueueRead q) = locks_Queue_read q"
| "lock_prog (CallQueueClone q) = locks_Queue_Clone q"
| "lock_prog (CallGetByName m) = locks_GetByName m"
| "lock_prog (CallPut m a b opts) = locks_Manager_Put m a b opts"
| "lock_prog (CallUpdate m q a b opts) = locks_Manager_Update m q a b opts"
| "lock_prog (CallDelete m) = locks_Manager_Delete m"
| "lock_prog (CallAddPod m q) = locks_Manager_AddPodIfNotPresent m q"
| "lock_prog (CallDeletePod m q) = locks_Manager_DeletePodIfPresent m q"
| "lock_prog (CallClone m queues) = locks_Manager_Clone m queues"
| "lock_prog (CallNodesGetTotal c) = locks_Nodes_GetTotal c"
| "lock_prog (CallNodesWrite c) = locks_Nodes_write c"
| "lock_prog (CallStartWithContext f) = locks_Factory_StartWithContext f"
| "lock_prog (CallShutdown f) = locks_Factory_Shutdown f"
| "lock_prog (CallWaitForCacheSync f) = locks_Factory_WaitForCacheSync f"
| "lock_prog (CallInformerFor f) = locks_Factory_InformerFor f"

section \<open>Goroutines over locks\<close>

record goroutine =
  go_rest :: "lock_act list"
  go_held :: "(lock_mode \<times> lock) list"
  go_pending :: bool

text \<open>
  \<open>go_pending\<close>: the goroutine has announced that it wants the lock for writing. It can do so while nobody
  else has announced it or writes; from then on no reader is let in.
\<close>

definition pends_on :: "lock \<Rightarrow> goroutine \<Rightarrow> bool" where
  "pends_on l g \<longleftrightarrow> go_pending g \<and> (case go_rest g of Acquire Write l' # _ \<Rightarrow> l' = l | _ \<Rightarrow> False)"

definition writes :: "lock \<Rightarrow> goroutine \<Rightarrow> bool" where
  "writes l g \<longleftrightarrow> (Write, l) \<in> set (go_held g)"

definition uses :: "lock \<Rightarrow> goroutine \<Rightarrow> bool" where
  "uses l g \<longleftrightarrow> l \<in> snd ` set (go_held g)"

definition lock_step :: "nat \<Rightarrow> goroutine list \<Rightarrow> goroutine list option" where
  "lock_step i gs = (if i < length gs then
     (let g = gs ! i in case go_rest g of
       [] \<Rightarrow> None
     | Release md l # rest \<Rightarrow> Some (gs[i := \<lparr>go_rest = rest, go_held = remove1 (md, l) (go_held g), go_pending = False\<rparr>])
     | Acquire Read l # rest \<Rightarrow>
         if list_ex (\<lambda>g. writes l g \<or> pends_on l g) gs then None
         else Some (gs[i := \<lparr>go_rest = rest, go_held = (Read, l) # go_held g, go_pending = False\<rparr>])
     | Acquire Write l # rest \<Rightarrow>
         if go_pending g then
           (if list_ex (uses l) gs then None
            else Some (gs[i := \<lparr>go_rest = rest, go_held = (Write, l) # go_held g, go_pending = False\<rparr>]))
         else if list_ex (\<lambda>g. writes l g \<or> pends_on l g) gs then None
         else Some (gs[i := g\<lparr>go_pending := True\<rparr>]))
   else None)"

definition start :: "locking_call list \<Rightarrow> goroutine" where
  "start calls = \<lparr>go_rest = concat (map lock_prog calls), go_held = [], go_pending = False\<rparr>"

section \<open>The lock order\<close>

text \<open>
  The informer factory, the nodes, the manager, a queue, its quota: a goroutine only asks for a lock that
  comes after every lock it holds.
\<close>

primrec rank :: "lock \<Rightarrow> nat" where
  "rank (FactoryLock a) = 0"
| "rank (NodesLock a) = 1"
| "rank (MgrLock a) = 2"
| "rank (QueueLock a) = 3"
| "rank (QuotaLock a) = 4"

fun ordered :: "(lock_mode \<times> lock) list \<Rightarrow> lock_act list \<Rightarrow> bool" where
  "ordered held [] \<longleftrightarrow> held = []"
| "ordered held (Acquire md l # p) \<longleftrightarrow> (\<forall>x\<in>set held. rank (snd x) < rank l) \<and> ordered ((md, l) # held) p"
| "ordered held (Release md l # p) \<longleftrightarrow> (md, l) \<in> set held \<and> ordered (remove1 (md, l) held) p"

text \<open>\<open>bracketed r p\<close>: \<open>p\<close> may run while only locks below \<open>r\<close> are held, and leaves what is held as it was.\<close>

definition bracketed :: "nat \<Rightarrow> lock_act list \<Rightarrow> bool" where
  "bracketed r p \<longleftrightarrow> (\<forall>held rest. (\<forall>x\<in>set held. rank (snd x) < r) \<longrightarrow> ordered held rest \<longrightarrow> ordered held (p @ rest))"

named_theorems bracketed_rules

lemma bracketed_Nil [bracketed_rules]: "bracketed r []"
  by (simp add: bracketed_def)

lemma bracketed_append [bracketed_rules]: "bracketed r p \<Longrightarrow> bracketed r q \<Longrightarrow> bracketed r (p @ q)"
  by (simp add: bracketed_def)

lemma bracketed_concat [bracketed_rules]: "(\<And>x. x \<in> set xs \<Longrightarrow> bracketed r (f x)) \<Longrightarrow> bracketed r (concat (map f xs))"
  by (induction xs) (auto intro: bracketed_rules)

lemma bracketed_locked [bracketed_rules]: "r \<le> rank l \<Longrightarrow> bracketed (Suc (rank l)) body \<Longrightarrow> bracketed r (locked md l body)"
proof (unfold bracketed_def, intro allI impI)
  fix held rest
  assume r: "r \<le> rank l" and below: "\<forall>x\<in>set held. rank (snd x) < r" and rest: "ordered held rest"
    and body: "\<forall>held rest. (\<forall>x\<in>set held. rank (snd x) < Suc (rank l)) \<longrightarrow> ordered held rest \<longrightarrow> ordered held (body @ rest)"
  have lt: "\<forall>x\<in>set held. rank (snd x) < rank l" using r below by auto
  then have "\<forall>x\<in>set ((md, l) # held). rank (snd x) < Suc (rank l)" by auto
  with body rest have "ordered ((md, l) # held) (body @ Release md l # rest)" by simp
  with lt show "ordered held (locked md l body @ rest)" by (simp add: locked_def)
qed

lemma bracketed_on_quota [bracketed_rules]: "r \<le> 4 \<Longrightarrow> bracketed r (on_quota md q)"
  by (auto simp: on_quota_def intro: bracketed_rules split: ptr.split)

lemmas quota_locks = locks_Quota_AddPodIfNotPresent_def locks_Quota_DeletePodIfPresent_def locks_Quota_DeletePodsFunc_def
  locks_Quota_SetMax_def locks_Quota_read_def locks_Quota_Clone_def locks_Quota_String_def

lemma bracketed_ApplyOpts [bracketed_rules]: "r \<le> 3 \<Longrightarrow> bracketed r (locks_ApplyOpts q opts)"
  by (auto simp: locks_ApplyOpts_def locks_option_def quota_locks intro!: bracketed_rules split: ptr.split queue_opt.split)

lemma bracketed_Queue_read [bracketed_rules]: "r \<le> 3 \<Longrightarrow> bracketed r (locks_Queue_read q)"
  by (auto simp: locks_Queue_read_def intro!: bracketed_rules split: ptr.split)

lemma bracketed_Queue_Clone [bracketed_rules]: "r \<le> 3 \<Longrightarrow> bracketed r (locks_Queue_Clone q)"
  by (auto simp: locks_Queue_Clone_def quota_locks intro!: bracketed_rules split: ptr.split)

lemma bracketed_lock_prog: "bracketed 0 (lock_prog c)"
  by (cases c) (auto simp: quota_locks locks_Queue_New_def locks_GetByName_def locks_Manager_Put_def locks_Manager_Update_def
      locks_Manager_Delete_def locks_Manager_AddPodIfNotPresent_def locks_Manager_DeletePodIfPresent_def
      locks_Manager_Clone_def locks_Nodes_GetTotal_def locks_Nodes_write_def locks_Factory_StartWithContext_def
      locks_Factory_Shutdown_def locks_Factory_WaitForCacheSync_def locks_Factory_InformerFor_def
      intro!: bracketed_rules split: ptr.split option.split)

lemma ordered_calls: "ordered [] (concat (map lock_prog calls))"
  using bracketed_concat [of calls 0 lock_prog, OF bracketed_lock_prog] unfolding bracketed_def
  by (metis append_Nil2 ordered.simps(1) empty_iff list.set(1))

section \<open>The invariant of the goroutines\<close>

definition disciplined :: "goroutine \<Rightarrow> bool" where
  "disciplined g \<longleftrightarrow> ordered (go_held g) (go_rest g) \<and> (go_pending g \<longrightarrow> (\<exists>l p. go_rest g = Acquire Write l # p))"

definition exclusive :: "goroutine list \<Rightarrow> bool" where
  "exclusive gs \<longleftrightarrow> (\<forall>i j l. i < length gs \<longrightarrow> j < length gs \<longrightarrow> i \<noteq> j \<longrightarrow> writes l (gs ! i) \<longrightarrow> \<not> uses l (gs ! j))"

lemma disciplined_start: "disciplined (start calls)"
  by (simp add: disciplined_def start_def ordered_calls)

lemma exclusive_start: "exclusive (map start css)"
  by (simp add: exclusive_def writes_def start_def)

lemma ex_nth: "list_ex P xs \<longleftrightarrow> (\<exists>i<length xs. P (xs ! i))"
  by (metis list_ex_iff in_set_conv_nth)

text \<open>What a step does to the goroutine that takes it.\<close>

lemma lock_step_cases:
  assumes "lock_step i gs = Some gs'"
  obtains (release) md l p where "i < length gs" "go_rest (gs ! i) = Release md l # p"
      "gs' = gs[i := \<lparr>go_rest = p, go_held = remove1 (md, l) (go_held (gs ! i)), go_pending = False\<rparr>]"
    | (reading) l p where "i < length gs" "go_rest (gs ! i) = Acquire Read l # p" "\<not> list_ex (writes l) gs"
      "gs' = gs[i := \<lparr>go_rest = p, go_held = (Read, l) # go_held (gs ! i), go_pending = False\<rparr>]"
    | (announce) l p where "i < length gs" "go_rest (gs ! i) = Acquire Write l # p" "\<not> go_pending (gs ! i)"
      "gs' = gs[i := (gs ! i)\<lparr>go_pending := True\<rparr>]"
    | (writing) l p where "i < length gs" "go_rest (gs ! i) = Acquire Write l # p" "go_pending (gs ! i)" "\<not> list_ex (uses l) gs"
      "gs' = gs[i := \<lparr>go_rest = p, go_held = (Write, l) # go_held (gs ! i), go_pending = False\<rparr>]"
  using assms unfolding lock_step_def Let_def
  by (simp split: if_split_asm list.split_asm lock_act.split_asm lock_mode.split_asm) (auto simp: list_ex_iff)

lemma step_disciplined:
  assumes "lock_step i gs = Some gs'" "\<forall>g\<in>set gs. disciplined g"
  shows "\<forall>g\<in>set gs'. disciplined g"
proof -
  have g: "i < length gs \<Longrightarrow> disciplined (gs ! i)" using assms(2) by simp
  from assms(1) show ?thesis
    by (cases rule: lock_step_cases) (use g assms(2) in \<open>auto simp: disciplined_def dest!: subsetD [OF set_update_subset_insert]\<close>)
qed

lemma exclusive_update:
  assumes "exclusive gs" "i < length gs"
    and "\<And>l j. writes l g \<Longrightarrow> j < length gs \<Longrightarrow> j \<noteq> i \<Longrightarrow> \<not> uses l (gs ! j)"
    and "\<And>l j. uses l g \<Longrightarrow> j < length gs \<Longrightarrow> j \<noteq> i \<Longrightarrow> \<not> writes l (gs ! j)"
  shows "exclusive (gs[i := g])"
  using assms unfolding exclusive_def by (auto simp: nth_list_update)

lemma exclusiveD:
  "exclusive gs \<Longrightarrow> i < length gs \<Longrightarrow> j < length gs \<Longrightarrow> i \<noteq> j \<Longrightarrow> (Write, l) \<in> set (go_held (gs ! i)) \<Longrightarrow>
    (md, l) \<in> set (go_held (gs ! j)) \<Longrightarrow> False"
  unfolding exclusive_def writes_def uses_def by (metis image_eqI snd_conv)

lemma step_exclusive:
  assumes "lock_step i gs = Some gs'" "exclusive gs"
  shows "exclusive gs'"
  using assms(1)
proof (cases rule: lock_step_cases)
  case (release md l p)
  have "set (remove1 (md, l) (go_held (gs ! i))) \<subseteq> set (go_held (gs ! i))" by (rule set_remove1_subset)
  then show ?thesis unfolding release(3) using assms(2) release(1)
    by (intro exclusive_update) (auto simp: writes_def uses_def dest: exclusiveD)
next
  case (reading l p)
  then show ?thesis unfolding reading(4) using assms(2) reading(1,3)
    by (intro exclusive_update) (auto simp: writes_def uses_def ex_nth dest: exclusiveD)
next
  case (announce l p)
  show ?thesis unfolding announce(4) using assms(2) announce(1)
    by (intro exclusive_update) (auto simp: writes_def uses_def dest: exclusiveD)
next
  case (writing l p)
  have free: "(md, l) \<notin> set (go_held (gs ! j))" if "j < length gs" for md j
    using writing(4) that unfolding ex_nth uses_def by (metis image_eqI snd_conv)
  show ?thesis unfolding writing(5) using assms(2) writing(1)
    by (intro exclusive_update) (auto simp: writes_def uses_def free dest: exclusiveD)
qed

section \<open>Progress\<close>

text \<open>The steps a goroutine still has to take: locking for writing is two, the announcement and the lock.\<close>

fun steps_of :: "lock_act \<Rightarrow> nat" where
  "steps_of (Acquire Write l) = 2"
| "steps_of (Acquire Read l) = 1"
| "steps_of (Release md l) = 1"

definition steps_left :: "goroutine \<Rightarrow> nat" where
  "steps_left g = sum_list (map steps_of (go_rest g)) - (if go_pending g then 1 else 0)"

definition work :: "goroutine list \<Rightarrow> nat" where
  "work gs = sum_list (map steps_left gs)"

definition all_returned :: "goroutine list \<Rightarrow> bool" where
  "all_returned gs = list_all (\<lambda>g. go_rest g = [] \<and> go_held g = []) gs"

lemma work_update: "i < length gs \<Longrightarrow> steps_left (gs ! i) = Suc (steps_left g) \<Longrightarrow> work gs = Suc (work (gs[i := g]))"
proof (induction gs arbitrary: i)
  case (Cons a gs)
  then show ?case by (cases i) (simp_all add: work_def)
qed simp

lemma step_work:
  assumes "lock_step i gs = Some gs'" "\<forall>g\<in>set gs. disciplined g"
  shows "work gs = Suc (work gs')"
proof -
  have g: "i < length gs \<Longrightarrow> disciplined (gs ! i)" using assms(2) by simp
  from assms(1) show ?thesis
  proof (cases rule: lock_step_cases)
    case (release md l p)
    then show ?thesis using g by (auto simp: disciplined_def steps_left_def intro!: work_update)
  next
    case (reading l p)
    then show ?thesis using g by (auto simp: disciplined_def steps_left_def intro!: work_update)
  next
    case (announce l p)
    then show ?thesis by (simp add: steps_left_def work_update)
  next
    case (writing l p)
    then show ?thesis by (simp add: steps_left_def work_update)
  qed
qed

text \<open>
  When no goroutine can take a step, one that still holds a lock waits for a lock of a higher rank; so none
  waits for the lock of the highest rank that is waited for.
\<close>

definition stuck :: "goroutine list \<Rightarrow> bool" where
  "stuck gs \<longleftrightarrow> (\<forall>i. lock_step i gs = None)"

lemma stuck_waits:
  assumes "stuck gs" "g \<in> set gs" "go_rest g \<noteq> []"
  obtains md l p where "go_rest g = Acquire md l # p"
proof -
  obtain i where i: "i < length gs" "gs ! i = g" using assms(2) by (metis in_set_conv_nth)
  have "lock_step i gs = None" using assms(1) by (simp add: stuck_def)
  then show thesis using that i assms(3) unfolding lock_step_def Let_def
    by (cases "go_rest g"; cases "hd (go_rest g)") auto
qed

lemma stuck_holder:
  assumes "stuck gs" "\<forall>g\<in>set gs. disciplined g" "g \<in> set gs" "uses l g"
  obtains md l' p where "go_rest g = Acquire md l' # p" "rank l < rank l'"
proof -
  have d: "ordered (go_held g) (go_rest g)" using assms(2,3) by (simp add: disciplined_def)
  have "go_rest g \<noteq> []" using d assms(4) by (auto simp: uses_def)
  then obtain md l' p where g: "go_rest g = Acquire md l' # p" using stuck_waits assms(1,3) by blast
  then have "rank l < rank l'" using d assms(4) by (auto simp: uses_def)
  with g show thesis by (rule that)
qed

lemma writes_uses: "writes l g \<Longrightarrow> uses l g"
  unfolding writes_def uses_def by (metis image_eqI snd_conv)

lemma stuck_blocked:
  assumes "stuck gs" "g \<in> set gs" "go_rest g = Acquire md l # p"
  shows "\<exists>g'\<in>set gs. uses l g' \<or> pends_on l g'"
proof -
  obtain i where i: "i < length gs" "gs ! i = g" using assms(2) by (metis in_set_conv_nth)
  have "lock_step i gs = None" using assms(1) by (simp add: stuck_def)
  then show ?thesis using i assms(3) unfolding lock_step_def Let_def
    by (cases md; cases "go_pending g") (auto simp: list_ex_iff dest: writes_uses split: if_split_asm)
qed

lemma stuck_holder_exists:
  assumes "stuck gs" "g \<in> set gs" "go_rest g = Acquire md l # p"
  shows "\<exists>g'\<in>set gs. uses l g'"
proof -
  consider "\<exists>g'\<in>set gs. uses l g'" | g' where "g' \<in> set gs" "pends_on l g'" using stuck_blocked [OF assms] by blast
  then show ?thesis
  proof cases
    case 2
    then obtain q where q: "go_rest g' = Acquire Write l # q" "go_pending g'"
      by (auto simp: pends_on_def split: list.split_asm lock_act.split_asm lock_mode.split_asm)
    obtain i where i: "i < length gs" "gs ! i = g'" using 2(1) by (metis in_set_conv_nth)
    have "lock_step i gs = None" using assms(1) by (simp add: stuck_def)
    then show ?thesis using i q by (auto simp: lock_step_def Let_def list_ex_iff split: if_split_asm)
  qed
qed

lemma rank_le: "rank l \<le> 4"
  by (cases l) auto

lemma not_stuck:
  assumes "stuck gs" "\<forall>g\<in>set gs. disciplined g"
  shows "all_returned gs"
proof -
  have no: "False" if "g \<in> set gs" "go_rest g = Acquire md l # p" for g md l p
    using that
  proof (induction "4 - rank l" arbitrary: g md l p rule: less_induct)
    case less
    obtain g' where g': "g' \<in> set gs" "uses l g'" using stuck_holder_exists [OF assms(1) less.prems] by blast
    obtain md' l' p' where n: "go_rest g' = Acquire md' l' # p'" "rank l < rank l'"
      by (rule stuck_holder [OF assms g'])
    have "4 - rank l' < 4 - rank l" using n(2) rank_le [of l'] by simp
    from less.hyps [OF this g'(1) n(1)] show ?case .
  qed
  have "go_rest g = [] \<and> go_held g = []" if g: "g \<in> set gs" for g
  proof -
    have "go_rest g = []" using no stuck_waits [OF assms(1) g] g by metis
    then show ?thesis using assms(2) g by (auto simp: disciplined_def)
  qed
  then show ?thesis by (simp add: all_returned_def list_all_iff)
qed

section \<open>Schedules\<close>

lemma schedule_keeps:
  assumes "for_each lock_step is gs = Some gs'" "\<forall>g\<in>set gs. disciplined g" "exclusive gs"
  shows "(\<forall>g\<in>set gs'. disciplined g) \<and> exclusive gs' \<and> work gs = length is + work gs'"
  using assms
proof (induction "is" arbitrary: gs)
  case (Cons i "is")
  then obtain gs1 where s: "lock_step i gs = Some gs1" "for_each lock_step is gs1 = Some gs'" by (auto split: bind_splits)
  from Cons.IH [OF s(2) step_disciplined [OF s(1) Cons.prems(2)] step_exclusive [OF s(1) Cons.prems(3)]]
  show ?case using step_work [OF s(1) Cons.prems(2)] by simp
qed simp

lemma schedule_completes:
  "\<forall>g\<in>set gs. disciplined g \<Longrightarrow> \<exists>js gs'. for_each lock_step js gs = Some gs' \<and> all_returned gs'"
proof (induction "work gs" arbitrary: gs rule: less_induct)
  case less
  show ?case
  proof (cases "stuck gs")
    case True
    then show ?thesis using not_stuck [OF True less.prems] by (metis for_each.simps(1))
  next
    case False
    then obtain i gs1 where s: "lock_step i gs = Some gs1" by (auto simp: stuck_def)
    have "work gs1 < work gs" using step_work [OF s less.prems] by simp
    from less.hyps [OF this step_disciplined [OF s less.prems]]
    obtain js gs' where "for_each lock_step js gs1 = Some gs'" "all_returned gs'" by blast
    then have "for_each lock_step (i # js) gs = Some gs'" using s by simp
    with \<open>all_returned gs'\<close> show ?thesis by blast
  qed
qed

text \<open>
  C8. No interleaving of any goroutines that call the methods of the manager, the queues, the quotas, the
  node aggregator and the informer factory, on any objects, deadlocks. After any schedule either every call
  has returned and no lock is held, or some goroutine can go on; every schedule can be completed, and none is
  longer than the work the calls had at first, so that all the calls return however they are scheduled. While
  one goroutine holds a lock for writing, no other one holds it.
\<close>

theorem no_deadlock:
  assumes "for_each lock_step is (map start css) = Some gs"
  shows "(all_returned gs \<or> (\<exists>i. lock_step i gs \<noteq> None)) \<and>
    (\<exists>js gs'. for_each lock_step (is @ js) (map start css) = Some gs' \<and> all_returned gs') \<and>
    work (map start css) = length is + work gs \<and>
    (\<forall>i<length gs. \<forall>j<length gs. \<forall>l. i \<noteq> j \<and> writes l (gs ! i) \<longrightarrow> \<not> uses l (gs ! j))"
proof -
  have k: "\<forall>g\<in>set gs. disciplined g" "exclusive gs" "work (map start css) = length is + work gs"
    using schedule_keeps [OF assms] exclusive_start disciplined_start by auto
  obtain js gs' where "for_each lock_step js gs = Some gs'" "all_returned gs'" using schedule_completes [OF k(1)] by blast
  then have "for_each lock_step (is @ js) (map start css) = Some gs' \<and> all_returned gs'"
    using assms by (simp add: for_each_append)
  then show ?thesis using not_stuck [OF _ k(1)] k by (auto simp: stuck_def exclusive_def)
qed

text \<open>
  A snapshot is taken while a pod is added and a queue is updated: the update waits for the snapshot's
  read lock, the addition is kept out by the update that waits, and still every call returns.
\<close>

definition three_calls :: "locking_call list list" where
  "three_calls = [[CallClone 0 [Ptr (1, Ptr 2)]], [CallUpdate 0 (Ptr (1, Ptr 2)) 3 4 [OptQuotaMax]], [CallAddPod 0 (Some (Ptr (1, Ptr 2)))]]"

lemma three_calls_wait:
  "case for_each lock_step [0, 1] (map start three_calls) of None \<Rightarrow> False
   | Some gs \<Rightarrow> Option.is_none (lock_step 1 gs) \<and> Option.is_none (lock_step 2 gs)"
  by code_simp

theorem no_deadlock_witness:
  "\<exists>gs. for_each lock_step [0, 1] (map start three_calls) = Some gs \<and> lock_step 1 gs = None \<and> lock_step 2 gs = None \<and>
    work (map start three_calls) = 2 + work gs \<and>
    (\<exists>js gs'. for_each lock_step ([0, 1] @ js) (map start three_calls) = Some gs' \<and> all_returned gs')"
proof -
  obtain gs where gs: "for_each lock_step [0, 1] (map start three_calls) = Some gs" "lock_step 1 gs = None" "lock_step 2 gs = None"
    using three_calls_wait by (auto simp: Option.is_none_def split: option.split_asm)
  show ?thesis using gs no_deadlock [OF gs(1)] by auto
qed

end
