(* ===== verification/DeepCopy.thy ===== *)
theory DeepCopy
  imports Prelude
begin

text \<open>
  What it is to copy a Go value deeply, for values that reach other values through pointers, maps
  and slices in a heap of cells.

  The locale \<open>deep_copy\<close> is the contract. The lemmas after it build the contract for a larger
  type from the contracts of its parts in the three ways the generated code does: behind a pointer
  (\<open>copy_ptr\<close>), for the fields of a struct, and for the elements of a slice.
\<close>

record 'c heap =
  hp_next :: addr
  hp_cell :: "addr \<Rightarrow> 'c option"

definition heap_wf :: "'c heap \<Rightarrow> bool" where
  "heap_wf h \<longleftrightarrow> (\<forall>a. hp_next h \<le> a \<longrightarrow> hp_cell h a = None)"

definition grows :: "'c heap \<Rightarrow> 'c heap \<Rightarrow> bool" where
  "grows h h' \<longleftrightarrow> hp_next h \<le> hp_next h' \<and> (\<forall>a < hp_next h. hp_cell h' a = hp_cell h a)"

definition alloc_cell :: "'c \<Rightarrow> 'c heap \<Rightarrow> addr \<times> 'c heap" where
  "alloc_cell c h = (hp_next h, \<lparr>hp_next = Suc (hp_next h), hp_cell = (hp_cell h)(hp_next h \<mapsto> c)\<rparr>)"

definition agree_on :: "addr set \<Rightarrow> 'c heap \<Rightarrow> 'c heap \<Rightarrow> bool" where
  "agree_on A h h' \<longleftrightarrow> (\<forall>a \<in> A. hp_cell h' a = hp_cell h a)"

text \<open>
  A pointer to a value of one type: a fresh cell with a copy of the value. \<open>get\<close> reads a cell as a
  value of that type, \<open>mk\<close> makes a cell of one.
\<close>

definition copy_ptr :: "('c \<Rightarrow> 'a option) \<Rightarrow> ('a \<Rightarrow> 'c) \<Rightarrow> ('a \<Rightarrow> 'c heap \<Rightarrow> ('a \<times> 'c heap) option) \<Rightarrow> addr ptr \<Rightarrow> 'c heap \<Rightarrow> (addr ptr \<times> 'c heap) option" where
  "copy_ptr get mk copy p h = (case p of
     NilP \<Rightarrow> Some (NilP, h)
   | Ptr a \<Rightarrow> do {
       c \<leftarrow> hp_cell h a;
       x \<leftarrow> get c;
       (x', h1) \<leftarrow> copy x h;
       let (a', h2) = alloc_cell (mk x') h1;
       Some (Ptr a', h2) })"

definition deref_cell :: "('c \<Rightarrow> 'a option) \<Rightarrow> 'c heap \<Rightarrow> addr \<Rightarrow> 'a option" where
  "deref_cell get h a = do { c \<leftarrow> hp_cell h a; get c }"

definition typed_ptr :: "('c \<Rightarrow> 'a option) \<Rightarrow> ('c heap \<Rightarrow> 'a \<Rightarrow> bool) \<Rightarrow> 'c heap \<Rightarrow> addr ptr \<Rightarrow> bool" where
  "typed_ptr get typed h p = (case p of NilP \<Rightarrow> True
   | Ptr a \<Rightarrow> (case deref_cell get h a of None \<Rightarrow> False | Some x \<Rightarrow> typed h x))"

definition reach_ptr :: "('c \<Rightarrow> 'a option) \<Rightarrow> ('c heap \<Rightarrow> 'a \<Rightarrow> addr set) \<Rightarrow> 'c heap \<Rightarrow> addr ptr \<Rightarrow> addr set" where
  "reach_ptr get reach h p = (case p of NilP \<Rightarrow> {}
   | Ptr a \<Rightarrow> insert a (case deref_cell get h a of None \<Rightarrow> {} | Some x \<Rightarrow> reach h x))"

definition view_ptr :: "('c \<Rightarrow> 'a option) \<Rightarrow> ('c heap \<Rightarrow> 'a \<Rightarrow> 'v) \<Rightarrow> 'c heap \<Rightarrow> addr ptr \<Rightarrow> 'v ptr" where
  "view_ptr get view h p = (case p of NilP \<Rightarrow> NilP
   | Ptr a \<Rightarrow> (case deref_cell get h a of None \<Rightarrow> NilP | Some x \<Rightarrow> Ptr (view h x)))"

text \<open>The elements of a slice, one after the other.\<close>

fun copy_list :: "('a \<Rightarrow> 'c heap \<Rightarrow> ('a \<times> 'c heap) option) \<Rightarrow> 'a list \<Rightarrow> 'c heap \<Rightarrow> ('a list \<times> 'c heap) option" where
  "copy_list copy [] h = Some ([], h)"
| "copy_list copy (x # xs) h = do {
     (x', h1) \<leftarrow> copy x h;
     (xs', h2) \<leftarrow> copy_list copy xs h1;
     Some (x' # xs', h2) }"

section \<open>The contract\<close>

text \<open>
  \<open>copy x h\<close> returns the copy of \<open>x\<close> and the heap after it. A value is well typed (\<open>typed\<close>) if the
  cells it leads to exist and hold what the types say; \<open>reach\<close> are those cells, \<open>view\<close> is what the
  value denotes. A copy of a well-typed value succeeds, changes no cell that was there, and is
  well typed; it denotes what the value did and leads only to cells that are new.
\<close>

locale deep_copy =
  fixes copy :: "'a \<Rightarrow> 'c heap \<Rightarrow> ('a \<times> 'c heap) option"
    and typed :: "'c heap \<Rightarrow> 'a \<Rightarrow> bool"
    and reach :: "'c heap \<Rightarrow> 'a \<Rightarrow> addr set"
    and view :: "'c heap \<Rightarrow> 'a \<Rightarrow> 'v"
  assumes copy_ok: "heap_wf h \<Longrightarrow> typed h x \<Longrightarrow> \<exists>x' h'. copy x h = Some (x', h') \<and> heap_wf h' \<and> grows h h' \<and>
      typed h' x' \<and> view h' x' = view h x \<and> (\<forall>a \<in> reach h' x'. hp_next h \<le> a)"
    and local: "typed h x \<Longrightarrow> agree_on (reach h x) h h' \<Longrightarrow>
      typed h' x \<and> reach h' x = reach h x \<and> view h' x = view h x"
    and reach_valid: "heap_wf h \<Longrightarrow> typed h x \<Longrightarrow> a \<in> reach h x \<Longrightarrow> a < hp_next h"

lemma grows_refl [simp]: "grows h h"
  by (simp add: grows_def)

lemma grows_trans: "grows h h' \<Longrightarrow> grows h' h'' \<Longrightarrow> grows h h''"
  by (simp add: grows_def)

lemma agree_on_subset: "agree_on A h h' \<Longrightarrow> B \<subseteq> A \<Longrightarrow> agree_on B h h'"
  by (auto simp: agree_on_def)

lemma alloc_simps:
  assumes "alloc_cell c h = (a, h')"
  shows "a = hp_next h" and "hp_cell h' = (hp_cell h)(a \<mapsto> c)" and "grows h h'" and "heap_wf h \<Longrightarrow> heap_wf h'"
  using assms by (auto simp: alloc_cell_def grows_def heap_wf_def)

context deep_copy
begin

text \<open>Growing the heap changes nothing of a well-typed value.\<close>

lemma grown:
  assumes "heap_wf h" and "typed h x" and "grows h h'"
  shows "typed h' x" and "reach h' x = reach h x" and "view h' x = view h x"
proof -
  have "agree_on (reach h x) h h'" using assms reach_valid by (auto simp: agree_on_def grows_def)
  from local [OF assms(2) this] show "typed h' x" "reach h' x = reach h x" "view h' x = view h x" by blast+
qed

text \<open>The value and its copy have no cell in common, so writing to one does not show in the other.\<close>

lemma independent:
  assumes "heap_wf h" and "typed h x" and "copy x h = Some (x', h')"
  shows "reach h' x \<inter> reach h' x' = {}"
    and "agree_on (- reach h' x') h' h'' \<Longrightarrow> typed h'' x \<and> view h'' x = view h x"
    and "agree_on (- reach h' x) h' h'' \<Longrightarrow> typed h'' x' \<and> view h'' x' = view h x"
proof -
  from copy_ok [OF assms(1,2)] assms(3) have c: "heap_wf h'" "grows h h'" "typed h' x'" "view h' x' = view h x"
    "\<forall>a \<in> reach h' x'. hp_next h \<le> a" by auto
  note g = grown [OF assms(1,2) c(2)]
  show d: "reach h' x \<inter> reach h' x' = {}" using c(5) g(2) reach_valid [OF assms(1,2)] by fastforce
  show "typed h'' x \<and> view h'' x = view h x" if "agree_on (- reach h' x') h' h''"
    using local [OF g(1), of h''] agree_on_subset [OF that, of "reach h' x"] d g(3) by auto
  show "typed h'' x' \<and> view h'' x' = view h x" if "agree_on (- reach h' x) h' h''"
    using local [OF c(3), of h''] agree_on_subset [OF that, of "reach h' x'"] d c(4) by auto
qed

end

section \<open>Building contracts\<close>

text \<open>A value that leads nowhere is its own copy, up to a function that does not change what it denotes.\<close>

lemma deep_copy_plain:
  assumes "\<And>x. ok x \<Longrightarrow> ok (f x) \<and> v (f x) = v x"
  shows "deep_copy (\<lambda>x h. Some (f x, h)) (\<lambda>h x. ok x) (\<lambda>h x. {}) (\<lambda>h x. v x)"
  by unfold_locales (use assms in auto)

lemma deep_copy_ptr:
  assumes dc: "deep_copy copy typed reach view" and mk: "\<And>x. get (mk x) = Some x"
  shows "deep_copy (copy_ptr get mk copy) (typed_ptr get typed) (reach_ptr get reach) (view_ptr get view)"
proof
  fix h :: "'b heap" and p
  assume h: "heap_wf h" and t: "typed_ptr get typed h p"
  show "\<exists>p' h'. copy_ptr get mk copy p h = Some (p', h') \<and> heap_wf h' \<and> grows h h' \<and> typed_ptr get typed h' p' \<and>
      view_ptr get view h' p' = view_ptr get view h p \<and> (\<forall>a \<in> reach_ptr get reach h' p'. hp_next h \<le> a)"
  proof (cases p)
    case NilP
    then show ?thesis using h by (simp add: copy_ptr_def typed_ptr_def view_ptr_def reach_ptr_def)
  next
    case (Ptr a)
    with t obtain c x where x: "hp_cell h a = Some c" "get c = Some x" "typed h x"
      by (auto simp: typed_ptr_def deref_cell_def split: option.splits bind_splits)
    from deep_copy.copy_ok [OF dc h x(3)] obtain x' h1 where
      c: "copy x h = Some (x', h1)" "heap_wf h1" "grows h h1" "typed h1 x'" "view h1 x' = view h x"
        "\<forall>a \<in> reach h1 x'. hp_next h \<le> a" by blast
    obtain a' h2 where al: "alloc_cell (mk x') h1 = (a', h2)" by (cases "alloc_cell (mk x') h1")
    note al' = alloc_simps [OF al]
    note g = deep_copy.grown [OF dc c(2,4) al'(3)]
    have "deref_cell get h2 a' = Some x'" using al'(2) mk by (simp add: deref_cell_def)
    moreover have "copy_ptr get mk copy p h = Some (Ptr a', h2)" using Ptr x c(1) al by (simp add: copy_ptr_def)
    moreover have "hp_next h \<le> a'" using al'(1) c(3) by (simp add: grows_def)
    ultimately show ?thesis
      using Ptr x c(3,5,6) g al'(4) [OF c(2)] grows_trans [OF c(3) al'(3)]
      by (auto simp: typed_ptr_def view_ptr_def reach_ptr_def deref_cell_def)
  qed
next
  fix h h' :: "'b heap" and p
  assume t: "typed_ptr get typed h p" and ag: "agree_on (reach_ptr get reach h p) h h'"
  show "typed_ptr get typed h' p \<and> reach_ptr get reach h' p = reach_ptr get reach h p \<and> view_ptr get view h' p = view_ptr get view h p"
  proof (cases p)
    case (Ptr a)
    with t obtain x where x: "deref_cell get h a = Some x" "typed h x"
      by (auto simp: typed_ptr_def split: option.splits)
    with ag Ptr have a: "hp_cell h' a = hp_cell h a" "agree_on (reach h x) h h'"
      by (auto simp: reach_ptr_def agree_on_def)
    from deep_copy.local [OF dc x(2) a(2)] x Ptr a(1) show ?thesis
      by (auto simp: typed_ptr_def view_ptr_def reach_ptr_def deref_cell_def)
  qed (simp add: typed_ptr_def view_ptr_def reach_ptr_def)
next
  fix h :: "'b heap" and p a
  assume "heap_wf h" "typed_ptr get typed h p" "a \<in> reach_ptr get reach h p"
  then show "a < hp_next h"
    using deep_copy.reach_valid [OF dc]
    by (auto simp: typed_ptr_def reach_ptr_def deref_cell_def heap_wf_def split: ptr.splits option.splits bind_splits)
      (metis not_le option.distinct(1))
qed

text \<open>
  Two fields of a struct, copied one after the other. \<open>proj\<close> takes the two fields out, \<open>put\<close> puts
  their copies into the struct that \<^verbatim>\<open>*out = *in\<close> has made, and \<open>rest\<close> is what the assignment alone
  copies.
\<close>

lemma deep_copy_pair:
  assumes f: "deep_copy copyF typedF reachF viewF" and g: "deep_copy copyG typedG reachG viewG"
  shows "deep_copy (\<lambda>x h. do { (a, h1) \<leftarrow> copyF (fst x) h; (b, h2) \<leftarrow> copyG (snd x) h1; Some ((a, b), h2) })
    (\<lambda>h x. typedF h (fst x) \<and> typedG h (snd x)) (\<lambda>h x. reachF h (fst x) \<union> reachG h (snd x))
    (\<lambda>h x. (viewF h (fst x), viewG h (snd x)))"
proof
  fix h :: "'b heap" and x
  assume h: "heap_wf h" and t: "typedF h (fst x) \<and> typedG h (snd x)"
  from deep_copy.copy_ok [OF f h] t obtain a h1 where
    a: "copyF (fst x) h = Some (a, h1)" "heap_wf h1" "grows h h1" "typedF h1 a" "viewF h1 a = viewF h (fst x)"
      "\<forall>b \<in> reachF h1 a. hp_next h \<le> b" by blast
  note g1 = deep_copy.grown [OF g h conjunct2 [OF t] a(3)]
  from deep_copy.copy_ok [OF g a(2) g1(1)] obtain b h2 where
    b: "copyG (snd x) h1 = Some (b, h2)" "heap_wf h2" "grows h1 h2" "typedG h2 b" "viewG h2 b = viewG h1 (snd x)"
      "\<forall>c \<in> reachG h2 b. hp_next h1 \<le> c" by blast
  note f2 = deep_copy.grown [OF f a(2,4) b(3)]
  have "hp_next h \<le> hp_next h1" using a(3) by (simp add: grows_def)
  with a b f2 g1(3) grows_trans [OF a(3) b(3)] show "\<exists>x' h'. do { (a, h1) \<leftarrow> copyF (fst x) h; (b, h2) \<leftarrow> copyG (snd x) h1; Some ((a, b), h2) } = Some (x', h') \<and>
      heap_wf h' \<and> grows h h' \<and> (typedF h' (fst x') \<and> typedG h' (snd x')) \<and>
      (viewF h' (fst x'), viewG h' (snd x')) = (viewF h (fst x), viewG h (snd x)) \<and>
      (\<forall>a \<in> reachF h' (fst x') \<union> reachG h' (snd x'). hp_next h \<le> a)" by (auto intro: order_trans)
next
  fix h h' :: "'b heap" and x
  assume "typedF h (fst x) \<and> typedG h (snd x)" "agree_on (reachF h (fst x) \<union> reachG h (snd x)) h h'"
  then show "(typedF h' (fst x) \<and> typedG h' (snd x)) \<and> reachF h' (fst x) \<union> reachG h' (snd x) = reachF h (fst x) \<union> reachG h (snd x) \<and>
      (viewF h' (fst x), viewG h' (snd x)) = (viewF h (fst x), viewG h (snd x))"
    using deep_copy.local [OF f, of h "fst x" h'] deep_copy.local [OF g, of h "snd x" h'] by (simp add: agree_on_def)
next
  show "a < hp_next h" if "heap_wf h" "typedF h (fst x) \<and> typedG h (snd x)" "a \<in> reachF h (fst x) \<union> reachG h (snd x)" for h x a
    using that deep_copy.reach_valid [OF f] deep_copy.reach_valid [OF g] by blast
qed

lemma deep_copy_struct:
  assumes dc: "deep_copy copy typed reach view" and "\<And>r x. proj (put r x) = x" and "\<And>r x. rest (put r x) = rest r"
  shows "deep_copy (\<lambda>r h. do { (x, h') \<leftarrow> copy (proj r) h; Some (put r x, h') }) (\<lambda>h r. typed h (proj r))
    (\<lambda>h r. reach h (proj r)) (\<lambda>h r. (rest r, view h (proj r)))"
proof
  show "\<exists>r' h'. do { (x, h') \<leftarrow> copy (proj r) h; Some (put r x, h') } = Some (r', h') \<and> heap_wf h' \<and> grows h h' \<and>
      typed h' (proj r') \<and> (rest r', view h' (proj r')) = (rest r, view h (proj r)) \<and> (\<forall>a \<in> reach h' (proj r'). hp_next h \<le> a)"
    if "heap_wf h" "typed h (proj r)" for h r
    using deep_copy.copy_ok [OF dc that] assms(2,3) by force
  show "typed h' (proj r) \<and> reach h' (proj r) = reach h (proj r) \<and> (rest r, view h' (proj r)) = (rest r, view h (proj r))"
    if "typed h (proj r)" "agree_on (reach h (proj r)) h h'" for h h' r
    using deep_copy.local [OF dc that] by simp
  show "a < hp_next h" if "heap_wf h" "typed h (proj r)" "a \<in> reach h (proj r)" for h r a
    using deep_copy.reach_valid [OF dc that] .
qed

lemma deep_copy_list:
  assumes dc: "deep_copy copy typed reach view"
  shows "deep_copy (copy_list copy) (\<lambda>h xs. list_all (typed h) xs) (\<lambda>h xs. \<Union> (reach h ` set xs)) (\<lambda>h xs. map (view h) xs)"
proof
  fix h :: "'b heap" and xs
  assume "heap_wf h" "list_all (typed h) xs"
  then show "\<exists>xs' h'. copy_list copy xs h = Some (xs', h') \<and> heap_wf h' \<and> grows h h' \<and> list_all (typed h') xs' \<and>
      map (view h') xs' = map (view h) xs \<and> (\<forall>a \<in> \<Union> (reach h' ` set xs'). hp_next h \<le> a)"
  proof (induction xs arbitrary: h)
    case Nil
    then show ?case by simp
  next
    case (Cons x xs)
    from deep_copy.copy_ok [OF dc Cons.prems(1), of x] Cons.prems(2) obtain x' h1 where
      x: "copy x h = Some (x', h1)" "heap_wf h1" "grows h h1" "typed h1 x'" "view h1 x' = view h x"
        "\<forall>a \<in> reach h1 x'. hp_next h \<le> a" by auto
    have t: "list_all (typed h1) xs" and v: "map (view h1) xs = map (view h) xs"
      using Cons.prems deep_copy.grown [OF dc Cons.prems(1) _ x(3)] by (auto simp: list_all_iff)
    from Cons.IH [OF x(2) t] obtain xs' h2 where
      xs: "copy_list copy xs h1 = Some (xs', h2)" "heap_wf h2" "grows h1 h2" "list_all (typed h2) xs'"
        "map (view h2) xs' = map (view h1) xs" "\<forall>a \<in> \<Union> (reach h2 ` set xs'). hp_next h1 \<le> a" by blast
    note g = deep_copy.grown [OF dc x(2,4) xs(3)]
    have "hp_next h \<le> hp_next h1" using x(3) by (simp add: grows_def)
    then have "\<forall>a \<in> \<Union> (reach h2 ` set (x' # xs')). hp_next h \<le> a" using xs(6) x(6) g(2) by (auto intro: order_trans)
    with x(1,5) xs(1,2,4,5) g v grows_trans [OF x(3) xs(3)] show ?case by auto
  qed
next
  fix h h' :: "'b heap" and xs
  assume "list_all (typed h) xs" and "agree_on (\<Union> (reach h ` set xs)) h h'"
  then have "\<forall>x \<in> set xs. typed h' x \<and> reach h' x = reach h x \<and> view h' x = view h x"
    using deep_copy.local [OF dc, of h _ h'] by (auto simp: list_all_iff agree_on_def)
  then show "list_all (typed h') xs \<and> \<Union> (reach h' ` set xs) = \<Union> (reach h ` set xs) \<and> map (view h') xs = map (view h) xs"
    by (simp add: list_all_iff)
next
  show "a < hp_next h" if "heap_wf h" "list_all (typed h) xs" "a \<in> \<Union> (reach h ` set xs)" for h xs a
    using that deep_copy.reach_valid [OF dc] by (auto simp: list_all_iff)
qed

section \<open>Shapes\<close>

text \<open>What it means for a value of a type to be well typed, the cells it leads to, and what it denotes.\<close>

record ('a, 'c, 'v) shape =
  sh_typed :: "'c heap \<Rightarrow> 'a \<Rightarrow> bool"
  sh_reach :: "'c heap \<Rightarrow> 'a \<Rightarrow> addr set"
  sh_view :: "'c heap \<Rightarrow> 'a \<Rightarrow> 'v"

definition shape_plain :: "('a \<Rightarrow> bool) \<Rightarrow> ('a \<Rightarrow> 'v) \<Rightarrow> ('a, 'c, 'v) shape" where
  "shape_plain ok v = \<lparr>sh_typed = (\<lambda>h x. ok x), sh_reach = (\<lambda>h x. {}), sh_view = (\<lambda>h x. v x)\<rparr>"

definition shape_ptr :: "('c \<Rightarrow> 'a option) \<Rightarrow> ('a, 'c, 'v) shape \<Rightarrow> (addr ptr, 'c, 'v ptr) shape" where
  "shape_ptr get S = \<lparr>sh_typed = typed_ptr get (sh_typed S), sh_reach = reach_ptr get (sh_reach S),
     sh_view = view_ptr get (sh_view S)\<rparr>"

definition shape_pair :: "('a, 'c, 'v) shape \<Rightarrow> ('b, 'c, 'w) shape \<Rightarrow> ('a \<times> 'b, 'c, 'v \<times> 'w) shape" where
  "shape_pair S T = \<lparr>sh_typed = (\<lambda>h x. sh_typed S h (fst x) \<and> sh_typed T h (snd x)),
     sh_reach = (\<lambda>h x. sh_reach S h (fst x) \<union> sh_reach T h (snd x)),
     sh_view = (\<lambda>h x. (sh_view S h (fst x), sh_view T h (snd x)))\<rparr>"

definition shape_struct :: "('r \<Rightarrow> 'a) \<Rightarrow> ('r \<Rightarrow> 'w) \<Rightarrow> ('a, 'c, 'v) shape \<Rightarrow> ('r, 'c, 'w \<times> 'v) shape" where
  "shape_struct proj rest S = \<lparr>sh_typed = (\<lambda>h r. sh_typed S h (proj r)), sh_reach = (\<lambda>h r. sh_reach S h (proj r)),
     sh_view = (\<lambda>h r. (rest r, sh_view S h (proj r)))\<rparr>"

definition shape_list :: "('a, 'c, 'v) shape \<Rightarrow> ('a list, 'c, 'v list) shape" where
  "shape_list S = \<lparr>sh_typed = (\<lambda>h xs. list_all (sh_typed S h) xs), sh_reach = (\<lambda>h xs. \<Union> (sh_reach S h ` set xs)),
     sh_view = (\<lambda>h xs. map (sh_view S h) xs)\<rparr>"

definition copies :: "('a \<Rightarrow> 'c heap \<Rightarrow> ('a \<times> 'c heap) option) \<Rightarrow> ('a, 'c, 'v) shape \<Rightarrow> bool" where
  "copies copy S \<longleftrightarrow> deep_copy copy (sh_typed S) (sh_reach S) (sh_view S)"

lemma copies_plain: "(\<And>x. ok x \<Longrightarrow> ok (f x) \<and> v (f x) = v x) \<Longrightarrow> copies (\<lambda>x h. Some (f x, h)) (shape_plain ok v)"
  unfolding copies_def shape_plain_def shape.simps by (rule deep_copy_plain)

lemma copies_ptr: "copies copy S \<Longrightarrow> (\<And>x. get (mk x) = Some x) \<Longrightarrow> copies (copy_ptr get mk copy) (shape_ptr get S)"
  unfolding copies_def shape_ptr_def shape.simps by (rule deep_copy_ptr)

lemma copies_list: "copies copy S \<Longrightarrow> copies (copy_list copy) (shape_list S)"
  unfolding copies_def shape_list_def shape.simps by (rule deep_copy_list)

text \<open>A struct with one, two and three fields that have to be copied.\<close>

lemma copies_struct1:
  assumes "copies copy S" and "\<And>r x. proj (put r x) = x" and "\<And>r x. rest (put r x) = rest r"
    and "\<And>r h. into r h = do { (x, h') \<leftarrow> copy (proj r) h; Some (put r x, h') }"
  shows "copies into (shape_struct proj rest S)"
proof -
  have "into = (\<lambda>r h. do { (x, h') \<leftarrow> copy (proj r) h; Some (put r x, h') })" using assms(4) by blast
  moreover have "deep_copy (\<lambda>r h. do { (x, h') \<leftarrow> copy (proj r) h; Some (put r x, h') }) (\<lambda>h r. sh_typed S h (proj r))
      (\<lambda>h r. sh_reach S h (proj r)) (\<lambda>h r. (rest r, sh_view S h (proj r)))"
    by (rule deep_copy_struct [where proj = proj and put = put and rest = rest])
      (use assms(1) in \<open>simp add: copies_def\<close>, simp_all add: assms(2,3))
  ultimately show ?thesis by (simp add: copies_def shape_struct_def)
qed

lemma copies_pair:
  "copies f S \<Longrightarrow> copies g T \<Longrightarrow>
     copies (\<lambda>x h. do { (a, h1) \<leftarrow> f (fst x) h; (b, h2) \<leftarrow> g (snd x) h1; Some ((a, b), h2) }) (shape_pair S T)"
  unfolding copies_def shape_pair_def shape.simps by (rule deep_copy_pair)

lemma copies_struct2:
  assumes "copies f S" and "copies g T" and "\<And>r a b. proj (put r a b) = (a, b)" and "\<And>r a b. rest (put r a b) = rest r"
    and "\<And>r h. into r h = do { (a, h1) \<leftarrow> f (fst (proj r)) h; (b, h2) \<leftarrow> g (snd (proj r)) h1; Some (put r a b, h2) }"
  shows "copies into (shape_struct proj rest (shape_pair S T))"
  by (rule copies_struct1 [OF copies_pair [OF assms(1,2)], where put = "\<lambda>r x. put r (fst x) (snd x)"])
    (simp_all add: assms(3-5) split: prod.split bind_split)

lemma copies_struct3:
  assumes "copies f S" and "copies g T" and "copies k U" and "\<And>r a b c. proj (put r a b c) = (a, b, c)" and "\<And>r a b c. rest (put r a b c) = rest r"
    and "\<And>r h. into r h = do { (a, h1) \<leftarrow> f (fst (proj r)) h; (b, h2) \<leftarrow> g (fst (snd (proj r))) h1;
      (c, h3) \<leftarrow> k (snd (snd (proj r))) h2; Some (put r a b c, h3) }"
  shows "copies into (shape_struct proj rest (shape_pair S (shape_pair T U)))"
  by (rule copies_struct2 [OF assms(1) copies_pair [OF assms(2,3)], where put = "\<lambda>r a x. put r a (fst x) (snd x)"])
    (simp_all add: assms(4-6) split: prod.split bind_split)

end
