(* ===== verification/GeneratedCopies.thy ===== *)
theory GeneratedCopies
  imports DeepCopy QueueApi RefKube
begin

text \<open>
  \<^verbatim>\<open>zz_generated.deepcopy.go\<close> of \<^verbatim>\<open>apis/scheduling/v1\<close> and \<^verbatim>\<open>apis/config/v1\<close>: the deep copies of the
  API types, on a heap.

  A struct is a record whose fields of pointer, map and slice type are addresses of cells. A
  \<^verbatim>\<open>DeepCopyInto\<close> is a function of the struct it reads that returns the struct it leaves in
  \<^verbatim>\<open>*out\<close>: since it starts with \<^verbatim>\<open>*out = *in\<close>, nothing of the former \<^verbatim>\<open>*out\<close> remains. A \<^verbatim>\<open>DeepCopy\<close>
  takes and returns addresses. The structs of the API machinery are values of the type \<open>'x\<close>, and
  their \<^verbatim>\<open>DeepCopyInto\<close> methods are parameters (\<open>machinery\<close>) that have the contract of a deep copy.
\<close>

section \<open>Structs and cells\<close>

record api_rule =
  rule_FromPods :: "addr ptr"
  rule_ToPods :: "addr ptr"

record api_preemption_spec =
  pspec_Preempts :: api_rule
  pspec_PreemptedBy :: api_rule

record api_quota_spec =
  qspec_Max :: "addr ptr"

record api_queue_spec =
  aspec_Quota :: api_quota_spec
  aspec_Preemption :: api_preemption_spec

record api_quota_status =
  qstat_EffectiveMax :: "addr ptr"
  qstat_Used :: "addr ptr"

record api_queue_status =
  astat_Quota :: api_quota_status

record 'x api_queue =
  aq_TypeMeta :: "string \<times> string"
  aq_ObjectMeta :: 'x
  aq_Spec :: api_queue_spec
  aq_Status :: api_queue_status

record 'x api_queue_list =
  al_TypeMeta :: "string \<times> string"
  al_ListMeta :: 'x
  al_Items :: "addr ptr"

record api_preemption_config =
  apc_MaxCandidateNodes :: "addr ptr"

record api_args =
  aargs_TypeMeta :: "string \<times> string"
  aargs_Preemption :: api_preemption_config

datatype ('q, 'x) api_cell =
    CResourceList "(string \<times> 'q) list"
  | CInt32 int32
  | CMachinery 'x
  | CLabelSelector 'x
  | CPreemptionRule api_rule
  | CPreemptionSpec api_preemption_spec
  | CQuotaSpec api_quota_spec
  | CQueueSpec api_queue_spec
  | CQuotaStatus api_quota_status
  | CQueueStatus api_queue_status
  | CQueue "'x api_queue"
  | CQueues "'x api_queue list"
  | CQueueList "'x api_queue_list"
  | CPreemptionConfig api_preemption_config
  | CArgs api_args

type_synonym ('q, 'x) api_heap = "('q, 'x) api_cell heap"

definition get_resources :: "('q, 'x) api_cell \<Rightarrow> (string \<times> 'q) list option" where
  "get_resources c = (case c of CResourceList x \<Rightarrow> Some x | _ \<Rightarrow> None)"

definition get_int32 :: "('q, 'x) api_cell \<Rightarrow> int32 option" where
  "get_int32 c = (case c of CInt32 x \<Rightarrow> Some x | _ \<Rightarrow> None)"

definition get_selector :: "('q, 'x) api_cell \<Rightarrow> 'x option" where
  "get_selector c = (case c of CLabelSelector x \<Rightarrow> Some x | _ \<Rightarrow> None)"

definition get_rule :: "('q, 'x) api_cell \<Rightarrow> api_rule option" where
  "get_rule c = (case c of CPreemptionRule x \<Rightarrow> Some x | _ \<Rightarrow> None)"

definition get_preemption_spec :: "('q, 'x) api_cell \<Rightarrow> api_preemption_spec option" where
  "get_preemption_spec c = (case c of CPreemptionSpec x \<Rightarrow> Some x | _ \<Rightarrow> None)"

definition get_quota_spec :: "('q, 'x) api_cell \<Rightarrow> api_quota_spec option" where
  "get_quota_spec c = (case c of CQuotaSpec x \<Rightarrow> Some x | _ \<Rightarrow> None)"

definition get_queue_spec :: "('q, 'x) api_cell \<Rightarrow> api_queue_spec option" where
  "get_queue_spec c = (case c of CQueueSpec x \<Rightarrow> Some x | _ \<Rightarrow> None)"

definition get_quota_status :: "('q, 'x) api_cell \<Rightarrow> api_quota_status option" where
  "get_quota_status c = (case c of CQuotaStatus x \<Rightarrow> Some x | _ \<Rightarrow> None)"

definition get_queue_status :: "('q, 'x) api_cell \<Rightarrow> api_queue_status option" where
  "get_queue_status c = (case c of CQueueStatus x \<Rightarrow> Some x | _ \<Rightarrow> None)"

definition get_queue :: "('q, 'x) api_cell \<Rightarrow> 'x api_queue option" where
  "get_queue c = (case c of CQueue x \<Rightarrow> Some x | _ \<Rightarrow> None)"

definition get_queues :: "('q, 'x) api_cell \<Rightarrow> 'x api_queue list option" where
  "get_queues c = (case c of CQueues x \<Rightarrow> Some x | _ \<Rightarrow> None)"

definition get_queue_list :: "('q, 'x) api_cell \<Rightarrow> 'x api_queue_list option" where
  "get_queue_list c = (case c of CQueueList x \<Rightarrow> Some x | _ \<Rightarrow> None)"

definition get_preemption_config :: "('q, 'x) api_cell \<Rightarrow> api_preemption_config option" where
  "get_preemption_config c = (case c of CPreemptionConfig x \<Rightarrow> Some x | _ \<Rightarrow> None)"

definition get_args :: "('q, 'x) api_cell \<Rightarrow> api_args option" where
  "get_args c = (case c of CArgs x \<Rightarrow> Some x | _ \<Rightarrow> None)"

lemmas get_defs = get_resources_def get_int32_def get_selector_def get_rule_def get_preemption_spec_def get_quota_spec_def
  get_queue_spec_def get_quota_status_def get_queue_status_def get_queue_def get_queues_def get_queue_list_def
  get_preemption_config_def get_args_def

record ('q, 'x) machinery =
  LabelSelector_DeepCopyInto :: "'x \<Rightarrow> ('q, 'x) api_heap \<Rightarrow> ('x \<times> ('q, 'x) api_heap) option"
  ObjectMeta_DeepCopyInto :: "'x \<Rightarrow> ('q, 'x) api_heap \<Rightarrow> ('x \<times> ('q, 'x) api_heap) option"
  ListMeta_DeepCopyInto :: "'x \<Rightarrow> ('q, 'x) api_heap \<Rightarrow> ('x \<times> ('q, 'x) api_heap) option"

section \<open>apis/scheduling/v1\<close>

definition copy_selector :: "('q, 'x) machinery \<Rightarrow> addr ptr \<Rightarrow> ('q, 'x) api_heap \<Rightarrow> (addr ptr \<times> ('q, 'x) api_heap) option" where
  "copy_selector D = copy_ptr get_selector CLabelSelector (LabelSelector_DeepCopyInto D)"

definition PreemptionRule_DeepCopyInto :: "('q, 'x) machinery \<Rightarrow> api_rule \<Rightarrow> ('q, 'x) api_heap \<Rightarrow> (api_rule \<times> ('q, 'x) api_heap) option" where
  "PreemptionRule_DeepCopyInto D src h = do {
     (fromPods, h1) \<leftarrow> copy_selector D (rule_FromPods src) h;
     (toPods, h2) \<leftarrow> copy_selector D (rule_ToPods src) h1;
     Some (src\<lparr>rule_FromPods := fromPods, rule_ToPods := toPods\<rparr>, h2) }"

definition PreemptionRule_DeepCopy :: "('q, 'x) machinery \<Rightarrow> addr ptr \<Rightarrow> ('q, 'x) api_heap \<Rightarrow> (addr ptr \<times> ('q, 'x) api_heap) option" where
  "PreemptionRule_DeepCopy D = copy_ptr get_rule CPreemptionRule (PreemptionRule_DeepCopyInto D)"

definition PreemptionSpec_DeepCopyInto :: "('q, 'x) machinery \<Rightarrow> api_preemption_spec \<Rightarrow> ('q, 'x) api_heap \<Rightarrow> (api_preemption_spec \<times> ('q, 'x) api_heap) option" where
  "PreemptionSpec_DeepCopyInto D src h = do {
     (preempts, h1) \<leftarrow> PreemptionRule_DeepCopyInto D (pspec_Preempts src) h;
     (preemptedBy, h2) \<leftarrow> PreemptionRule_DeepCopyInto D (pspec_PreemptedBy src) h1;
     Some (src\<lparr>pspec_Preempts := preempts, pspec_PreemptedBy := preemptedBy\<rparr>, h2) }"

definition PreemptionSpec_DeepCopy :: "('q, 'x) machinery \<Rightarrow> addr ptr \<Rightarrow> ('q, 'x) api_heap \<Rightarrow> (addr ptr \<times> ('q, 'x) api_heap) option" where
  "PreemptionSpec_DeepCopy D = copy_ptr get_preemption_spec CPreemptionSpec (PreemptionSpec_DeepCopyInto D)"

text \<open>A resource list: a fresh map, filled in the order of the range loop.\<close>

definition copy_entries :: "('q, 's, 'm) kube \<Rightarrow> (string \<times> 'q) list \<Rightarrow> (string \<times> 'q) list" where
  "copy_entries K es = fold (\<lambda>(key, val). AList.update key (qty_DeepCopy K val)) es []"

definition copy_resources :: "('q, 's, 'm) kube \<Rightarrow> addr ptr \<Rightarrow> ('q, 'x) api_heap \<Rightarrow> (addr ptr \<times> ('q, 'x) api_heap) option" where
  "copy_resources K = copy_ptr get_resources CResourceList (\<lambda>es h. Some (copy_entries K es, h))"

definition QuotaSpec_DeepCopyInto :: "('q, 's, 'm) kube \<Rightarrow> api_quota_spec \<Rightarrow> ('q, 'x) api_heap \<Rightarrow> (api_quota_spec \<times> ('q, 'x) api_heap) option" where
  "QuotaSpec_DeepCopyInto K src h = do {
     (mx, h1) \<leftarrow> copy_resources K (qspec_Max src) h;
     Some (src\<lparr>qspec_Max := mx\<rparr>, h1) }"

definition QuotaSpec_DeepCopy :: "('q, 's, 'm) kube \<Rightarrow> addr ptr \<Rightarrow> ('q, 'x) api_heap \<Rightarrow> (addr ptr \<times> ('q, 'x) api_heap) option" where
  "QuotaSpec_DeepCopy K = copy_ptr get_quota_spec CQuotaSpec (QuotaSpec_DeepCopyInto K)"

definition QueueSpec_DeepCopyInto :: "('q, 's, 'm) kube \<Rightarrow> ('q, 'x) machinery \<Rightarrow> api_queue_spec \<Rightarrow> ('q, 'x) api_heap \<Rightarrow> (api_queue_spec \<times> ('q, 'x) api_heap) option" where
  "QueueSpec_DeepCopyInto K D src h = do {
     (quota, h1) \<leftarrow> QuotaSpec_DeepCopyInto K (aspec_Quota src) h;
     (preemption, h2) \<leftarrow> PreemptionSpec_DeepCopyInto D (aspec_Preemption src) h1;
     Some (src\<lparr>aspec_Quota := quota, aspec_Preemption := preemption\<rparr>, h2) }"

definition QueueSpec_DeepCopy :: "('q, 's, 'm) kube \<Rightarrow> ('q, 'x) machinery \<Rightarrow> addr ptr \<Rightarrow> ('q, 'x) api_heap \<Rightarrow> (addr ptr \<times> ('q, 'x) api_heap) option" where
  "QueueSpec_DeepCopy K D = copy_ptr get_queue_spec CQueueSpec (QueueSpec_DeepCopyInto K D)"

definition QuotaStatus_DeepCopyInto :: "('q, 's, 'm) kube \<Rightarrow> api_quota_status \<Rightarrow> ('q, 'x) api_heap \<Rightarrow> (api_quota_status \<times> ('q, 'x) api_heap) option" where
  "QuotaStatus_DeepCopyInto K src h = do {
     (effectiveMax, h1) \<leftarrow> copy_resources K (qstat_EffectiveMax src) h;
     (used, h2) \<leftarrow> copy_resources K (qstat_Used src) h1;
     Some (src\<lparr>qstat_EffectiveMax := effectiveMax, qstat_Used := used\<rparr>, h2) }"

definition QuotaStatus_DeepCopy :: "('q, 's, 'm) kube \<Rightarrow> addr ptr \<Rightarrow> ('q, 'x) api_heap \<Rightarrow> (addr ptr \<times> ('q, 'x) api_heap) option" where
  "QuotaStatus_DeepCopy K = copy_ptr get_quota_status CQuotaStatus (QuotaStatus_DeepCopyInto K)"

definition QueueStatus_DeepCopyInto :: "('q, 's, 'm) kube \<Rightarrow> api_queue_status \<Rightarrow> ('q, 'x) api_heap \<Rightarrow> (api_queue_status \<times> ('q, 'x) api_heap) option" where
  "QueueStatus_DeepCopyInto K src h = do {
     (quota, h1) \<leftarrow> QuotaStatus_DeepCopyInto K (astat_Quota src) h;
     Some (src\<lparr>astat_Quota := quota\<rparr>, h1) }"

definition QueueStatus_DeepCopy :: "('q, 's, 'm) kube \<Rightarrow> addr ptr \<Rightarrow> ('q, 'x) api_heap \<Rightarrow> (addr ptr \<times> ('q, 'x) api_heap) option" where
  "QueueStatus_DeepCopy K = copy_ptr get_queue_status CQueueStatus (QueueStatus_DeepCopyInto K)"

definition Queue_DeepCopyInto :: "('q, 's, 'm) kube \<Rightarrow> ('q, 'x) machinery \<Rightarrow> 'x api_queue \<Rightarrow> ('q, 'x) api_heap \<Rightarrow> ('x api_queue \<times> ('q, 'x) api_heap) option" where
  "Queue_DeepCopyInto K D src h = do {
     (meta, h1) \<leftarrow> ObjectMeta_DeepCopyInto D (aq_ObjectMeta src) h;
     (spec, h2) \<leftarrow> QueueSpec_DeepCopyInto K D (aq_Spec src) h1;
     (status, h3) \<leftarrow> QueueStatus_DeepCopyInto K (aq_Status src) h2;
     Some (src\<lparr>aq_TypeMeta := aq_TypeMeta src, aq_ObjectMeta := meta, aq_Spec := spec, aq_Status := status\<rparr>, h3) }"

definition Queue_DeepCopy :: "('q, 's, 'm) kube \<Rightarrow> ('q, 'x) machinery \<Rightarrow> addr ptr \<Rightarrow> ('q, 'x) api_heap \<Rightarrow> (addr ptr \<times> ('q, 'x) api_heap) option" where
  "Queue_DeepCopy K D = copy_ptr get_queue CQueue (Queue_DeepCopyInto K D)"

definition copy_items :: "('q, 's, 'm) kube \<Rightarrow> ('q, 'x) machinery \<Rightarrow> addr ptr \<Rightarrow> ('q, 'x) api_heap \<Rightarrow> (addr ptr \<times> ('q, 'x) api_heap) option" where
  "copy_items K D = copy_ptr get_queues CQueues (copy_list (Queue_DeepCopyInto K D))"

definition QueueList_DeepCopyInto :: "('q, 's, 'm) kube \<Rightarrow> ('q, 'x) machinery \<Rightarrow> 'x api_queue_list \<Rightarrow> ('q, 'x) api_heap \<Rightarrow> ('x api_queue_list \<times> ('q, 'x) api_heap) option" where
  "QueueList_DeepCopyInto K D src h = do {
     (meta, h1) \<leftarrow> ListMeta_DeepCopyInto D (al_ListMeta src) h;
     (items, h2) \<leftarrow> copy_items K D (al_Items src) h1;
     Some (src\<lparr>al_TypeMeta := al_TypeMeta src, al_ListMeta := meta, al_Items := items\<rparr>, h2) }"

definition QueueList_DeepCopy :: "('q, 's, 'm) kube \<Rightarrow> ('q, 'x) machinery \<Rightarrow> addr ptr \<Rightarrow> ('q, 'x) api_heap \<Rightarrow> (addr ptr \<times> ('q, 'x) api_heap) option" where
  "QueueList_DeepCopy K D = copy_ptr get_queue_list CQueueList (QueueList_DeepCopyInto K D)"

section \<open>apis/config/v1\<close>

definition PreemptionConfig_DeepCopyInto :: "api_preemption_config \<Rightarrow> ('q, 'x) api_heap \<Rightarrow> (api_preemption_config \<times> ('q, 'x) api_heap) option" where
  "PreemptionConfig_DeepCopyInto src h = do {
     (maxCandidateNodes, h1) \<leftarrow> copy_ptr get_int32 CInt32 (\<lambda>v h. Some (v, h)) (apc_MaxCandidateNodes src) h;
     Some (src\<lparr>apc_MaxCandidateNodes := maxCandidateNodes\<rparr>, h1) }"

definition PreemptionConfig_DeepCopy :: "addr ptr \<Rightarrow> ('q, 'x) api_heap \<Rightarrow> (addr ptr \<times> ('q, 'x) api_heap) option" where
  "PreemptionConfig_DeepCopy = copy_ptr get_preemption_config CPreemptionConfig PreemptionConfig_DeepCopyInto"

definition Args_DeepCopyInto :: "api_args \<Rightarrow> ('q, 'x) api_heap \<Rightarrow> (api_args \<times> ('q, 'x) api_heap) option" where
  "Args_DeepCopyInto src h = do {
     (preemption, h1) \<leftarrow> PreemptionConfig_DeepCopyInto (aargs_Preemption src) h;
     Some (src\<lparr>aargs_TypeMeta := aargs_TypeMeta src, aargs_Preemption := preemption\<rparr>, h1) }"

definition Args_DeepCopy :: "addr ptr \<Rightarrow> ('q, 'x) api_heap \<Rightarrow> (addr ptr \<times> ('q, 'x) api_heap) option" where
  "Args_DeepCopy = copy_ptr get_args CArgs Args_DeepCopyInto"

section \<open>runtime.Object\<close>

text \<open>
  An interface value is nil or holds a pointer of one of the types. A nil pointer in an interface
  would not be a nil interface, which is why \<^verbatim>\<open>DeepCopyObject\<close> tests the copy.
\<close>

datatype runtime_object = QueueObject "addr ptr" | QueueListObject "addr ptr" | ArgsObject "addr ptr"

definition object_of :: "(addr ptr \<Rightarrow> runtime_object) \<Rightarrow> addr ptr \<Rightarrow> runtime_object ptr" where
  "object_of mk c = (if c \<noteq> NilP then Ptr (mk c) else NilP)"


definition QueueList_DeepCopyObject :: "('q, 's, 'm) kube \<Rightarrow> ('q, 'x) machinery \<Rightarrow> addr ptr \<Rightarrow> ('q, 'x) api_heap \<Rightarrow> (runtime_object ptr \<times> ('q, 'x) api_heap) option" where
  "QueueList_DeepCopyObject K D src h = do { (c, h') \<leftarrow> QueueList_DeepCopy K D src h; Some (object_of QueueListObject c, h') }"

definition Args_DeepCopyObject :: "addr ptr \<Rightarrow> ('q, 'x) api_heap \<Rightarrow> (runtime_object ptr \<times> ('q, 'x) api_heap) option" where
  "Args_DeepCopyObject src h = do { (c, h') \<leftarrow> Args_DeepCopy src h; Some (object_of ArgsObject c, h') }"

section \<open>Shapes of the types\<close>

text \<open>\<open>X\<close> is the shape of the values of the API machinery.\<close>

definition resources_shape :: "(addr ptr, ('q, 'x) api_cell, (string \<times> 'q) list ptr) shape" where
  "resources_shape = shape_ptr get_resources (shape_plain (\<lambda>es. distinct (map fst es)) (\<lambda>es. es))"

definition rule_shape :: "('x, ('q, 'x) api_cell, 'v) shape \<Rightarrow> (api_rule, ('q, 'x) api_cell, unit \<times> 'v ptr \<times> 'v ptr) shape" where
  "rule_shape X = shape_struct (\<lambda>r. (rule_FromPods r, rule_ToPods r)) (\<lambda>r. ())
     (shape_pair (shape_ptr get_selector X) (shape_ptr get_selector X))"

definition preemption_shape :: "('x, ('q, 'x) api_cell, 'v) shape \<Rightarrow>
    (api_preemption_spec, ('q, 'x) api_cell, unit \<times> (unit \<times> 'v ptr \<times> 'v ptr) \<times> unit \<times> 'v ptr \<times> 'v ptr) shape" where
  "preemption_shape X = shape_struct (\<lambda>r. (pspec_Preempts r, pspec_PreemptedBy r)) (\<lambda>r. ())
     (shape_pair (rule_shape X) (rule_shape X))"

definition quota_spec_shape :: "(api_quota_spec, ('q, 'x) api_cell, unit \<times> (string \<times> 'q) list ptr) shape" where
  "quota_spec_shape = shape_struct qspec_Max (\<lambda>r. ()) resources_shape"

definition queue_spec_shape where
  "queue_spec_shape X = shape_struct (\<lambda>r. (aspec_Quota r, aspec_Preemption r)) (\<lambda>r. ())
     (shape_pair quota_spec_shape (preemption_shape X))"

definition quota_status_shape :: "(api_quota_status, ('q, 'x) api_cell, unit \<times> (string \<times> 'q) list ptr \<times> (string \<times> 'q) list ptr) shape" where
  "quota_status_shape = shape_struct (\<lambda>r. (qstat_EffectiveMax r, qstat_Used r)) (\<lambda>r. ())
     (shape_pair resources_shape resources_shape)"

definition queue_status_shape where
  "queue_status_shape = shape_struct astat_Quota (\<lambda>r. ()) quota_status_shape"

definition queue_shape where
  "queue_shape X = shape_struct (\<lambda>r. (aq_ObjectMeta r, aq_Spec r, aq_Status r)) aq_TypeMeta
     (shape_pair X (shape_pair (queue_spec_shape X) queue_status_shape))"

definition queue_list_shape where
  "queue_list_shape X = shape_struct (\<lambda>r. (al_ListMeta r, al_Items r)) al_TypeMeta
     (shape_pair X (shape_ptr get_queues (shape_list (queue_shape X))))"

definition config_shape :: "(api_preemption_config, ('q, 'x) api_cell, unit \<times> int32 ptr) shape" where
  "config_shape = shape_struct apc_MaxCandidateNodes (\<lambda>r. ()) (shape_ptr get_int32 (shape_plain (\<lambda>v. True) (\<lambda>v. v)))"

definition args_shape where
  "args_shape = shape_struct aargs_Preemption aargs_TypeMeta config_shape"

section \<open>Every generated copy is a deep copy\<close>

locale machinery_laws =
  fixes D :: "('q, 'x) machinery" and X :: "('x, ('q, 'x) api_cell, 'v) shape"
  assumes LabelSelector_copies: "copies (LabelSelector_DeepCopyInto D) X"
    and ObjectMeta_copies: "copies (ObjectMeta_DeepCopyInto D) X"
    and ListMeta_copies: "copies (ListMeta_DeepCopyInto D) X"
begin

lemma selector_copies: "copies (copy_selector D) (shape_ptr get_selector X)"
  unfolding copy_selector_def by (rule copies_ptr [OF LabelSelector_copies]) (simp add: get_defs)

lemma rule_copies: "copies (PreemptionRule_DeepCopyInto D) (rule_shape X)"
  unfolding rule_shape_def
  by (rule copies_struct2 [OF selector_copies selector_copies, where put = "\<lambda>r a b. r\<lparr>rule_FromPods := a, rule_ToPods := b\<rparr>"])
    (simp_all add: PreemptionRule_DeepCopyInto_def)

lemma preemption_copies: "copies (PreemptionSpec_DeepCopyInto D) (preemption_shape X)"
  unfolding preemption_shape_def
  by (rule copies_struct2 [OF rule_copies rule_copies, where put = "\<lambda>r a b. r\<lparr>pspec_Preempts := a, pspec_PreemptedBy := b\<rparr>"])
    (simp_all add: PreemptionSpec_DeepCopyInto_def)

end

context quantity
begin

lemma resources_copies: "copies (copy_resources K) resources_shape"
proof -
  have "distinct (map fst es) \<Longrightarrow> copy_entries K es = es" for es
    by (simp add: copy_entries_def fold_update_copy DeepCopy_id)
  then show ?thesis unfolding copy_resources_def resources_shape_def
    by (intro copies_ptr copies_plain) (simp_all add: get_defs)
qed

lemma quota_spec_copies: "copies (QuotaSpec_DeepCopyInto K) quota_spec_shape"
  unfolding quota_spec_shape_def
  by (rule copies_struct1 [OF resources_copies, where put = "\<lambda>r a. r\<lparr>qspec_Max := a\<rparr>"]) (simp_all add: QuotaSpec_DeepCopyInto_def)

lemma quota_status_copies: "copies (QuotaStatus_DeepCopyInto K) quota_status_shape"
  unfolding quota_status_shape_def
  by (rule copies_struct2 [OF resources_copies resources_copies, where put = "\<lambda>r a b. r\<lparr>qstat_EffectiveMax := a, qstat_Used := b\<rparr>"])
    (simp_all add: QuotaStatus_DeepCopyInto_def)

lemma queue_status_copies: "copies (QueueStatus_DeepCopyInto K) queue_status_shape"
  unfolding queue_status_shape_def
  by (rule copies_struct1 [OF quota_status_copies, where put = "\<lambda>r a. r\<lparr>astat_Quota := a\<rparr>"]) (simp_all add: QueueStatus_DeepCopyInto_def)

end

locale api_laws = quantity K amount + machinery_laws D X
  for K :: "('q, 's, 'm) kube" and amount :: "'q \<Rightarrow> rat" and D :: "('q, 'x) machinery" and X :: "('x, ('q, 'x) api_cell, 'v) shape"
begin

lemma queue_spec_copies: "copies (QueueSpec_DeepCopyInto K D) (queue_spec_shape X)"
  unfolding queue_spec_shape_def
  by (rule copies_struct2 [OF quota_spec_copies preemption_copies, where put = "\<lambda>r a b. r\<lparr>aspec_Quota := a, aspec_Preemption := b\<rparr>"])
    (simp_all add: QueueSpec_DeepCopyInto_def)

lemma queue_copies: "copies (Queue_DeepCopyInto K D) (queue_shape X)"
  unfolding queue_shape_def
  by (rule copies_struct3 [OF ObjectMeta_copies queue_spec_copies queue_status_copies,
        where put = "\<lambda>r a b c. r\<lparr>aq_ObjectMeta := a, aq_Spec := b, aq_Status := c\<rparr>"])
    (simp_all add: Queue_DeepCopyInto_def)

lemma queue_list_copies: "copies (QueueList_DeepCopyInto K D) (queue_list_shape X)"
proof -
  have "copies (copy_items K D) (shape_ptr get_queues (shape_list (queue_shape X)))"
    unfolding copy_items_def by (intro copies_ptr copies_list queue_copies) (simp add: get_defs)
  then show ?thesis unfolding queue_list_shape_def
    by (rule copies_struct2 [OF ListMeta_copies, where put = "\<lambda>r a b. r\<lparr>al_ListMeta := a, al_Items := b\<rparr>"])
      (simp_all add: QueueList_DeepCopyInto_def)
qed

end

lemma config_copies: "copies PreemptionConfig_DeepCopyInto config_shape"
  unfolding config_shape_def
  by (rule copies_struct1 [OF copies_ptr [OF copies_plain], where put = "\<lambda>r a. r\<lparr>apc_MaxCandidateNodes := a\<rparr>"])
    (simp_all add: PreemptionConfig_DeepCopyInto_def get_defs)

lemma args_copies: "copies Args_DeepCopyInto args_shape"
  unfolding args_shape_def
  by (rule copies_struct1 [OF config_copies, where put = "\<lambda>r a. r\<lparr>aargs_Preemption := a\<rparr>"]) (simp_all add: Args_DeepCopyInto_def)

section \<open>Copies behind pointers\<close>

text \<open>A well-typed pointer is copied to a well-typed pointer, and stays well typed itself.\<close>

definition well_typed_copy :: "('p, 'c, 'v) shape \<Rightarrow> 'c heap \<Rightarrow> 'p \<Rightarrow> ('p \<times> 'c heap) option \<Rightarrow> bool" where
  "well_typed_copy S h p r \<longleftrightarrow> (sh_typed S h p \<longrightarrow> (\<exists>p' h'. r = Some (p', h') \<and> heap_wf h' \<and> grows h h' \<and>
     sh_typed S h' p' \<and> sh_typed S h' p))"


lemma copies_well_typed:
  assumes "copies copy S" and "heap_wf h"
  shows "well_typed_copy S h p (copy p h)"
  using deep_copy.copy_ok [OF assms(1) [unfolded copies_def] assms(2), of p]
    deep_copy.grown(1) [OF assms(1) [unfolded copies_def] assms(2), of p] unfolding well_typed_copy_def by blast


lemma PreemptionConfig_ptr_copies: "copies PreemptionConfig_DeepCopy (shape_ptr get_preemption_config config_shape)"
  unfolding PreemptionConfig_DeepCopy_def by (intro copies_ptr config_copies) (simp add: get_defs)

lemma Args_ptr_copies: "copies Args_DeepCopy (shape_ptr get_args args_shape)"
  unfolding Args_DeepCopy_def by (intro copies_ptr args_copies) (simp add: get_defs)

interpretation args: deep_copy Args_DeepCopy "sh_typed (shape_ptr get_args args_shape)" "sh_reach (shape_ptr get_args args_shape)"
  "sh_view (shape_ptr get_args args_shape)"
  using Args_ptr_copies by (simp add: copies_def)

context api_laws
begin

lemma Queue_ptr_copies: "copies (Queue_DeepCopy K D) (shape_ptr get_queue (queue_shape X))"
  unfolding Queue_DeepCopy_def by (intro copies_ptr queue_copies) (simp add: get_defs)

lemma QueueList_ptr_copies: "copies (QueueList_DeepCopy K D) (shape_ptr get_queue_list (queue_list_shape X))"
  unfolding QueueList_DeepCopy_def by (intro copies_ptr queue_list_copies) (simp add: get_defs)

lemma part_copies:
  "copies (PreemptionRule_DeepCopy D) (shape_ptr get_rule (rule_shape X))"
  "copies (PreemptionSpec_DeepCopy D) (shape_ptr get_preemption_spec (preemption_shape X))"
  "copies (QuotaSpec_DeepCopy K) (shape_ptr get_quota_spec quota_spec_shape)"
  "copies (QueueSpec_DeepCopy K D) (shape_ptr get_queue_spec (queue_spec_shape X))"
  "copies (QuotaStatus_DeepCopy K) (shape_ptr get_quota_status quota_status_shape)"
  "copies (QueueStatus_DeepCopy K) (shape_ptr get_queue_status queue_status_shape)"
  unfolding PreemptionRule_DeepCopy_def PreemptionSpec_DeepCopy_def QuotaSpec_DeepCopy_def QueueSpec_DeepCopy_def
    QuotaStatus_DeepCopy_def QueueStatus_DeepCopy_def
  by (intro copies_ptr rule_copies preemption_copies quota_spec_copies queue_spec_copies quota_status_copies queue_status_copies;
      simp add: get_defs)+

end

sublocale api_laws \<subseteq> queue: deep_copy "Queue_DeepCopy K D" "sh_typed (shape_ptr get_queue (queue_shape X))"
  "sh_reach (shape_ptr get_queue (queue_shape X))" "sh_view (shape_ptr get_queue (queue_shape X))"
  using Queue_ptr_copies by (simp add: copies_def)

sublocale api_laws \<subseteq> queue_list: deep_copy "QueueList_DeepCopy K D" "sh_typed (shape_ptr get_queue_list (queue_list_shape X))"
  "sh_reach (shape_ptr get_queue_list (queue_list_shape X))" "sh_view (shape_ptr get_queue_list (queue_list_shape X))"
  using QueueList_ptr_copies by (simp add: copies_def)

section \<open>A reference instance of the API machinery\<close>

text \<open>Metadata with a name and a pointer to a cell that holds one string.\<close>

type_synonym ref_meta = "string \<times> addr ptr"

definition get_note :: "(int, ref_meta) api_cell \<Rightarrow> string option" where
  "get_note c = (case c of CMachinery x \<Rightarrow> Some (fst x) | _ \<Rightarrow> None)"

definition ref_meta_copy :: "ref_meta \<Rightarrow> (int, ref_meta) api_heap \<Rightarrow> (ref_meta \<times> (int, ref_meta) api_heap) option" where
  "ref_meta_copy x h = do {
     (p, h') \<leftarrow> copy_ptr get_note (\<lambda>s. CMachinery (s, NilP)) (\<lambda>s h. Some (s, h)) (snd x) h;
     Some ((fst x, p), h') }"

definition ref_meta_shape :: "(ref_meta, (int, ref_meta) api_cell, string \<times> string ptr) shape" where
  "ref_meta_shape = shape_struct snd fst (shape_ptr get_note (shape_plain (\<lambda>s. True) (\<lambda>s. s)))"

definition ref_machinery :: "(int, ref_meta) machinery" where
  "ref_machinery = \<lparr>LabelSelector_DeepCopyInto = ref_meta_copy, ObjectMeta_DeepCopyInto = ref_meta_copy,
     ListMeta_DeepCopyInto = ref_meta_copy\<rparr>"

lemma ref_meta_copies: "copies ref_meta_copy ref_meta_shape"
  unfolding ref_meta_shape_def
  by (rule copies_struct1 [OF copies_ptr [OF copies_plain], where put = "\<lambda>r p. (fst r, p)"])
    (simp_all add: ref_meta_copy_def get_note_def)

interpretation ref_machinery: machinery_laws ref_machinery ref_meta_shape
  by unfold_locales (simp_all add: ref_machinery_def ref_meta_copies)

interpretation ref_api: api_laws ref_kube ref_amount ref_machinery ref_meta_shape
  by unfold_locales

text \<open>A heap with a queue whose maximum is a map in another cell, and a list that holds the queue.\<close>

definition ref_api_queue :: "ref_meta api_queue" where
  "ref_api_queue = \<lparr>aq_TypeMeta = (''Queue'', ''v1''), aq_ObjectMeta = (''a'', NilP),
     aq_Spec = \<lparr>aspec_Quota = \<lparr>qspec_Max = Ptr 0\<rparr>, aspec_Preemption =
       \<lparr>pspec_Preempts = \<lparr>rule_FromPods = NilP, rule_ToPods = NilP\<rparr>, pspec_PreemptedBy = \<lparr>rule_FromPods = NilP, rule_ToPods = NilP\<rparr>\<rparr>\<rparr>,
     aq_Status = \<lparr>astat_Quota = \<lparr>qstat_EffectiveMax = NilP, qstat_Used = NilP\<rparr>\<rparr>\<rparr>"

definition ref_api_heap :: "(int, ref_meta) api_heap" where
  "ref_api_heap = \<lparr>hp_next = 2, hp_cell = [0 \<mapsto> CResourceList [(''cpu'', 4000)], 1 \<mapsto> CQueue ref_api_queue]\<rparr>"

lemma ref_api_heap_ok: "heap_wf ref_api_heap" "sh_typed (shape_ptr get_queue (queue_shape ref_meta_shape)) ref_api_heap (Ptr 1)"
  by (auto simp: ref_api_heap_def heap_wf_def ref_api_queue_def queue_shape_def queue_spec_shape_def queue_status_shape_def
      quota_status_shape_def quota_spec_shape_def preemption_shape_def rule_shape_def resources_shape_def shape_ptr_def
      shape_struct_def shape_pair_def shape_plain_def typed_ptr_def deref_cell_def get_defs ref_meta_shape_def)

section \<open>Properties\<close>

text \<open>
  C23. Deep copies of the API types keep the types: on a heap where a pointer to a queue, to a list of
  queues, to one of their parts or to the plugin's arguments is well typed (nil, or the address of a
  cell of that type whose fields are well typed in turn, with every key of a map once), \<^verbatim>\<open>DeepCopy\<close>
  does not panic, only adds cells, and returns a pointer that is well typed; the original stays so.
\<close>

theorem deep_copies_are_well_typed:
  assumes "api_laws K amount D X" and "heap_wf h"
  shows "well_typed_copy (shape_ptr get_queue (queue_shape X)) h p (Queue_DeepCopy K D p h) \<and>
    well_typed_copy (shape_ptr get_queue_list (queue_list_shape X)) h p (QueueList_DeepCopy K D p h) \<and>
    well_typed_copy (shape_ptr get_queue_spec (queue_spec_shape X)) h p (QueueSpec_DeepCopy K D p h) \<and>
    well_typed_copy (shape_ptr get_queue_status queue_status_shape) h p (QueueStatus_DeepCopy K p h) \<and>
    well_typed_copy (shape_ptr get_quota_spec quota_spec_shape) h p (QuotaSpec_DeepCopy K p h) \<and>
    well_typed_copy (shape_ptr get_quota_status quota_status_shape) h p (QuotaStatus_DeepCopy K p h) \<and>
    well_typed_copy (shape_ptr get_preemption_spec (preemption_shape X)) h p (PreemptionSpec_DeepCopy D p h) \<and>
    well_typed_copy (shape_ptr get_rule (rule_shape X)) h p (PreemptionRule_DeepCopy D p h) \<and>
    well_typed_copy (shape_ptr get_preemption_config config_shape) h p (PreemptionConfig_DeepCopy p h) \<and>
    well_typed_copy (shape_ptr get_args args_shape) h p (Args_DeepCopy p h)"
  by (intro conjI copies_well_typed [OF _ assms(2)] api_laws.Queue_ptr_copies [OF assms(1)]
      api_laws.QueueList_ptr_copies [OF assms(1)] api_laws.part_copies [OF assms(1)] Args_ptr_copies PreemptionConfig_ptr_copies)

theorem deep_copies_are_well_typed_witness:
  "\<exists>p' h'. Queue_DeepCopy ref_kube ref_machinery (Ptr 1) ref_api_heap = Some (p', h') \<and>
    sh_typed (shape_ptr get_queue (queue_shape ref_meta_shape)) h' p'"
  using deep_copies_are_well_typed [OF ref_api.api_laws_axioms ref_api_heap_ok(1), of "Ptr 1"] ref_api_heap_ok(2)
  unfolding well_typed_copy_def by blast



end
