(* ===== verification/QueueInformer.thy ===== *)
theory QueueInformer
  imports InformerFactory
begin

text \<open>
  The informer of queues, \<^verbatim>\<open>client/informers/externalversions/scheduling\<close> with its \<^verbatim>\<open>v1\<close>, and the lister
  of \<^verbatim>\<open>client/listers/scheduling/v1\<close>: the functions by which the cache lists and watches queues.

  The client's requests and the cache of client-go are the records \<open>queue_requests\<close> and \<open>cache_lib\<close>.
  Type variables: \<open>'c\<close> is \<^verbatim>\<open>scheduling.Interface\<close>, \<open>'t\<close> a context, \<open>'o\<close> \<^verbatim>\<open>metav1.ListOptions\<close>, \<open>'l\<close> and \<open>'w\<close>
  what a list and a watch request return, \<open>'x\<close> indexers, \<open>'d\<close> an informer's identifier, \<open>'i\<close> an informer.
\<close>

record ('c, 't, 'o, 'l, 'w) queue_requests =
  qr_Background :: 't
  qr_List :: "'c \<Rightarrow> 't \<Rightarrow> 'o \<Rightarrow> 'l"
  qr_Watch :: "'c \<Rightarrow> 't \<Rightarrow> 'o \<Rightarrow> 'w"

record ('t, 'o, 'l, 'w) list_watch =
  lw_ListFunc :: "'o \<Rightarrow> 'l"
  lw_WatchFunc :: "'o \<Rightarrow> 'w"
  lw_ListWithContextFunc :: "'t \<Rightarrow> 'o \<Rightarrow> 'l"
  lw_WatchFuncWithContext :: "'t \<Rightarrow> 'o \<Rightarrow> 'w"

record ('x, 'd) index_options =
  ix_ResyncPeriod :: int
  ix_Indexers :: 'x
  ix_Identifier :: 'd

record ('c, 't, 'o, 'l, 'w, 'x, 'd, 'v, 'i) cache_lib =
  ca_WithResource :: "string ptr \<Rightarrow> group_version_resource \<Rightarrow> 'd"
  ca_ToListWatcherWithWatchListSemantics :: "('t, 'o, 'l, 'w) list_watch \<Rightarrow> 'c \<Rightarrow> 'v"
  ca_NewSharedIndexInformerWithOptions :: "'v \<Rightarrow> string \<Rightarrow> ('x, 'd) index_options \<Rightarrow> 'i"
  ca_NamespaceIndexers :: 'x

record ('o, 'x) informer_options =
  io_ResyncPeriod :: int
  io_Indexers :: 'x
  io_InformerName :: "string ptr"
  io_TweakListOptions :: "('o \<Rightarrow> 'o) ptr"

section \<open>Constructing the informer\<close>

definition queue_gvr :: group_version_resource where
  "queue_gvr = GVR ''scheduling'' ''v1'' ''queues''"

definition tweaked :: "('o \<Rightarrow> 'o) ptr \<Rightarrow> 'o \<Rightarrow> 'o" where
  "tweaked tweakListOptions opts = (case tweakListOptions of NilP \<Rightarrow> opts | Ptr f \<Rightarrow> f opts)"

definition queue_list_watch :: "('c, 't, 'o, 'l, 'w) queue_requests \<Rightarrow> 'c \<Rightarrow> ('o \<Rightarrow> 'o) ptr \<Rightarrow> ('t, 'o, 'l, 'w) list_watch" where
  "queue_list_watch R client tweakListOptions = \<lparr>
     lw_ListFunc = (\<lambda>opts. qr_List R client (qr_Background R) (tweaked tweakListOptions opts)),
     lw_WatchFunc = (\<lambda>opts. qr_Watch R client (qr_Background R) (tweaked tweakListOptions opts)),
     lw_ListWithContextFunc = (\<lambda>ctx opts. qr_List R client ctx (tweaked tweakListOptions opts)),
     lw_WatchFuncWithContext = (\<lambda>ctx opts. qr_Watch R client ctx (tweaked tweakListOptions opts))\<rparr>"

definition NewQueueInformerWithOptions :: "('c, 't, 'o, 'l, 'w) queue_requests \<Rightarrow> ('c, 't, 'o, 'l, 'w, 'x, 'd, 'v, 'i) cache_lib \<Rightarrow> 'c \<Rightarrow> ('o, 'x) informer_options \<Rightarrow> 'i" where
  "NewQueueInformerWithOptions R C client options =
     (let identifier = ca_WithResource C (io_InformerName options) queue_gvr in
      ca_NewSharedIndexInformerWithOptions C
        (ca_ToListWatcherWithWatchListSemantics C (queue_list_watch R client (io_TweakListOptions options)) client)
        QueueType
        \<lparr>ix_ResyncPeriod = io_ResyncPeriod options, ix_Indexers = io_Indexers options, ix_Identifier = identifier\<rparr>)"

definition NewQueueInformer :: "('c, 't, 'o, 'l, 'w) queue_requests \<Rightarrow> ('c, 't, 'o, 'l, 'w, 'x, 'd, 'v, 'i) cache_lib \<Rightarrow> 'c \<Rightarrow> int \<Rightarrow> 'x \<Rightarrow> 'i" where
  "NewQueueInformer R C client resyncPeriod indexers = NewQueueInformerWithOptions R C client
     \<lparr>io_ResyncPeriod = resyncPeriod, io_Indexers = indexers, io_InformerName = NilP, io_TweakListOptions = NilP\<rparr>"

definition NewFilteredQueueInformer :: "('c, 't, 'o, 'l, 'w) queue_requests \<Rightarrow> ('c, 't, 'o, 'l, 'w, 'x, 'd, 'v, 'i) cache_lib \<Rightarrow> 'c \<Rightarrow> int \<Rightarrow> 'x \<Rightarrow> ('o \<Rightarrow> 'o) ptr \<Rightarrow> 'i" where
  "NewFilteredQueueInformer R C client resyncPeriod indexers tweakListOptions = NewQueueInformerWithOptions R C client
     \<lparr>io_ResyncPeriod = resyncPeriod, io_Indexers = indexers, io_InformerName = NilP, io_TweakListOptions = tweakListOptions\<rparr>"

section \<open>From the factory to the informer\<close>

text \<open>
  The group and version accessors hold the factory, a namespace that the cluster-scoped queues do not
  use, and the list options. The factory is one shared object; here an accessor holds what it reads
  of it, the informer's name, and the informer is requested from the factory's state.
\<close>

record 'o accessor =
  ac_informerName :: "string ptr"
  ac_namespace :: string
  ac_tweakListOptions :: "('o \<Rightarrow> 'o) ptr"

record 'o queue_informer =
  qi_informerName :: "string ptr"
  qi_tweakListOptions :: "('o \<Rightarrow> 'o) ptr"

definition InformerName :: "('c, 'i, 'w, 'f) shared_informer_factory \<Rightarrow> string ptr" where
  "InformerName f = sif_informerName f"

definition group_New :: "string ptr \<Rightarrow> string \<Rightarrow> ('o \<Rightarrow> 'o) ptr \<Rightarrow> 'o accessor" where
  "group_New name namespace tweakListOptions =
     \<lparr>ac_informerName = name, ac_namespace = namespace, ac_tweakListOptions = tweakListOptions\<rparr>"

definition version_New :: "string ptr \<Rightarrow> string \<Rightarrow> ('o \<Rightarrow> 'o) ptr \<Rightarrow> 'o accessor" where
  "version_New name namespace tweakListOptions =
     \<lparr>ac_informerName = name, ac_namespace = namespace, ac_tweakListOptions = tweakListOptions\<rparr>"

definition factory_Scheduling :: "('c, 'i, 'o \<Rightarrow> 'o, 'f) shared_informer_factory \<Rightarrow> 'o accessor" where
  "factory_Scheduling f = group_New (InformerName f) (sif_namespace f) (sif_tweakListOptions f)"

definition group_V1 :: "'o accessor \<Rightarrow> 'o accessor" where
  "group_V1 g = version_New (ac_informerName g) (ac_namespace g) (ac_tweakListOptions g)"

definition version_Queues :: "'o accessor \<Rightarrow> 'o queue_informer" where
  "version_Queues v = \<lparr>qi_informerName = ac_informerName v, qi_tweakListOptions = ac_tweakListOptions v\<rparr>"

definition defaultInformer :: "('c, 't, 'o, 'l, 'w) queue_requests \<Rightarrow> ('c, 't, 'o, 'l, 'w, 'x, 'd, 'v, 'i) cache_lib \<Rightarrow> 'o queue_informer \<Rightarrow> 'c \<Rightarrow> int \<Rightarrow> 'i" where
  "defaultInformer R C q client resyncPeriod = NewQueueInformerWithOptions R C client
     \<lparr>io_ResyncPeriod = resyncPeriod, io_Indexers = ca_NamespaceIndexers C, io_InformerName = qi_informerName q,
       io_TweakListOptions = qi_tweakListOptions q\<rparr>"

definition queue_Informer :: "('c, 't, 'o, 'l, 'w) queue_requests \<Rightarrow> ('c, 't, 'o, 'l, 'w, 'x, 'd, 'v, 'i) cache_lib \<Rightarrow> ('i, 'f) informer_api \<Rightarrow> 'o queue_informer \<Rightarrow> ('c, 'i, 'o \<Rightarrow> 'o, 'f) shared_informer_factory \<Rightarrow> ('i \<times> ('c, 'i, 'o \<Rightarrow> 'o, 'f) shared_informer_factory) option" where
  "queue_Informer R C api q f = InformerFor api QueueType (defaultInformer R C q) f"

text \<open>The lister of queues reads the informer's indexer; \<open>GetIndexer\<close> and \<open>NewLister\<close> are client-go's.\<close>

definition NewQueueLister :: "('n \<Rightarrow> string \<times> string \<Rightarrow> 'k) \<Rightarrow> 'n \<Rightarrow> 'k" where
  "NewQueueLister NewLister indexer = NewLister indexer (GroupName, ''queue'')"

definition queue_Lister :: "('c, 't, 'o, 'l, 'w) queue_requests \<Rightarrow> ('c, 't, 'o, 'l, 'w, 'x, 'd, 'v, 'i) cache_lib \<Rightarrow> ('i, 'f) informer_api \<Rightarrow> ('i \<Rightarrow> 'n) \<Rightarrow> ('n \<Rightarrow> string \<times> string \<Rightarrow> 'k) \<Rightarrow> 'o queue_informer \<Rightarrow> ('c, 'i, 'o \<Rightarrow> 'o, 'f) shared_informer_factory \<Rightarrow> ('k \<times> ('c, 'i, 'o \<Rightarrow> 'o, 'f) shared_informer_factory) option" where
  "queue_Lister R C api GetIndexer NewLister q f = do {
     (informer, f') \<leftarrow> queue_Informer R C api q f;
     Some (NewQueueLister NewLister (GetIndexer informer), f') }"

section \<open>Lemmas\<close>

lemma queues_accessor:
  "version_Queues (group_V1 (factory_Scheduling f)) =
     \<lparr>qi_informerName = sif_informerName f, qi_tweakListOptions = sif_tweakListOptions f\<rparr>"
  by (simp add: version_Queues_def group_V1_def factory_Scheduling_def group_New_def version_New_def InformerName_def)

text \<open>
  The informer the synchronizer gets from \<^verbatim>\<open>Scheduling().V1().Queues().Informer()\<close> is that of
  \<^verbatim>\<open>InformerFactory\<close>, with the constructor of this theory.
\<close>

theorem queues_informer_refines:
  "queue_Informer R C api (version_Queues (group_V1 (factory_Scheduling f))) f =
     Queues_Informer api (\<lambda>client resyncPeriod name tweakListOptions. NewQueueInformerWithOptions R C client
       \<lparr>io_ResyncPeriod = resyncPeriod, io_Indexers = ca_NamespaceIndexers C, io_InformerName = name,
         io_TweakListOptions = tweakListOptions\<rparr>) f"
  unfolding queues_accessor queue_Informer_def Queues_Informer_def defaultInformer_def by simp

text \<open>
  Every request of the informer, list or watch, with or without a context, goes through the list
  options of the factory; without such options it is the request of the cache.
\<close>

theorem informer_requests_are_tweaked:
  "lw_ListFunc (queue_list_watch R client tw) opts = qr_List R client (qr_Background R) (tweaked tw opts) \<and>
   lw_WatchFunc (queue_list_watch R client tw) opts = qr_Watch R client (qr_Background R) (tweaked tw opts) \<and>
   lw_ListWithContextFunc (queue_list_watch R client tw) (qr_Background R) = lw_ListFunc (queue_list_watch R client tw) \<and>
   lw_WatchFuncWithContext (queue_list_watch R client tw) (qr_Background R) = lw_WatchFunc (queue_list_watch R client tw) \<and>
   tweaked NilP opts = opts"
  by (simp add: queue_list_watch_def tweaked_def)

text \<open>The group in the informer's identifier is not the group of the API.\<close>

theorem identifier_group_is_not_the_api_group: "gvr_group queue_gvr \<noteq> GroupName"
  by (simp add: queue_gvr_def GroupName_def)

end
