(* ===== verification/Assertions.thy ===== *)
theory Assertions
  imports Pods
begin

text \<open>
  \<^verbatim>\<open>internal/kassert\<close>: the assertions of the tests on pods.

  A test holds the failures recorded so far. An assertion of \<^verbatim>\<open>assert\<close> that fails records its message and
  goes on; one of \<^verbatim>\<open>require\<close> also ends the test, which is the value \<open>Stopped\<close>. Only the message the code
  passes is kept of what the library prints. An assertion that dereferences a nil pod panics.
\<close>

datatype test_state = Running (failures: "string list") | Stopped (failures: "string list")

definition assert_that :: "bool \<Rightarrow> string \<Rightarrow> test_state \<Rightarrow> test_state" where
  "assert_that ok msg t = (case t of
     Running fs \<Rightarrow> if ok then t else Running (fs @ [msg])
   | Stopped fs \<Rightarrow> t)"

definition require_that :: "bool \<Rightarrow> string \<Rightarrow> test_state \<Rightarrow> test_state" where
  "require_that ok msg t = (case t of
     Running fs \<Rightarrow> if ok then t else Stopped (fs @ [msg])
   | Stopped fs \<Rightarrow> t)"

section \<open>pods.go\<close>

definition PodNominatedForNode :: "'q pod ptr \<Rightarrow> string \<Rightarrow> test_state \<Rightarrow> test_state option" where
  "PodNominatedForNode pod node t = do {
     p \<leftarrow> deref pod;
     let t1 = assert_that (status_nominatedNodeName p \<noteq> '''') ''Pod should have nominatedNode'' t;
     Some (assert_that (node = status_nominatedNodeName p) (''Pod's nominated node should be '' @ node) t1) }"

definition PodNominatedForOneOfNodes :: "'q pod ptr \<Rightarrow> string list \<Rightarrow> test_state \<Rightarrow> test_state option" where
  "PodNominatedForOneOfNodes pod nodes t = do {
     p \<leftarrow> deref pod;
     let t1 = assert_that (status_nominatedNodeName p \<noteq> '''') ''Pod should have nominatedNode'' t;
     Some (assert_that (status_nominatedNodeName p \<in> set nodes)
       (''Pod's nominated node should be one of: ['' @ strings_Join nodes '' '' @ '']'') t1) }"

definition PodRunning :: "'q pod ptr \<Rightarrow> test_state \<Rightarrow> test_state option" where
  "PodRunning pod t = do {
     p \<leftarrow> deref pod;
     let t1 = assert_that (status_phase p = ''Running'') ''Pod should be running'' t;
     Some (assert_that (spec_nodeName p \<noteq> '''') ''Running pod should have spec.nodeName'' t1) }"

definition PodRunningOnNode :: "'q pod ptr \<Rightarrow> string \<Rightarrow> test_state \<Rightarrow> test_state option" where
  "PodRunningOnNode pod nodeName t = do {
     t1 \<leftarrow> PodRunning pod t;
     p \<leftarrow> deref pod;
     Some (assert_that (nodeName = spec_nodeName p) ''Pod does not have expected spec.NodeName'' t1) }"

definition PodListAllRunning :: "'q pod list ptr \<Rightarrow> test_state \<Rightarrow> test_state option" where
  "PodListAllRunning pods t = (case require_that (\<not> is_nil pods) ''Pods list should not be nil'' t of
     Stopped fs \<Rightarrow> Some (Stopped fs)
   | Running fs \<Rightarrow> do {
       items \<leftarrow> deref pods;
       for_each (\<lambda>pod. PodRunning (Ptr pod)) items (Running fs) })"

definition PodUnschedulable :: "'q pod ptr \<Rightarrow> test_state \<Rightarrow> test_state option" where
  "PodUnschedulable pod t = do {
     p \<leftarrow> deref pod;
     let t1 = assert_that (status_phase p = ''Pending'') ''Pod should be pending'' t;
     let t2 = assert_that (spec_nodeName p = '''') ''Pod should not have spec.nodeName'' t1;
     Some (assert_that (list_ex (\<lambda>cond. cond_type cond = ''PodScheduled'' \<and> cond_status cond = ''False'' \<and>
       cond_reason cond = ''Unschedulable'') (status_conditions p)) ''Pod should have unschedulable condition'' t2) }"

section \<open>generic\_resource.go\<close>

definition IsErrNotFound ::
  "(string list \<Rightarrow> string) \<Rightarrow> ('e \<Rightarrow> bool) \<Rightarrow> 'e \<Rightarrow> string list \<Rightarrow> test_state \<Rightarrow> test_state" where
  "IsErrNotFound messageFromMsgAndArgs apierrors_IsNotFound err msg t =
     (let msg' = if length msg = 0 then [''Resource should not exist''] else msg
      in assert_that (apierrors_IsNotFound err) (messageFromMsgAndArgs msg') t)"

text \<open>
  Objects are known by their identifiers. The message has two format verbs and gets no arguments, so
  it is recorded as it stands.
\<close>

definition ObjectInListByUID :: "string ptr \<Rightarrow> string list ptr \<Rightarrow> test_state \<Rightarrow> test_state option" where
  "ObjectInListByUID obj objs t = (case require_that (\<not> is_nil obj) ''Expected obj to be non-nil'' t of
     Stopped fs \<Rightarrow> Some (Stopped fs)
   | Running fs \<Rightarrow> (case require_that (\<not> is_nil objs) ''Expected objs list to be non-nil'' (Running fs) of
       Stopped fs \<Rightarrow> Some (Stopped fs)
     | Running fs \<Rightarrow> do {
         uid \<leftarrow> deref obj;
         objIDs \<leftarrow> deref objs;
         Some (assert_that (uid \<in> set objIDs) ''Expected object ID %s in list: %s'' (Running fs)) }))"

definition PodInPodListByUID :: "'q pod ptr \<Rightarrow> 'q pod list ptr \<Rightarrow> test_state \<Rightarrow> test_state option" where
  "PodInPodListByUID pod podList t = (case require_that (\<not> is_nil podList) ''podList should not be nil'' t of
     Stopped fs \<Rightarrow> Some (Stopped fs)
   | Running fs \<Rightarrow> do {
       items \<leftarrow> deref podList;
       ObjectInListByUID (case pod of NilP \<Rightarrow> NilP | Ptr p \<Rightarrow> Ptr (pod_uid p)) (Ptr (map pod_uid items)) (Running fs) })"

section \<open>eventually.go\<close>

record eventually_config =
  ev_Timeout :: int
  ev_PollInterval :: int

type_synonym eventually_opt = "eventually_config \<Rightarrow> eventually_config"

definition WithPollInterval :: "int \<Rightarrow> eventually_opt" where
  "WithPollInterval pollInterval ec = ec\<lparr>ev_PollInterval := pollInterval\<rparr>"

definition WithTimeout :: "int \<Rightarrow> eventually_opt" where
  "WithTimeout timeout ec = ec\<lparr>ev_Timeout := timeout\<rparr>"

text \<open>Durations are nanoseconds.\<close>

definition newEventuallyConfig :: "eventually_opt list \<Rightarrow> eventually_config" where
  "newEventuallyConfig opts = fold (\<lambda>opt. opt) opts
     \<lparr>ev_Timeout = 3 * 1000000000, ev_PollInterval = 250 * 1000000\<rparr>"

definition Eventually :: "('c \<Rightarrow> int \<Rightarrow> int \<Rightarrow> test_state \<Rightarrow> test_state) \<Rightarrow> 'c \<Rightarrow> eventually_opt list \<Rightarrow> test_state \<Rightarrow> test_state" where
  "Eventually require_EventuallyWithT condition opts t =
     (let cfg = newEventuallyConfig opts in require_EventuallyWithT condition (ev_Timeout cfg) (ev_PollInterval cfg) t)"

section \<open>What passing an assertion means\<close>

definition passes :: "(test_state \<Rightarrow> test_state option) \<Rightarrow> bool" where
  "passes a \<longleftrightarrow> a (Running []) = Some (Running [])"

lemma assert_that_Running: "assert_that ok msg (Running fs) = Running (fs @ (if ok then [] else [msg]))"
  by (simp add: assert_that_def)

lemma passes_PodRunning:
  "passes (PodRunning (Ptr p)) \<longleftrightarrow> status_phase p = ''Running'' \<and> spec_nodeName p \<noteq> ''''"
  by (simp add: passes_def PodRunning_def assert_that_Running)

definition running_failures :: "'q pod \<Rightarrow> string list" where
  "running_failures p =
     (if status_phase p = ''Running'' then [] else [''Pod should be running'']) @
     (if spec_nodeName p \<noteq> '''' then [] else [''Running pod should have spec.nodeName''])"

lemma PodRunning_result: "PodRunning (Ptr p) (Running fs) = Some (Running (fs @ running_failures p))"
  by (simp add: PodRunning_def assert_that_Running running_failures_def)

lemma running_failures_none: "running_failures p = [] \<longleftrightarrow> passes (PodRunning (Ptr p))"
  by (simp add: passes_def PodRunning_result)

lemma PodRunning_each:
  "for_each (\<lambda>pod. PodRunning (Ptr pod)) ps (Running fs) = Some (Running (fs @ concat (map running_failures ps)))"
  by (induction ps arbitrary: fs) (simp_all add: PodRunning_result)

lemma passes_PodUnschedulable:
  "passes (PodUnschedulable (Ptr p)) \<longleftrightarrow> status_phase p = ''Pending'' \<and> spec_nodeName p = '''' \<and>
     HasCondition p ''PodScheduled'' ''False'' ''Unschedulable''"
  by (simp add: passes_def PodUnschedulable_def assert_that_Running HasCondition_def list_ex_iff)

lemma passes_PodListAllRunning:
  "passes (PodListAllRunning (Ptr ps)) \<longleftrightarrow> list_all (\<lambda>p. passes (PodRunning (Ptr p))) ps"
  by (simp add: passes_def[of "PodListAllRunning _"] PodListAllRunning_def require_that_def PodRunning_each list_all_iff
      running_failures_none)

lemma passes_PodInPodListByUID:
  "passes (PodInPodListByUID (Ptr p) (Ptr ps)) \<longleftrightarrow> pod_uid p \<in> pod_uid ` set ps"
  by (simp add: passes_def PodInPodListByUID_def ObjectInListByUID_def require_that_def assert_that_Running)

lemma passes_PodRunningOnNode:
  "passes (PodRunningOnNode (Ptr p) n) \<longleftrightarrow> passes (PodRunning (Ptr p)) \<and> spec_nodeName p = n"
  by (auto simp: passes_def PodRunningOnNode_def PodRunning_result assert_that_Running)

text \<open>
  The assertions mean what their names say: a pod passes as unschedulable exactly if it is pending, is on
  no node and carries the condition that the plugin's own code looks for; such a pod never passes
  as running; the pods of a list pass together exactly if each does; and a pod is in a list by
  identifier exactly if the list holds one with that identifier.
\<close>

theorem assertions_mean_what_they_say:
  "(passes (PodUnschedulable (Ptr p)) \<longleftrightarrow> status_phase p = ''Pending'' \<and> spec_nodeName p = '''' \<and>
      HasCondition p ''PodScheduled'' ''False'' ''Unschedulable'') \<and>
   \<not> (passes (PodUnschedulable (Ptr p)) \<and> passes (PodRunning (Ptr p))) \<and>
   (passes (PodListAllRunning (Ptr ps)) \<longleftrightarrow> list_all (\<lambda>p. passes (PodRunning (Ptr p))) ps) \<and>
   (passes (PodInPodListByUID (Ptr p) (Ptr ps)) \<longleftrightarrow> pod_uid p \<in> pod_uid ` set ps) \<and>
   (passes (PodRunningOnNode (Ptr p) n) \<longleftrightarrow> passes (PodRunning (Ptr p)) \<and> spec_nodeName p = n)"
  using passes_PodRunning[of p] by (auto simp: passes_PodUnschedulable passes_PodListAllRunning passes_PodInPodListByUID passes_PodRunningOnNode)

text \<open>Options of \<^verbatim>\<open>Eventually\<close> override the defaults and each other in order.\<close>

theorem eventually_options:
  "newEventuallyConfig [] = \<lparr>ev_Timeout = 3000000000, ev_PollInterval = 250000000\<rparr> \<and>
   newEventuallyConfig (opts @ [WithTimeout a, WithPollInterval b]) = \<lparr>ev_Timeout = a, ev_PollInterval = b\<rparr>"
  by (simp add: newEventuallyConfig_def WithTimeout_def WithPollInterval_def)

end
