(* ===== verification/TestCluster.thy ===== *)
theory TestCluster
  imports Pods
begin

text \<open>
  \<^verbatim>\<open>internal/kubetest\<close>: the managers with which the integration tests create nodes, pods, queues and
  priority classes, and clean up.

  The API server is outside the repository. Its clients, JSON encoding, the polling loop of
  apimachinery and the generator of identifiers are the fields of records of functions over a world
  \<open>'w\<close>, the state of everything outside the test; each call returns the world after it. A joined error is
  the list of the errors joined, empty for nil. Of a container only what \<open>KubeApi\<close> has is kept.
\<close>

section \<open>Objects and clients\<close>

record taint =
  tnt_key :: string
  tnt_value :: string
  tnt_effect :: string

record node_condition =
  ncond_type :: string
  ncond_status :: string

record 'q k8s_node =
  kn_name :: string
  kn_annotations :: labels
  kn_labels :: labels
  kn_providerID :: string
  kn_taints :: "taint list"
  kn_conditions :: "node_condition list"
  kn_allocatable :: "'q resource_list"

record delete_options =
  del_gracePeriodSeconds :: "int ptr"
  del_propagationPolicy :: "string ptr"

record ('q, 'w, 'j) node_client =
  nodes_Create :: "'q k8s_node \<Rightarrow> 'w \<Rightarrow> (string + 'q k8s_node) \<times> 'w"
  nodes_List :: "string \<Rightarrow> 'w \<Rightarrow> (string + 'q k8s_node list) \<times> 'w"
  nodes_Patch :: "string \<Rightarrow> 'j \<Rightarrow> 'w \<Rightarrow> string option \<times> 'w"
  nodes_DeleteCollection :: "delete_options \<Rightarrow> string \<Rightarrow> 'w \<Rightarrow> string option \<times> 'w"
  json_taints :: "taint list \<Rightarrow> string + 'j"
  PollUntilContextTimeout :: "int \<Rightarrow> int \<Rightarrow> bool \<Rightarrow> ('w \<Rightarrow> (string + bool) \<times> 'w) \<Rightarrow> 'w \<Rightarrow> string option \<times> 'w"

definition delete_now :: delete_options where
  "delete_now = \<lparr>del_gracePeriodSeconds = Ptr 0, del_propagationPolicy = Ptr ''Background''\<rparr>"

section \<open>nodes.go\<close>

definition NewKWOKNode :: "string \<Rightarrow> 'q k8s_node" where
  "NewKWOKNode name = \<lparr>kn_name = name, kn_annotations = Ptr [(''kwok.x-k8s.io/node'', ''fake'')],
     kn_labels = Ptr [(''type'', ''kwok'')], kn_providerID = ''kwok://fake-node'', kn_taints = [],
     kn_conditions = [], kn_allocatable = NilP\<rparr>"

definition worker_name :: "nat \<Rightarrow> string" where
  "worker_name i = ''worker-'' @ digits_of_nat i"

definition create_node :: "('q, 'w, 'j) node_client \<Rightarrow> nat \<Rightarrow> 'q k8s_node list \<times> string list \<times> 'w \<Rightarrow> 'q k8s_node list \<times> string list \<times> 'w" where
  "create_node N i st = (case st of (nodes, errs, w) \<Rightarrow>
     (case nodes_Create N (NewKWOKNode (worker_name i)) w of
       (Inl err, w') \<Rightarrow> (nodes, errs @ [err], w')
     | (Inr createdNode, w') \<Rightarrow> (nodes @ [createdNode], errs, w')))"

text \<open>The capacity \<^verbatim>\<open>make\<close> is given must not be negative.\<close>

definition CreateNodes :: "('q, 'w, 'j) node_client \<Rightarrow> int \<Rightarrow> 'w \<Rightarrow> ('q k8s_node list \<times> string list \<times> 'w) option" where
  "CreateNodes N cnt w = (if cnt < 0 then None else Some (fold (create_node N) [0..<nat cnt] ([], [], w)))"

record wait_opts =
  PollInterval :: int
  Timeout :: int

definition wait_defaults :: "int \<Rightarrow> int \<Rightarrow> wait_opts \<Rightarrow> wait_opts" where
  "wait_defaults interval timeout opts =
     \<lparr>PollInterval = (if PollInterval opts = 0 then interval else PollInterval opts),
      Timeout = (if Timeout opts = 0 then timeout else Timeout opts)\<rparr>"

definition updatedTaints :: "'q k8s_node \<Rightarrow> taint list" where
  "updatedTaints node = filter (\<lambda>tnt. tnt_key tnt \<noteq> ''node.kubernetes.io/not-ready'') (kn_taints node)"

definition remove_taint :: "('q, 'w, 'j) node_client \<Rightarrow> 'q k8s_node \<Rightarrow> 'w \<Rightarrow> string option \<times> 'w" where
  "remove_taint N node w =
     (if length (updatedTaints node) < length (kn_taints node) then
        (case json_taints N (updatedTaints node) of
          Inl err \<Rightarrow> (Some err, w)
        | Inr patch \<Rightarrow> nodes_Patch N (kn_name node) patch w)
      else (None, w))"

definition has_ready_condition :: "'q k8s_node \<Rightarrow> bool" where
  "has_ready_condition node = list_ex (\<lambda>cond. ncond_type cond = ''Ready'' \<and> ncond_status cond = ''True'') (kn_conditions node)"

fun count_ready :: "('q, 'w, 'j) node_client \<Rightarrow> 'q k8s_node list \<Rightarrow> nat \<Rightarrow> 'w \<Rightarrow> (string + nat) \<times> 'w" where
  "count_ready N [] readyCount w = (Inr readyCount, w)"
| "count_ready N (node # nodes) readyCount w =
     (if has_ready_condition node then
        (case remove_taint N node w of
          (Some err, w') \<Rightarrow> (Inl err, w')
        | (None, w') \<Rightarrow> count_ready N nodes (Suc readyCount) w')
      else count_ready N nodes readyCount w)"

definition nodes_ready :: "('q, 'w, 'j) node_client \<Rightarrow> 'w \<Rightarrow> (string + bool) \<times> 'w" where
  "nodes_ready N w = (case nodes_List N ''type=kwok'' w of
     (Inl err, w1) \<Rightarrow> (Inl err, w1)
   | (Inr nodes, w1) \<Rightarrow> (case count_ready N nodes 0 w1 of
       (Inl err, w2) \<Rightarrow> (Inl err, w2)
     | (Inr readyCount, w2) \<Rightarrow> (Inr (readyCount = length nodes), w2)))"

text \<open>Durations are nanoseconds.\<close>

definition WaitForNodesReady :: "('q, 'w, 'j) node_client \<Rightarrow> wait_opts \<Rightarrow> 'w \<Rightarrow> string option \<times> 'w" where
  "WaitForNodesReady N opts w = (let opts = wait_defaults 500000000 10000000000 opts in
     PollUntilContextTimeout N (PollInterval opts) (Timeout opts) True (nodes_ready N) w)"

definition CreateAndWaitForReady :: "('q, 'w, 'j) node_client \<Rightarrow> int \<Rightarrow> wait_opts \<Rightarrow> 'w \<Rightarrow> ('q k8s_node list \<times> string list \<times> 'w) option" where
  "CreateAndWaitForReady N cnt opts w = do {
     (nodes, errs, w1) \<leftarrow> CreateNodes N cnt w;
     if errs \<noteq> [] then Some (nodes, errs, w1)
     else (case WaitForNodesReady N opts w1 of
         (Some err, w2) \<Rightarrow> Some (nodes, [err], w2)
       | (None, w2) \<Rightarrow> Some (nodes, [], w2)) }"

definition GetAllocatableByNode :: "('q, 'w, 'j) node_client \<Rightarrow> 'w \<Rightarrow> (string + (string, 'q resource_list) gomap) \<times> 'w" where
  "GetAllocatableByNode N w = (case nodes_List N ''type=kwok'' w of
     (Inl err, w') \<Rightarrow> (Inl err, w')
   | (Inr nodes, w') \<Rightarrow>
       (Inr (Ptr (fold (\<lambda>node. AList.update (kn_name node) (kn_allocatable node)) nodes [])), w'))"

definition Nodes_DeleteAll :: "('q, 'w, 'j) node_client \<Rightarrow> 'w \<Rightarrow> string option \<times> 'w" where
  "Nodes_DeleteAll N = nodes_DeleteCollection N delete_now ''type=kwok''"

definition nodes_gone :: "('q, 'w, 'j) node_client \<Rightarrow> 'w \<Rightarrow> (string + bool) \<times> 'w" where
  "nodes_gone N w = (case nodes_List N ''type=kwok'' w of
     (Inl err, w') \<Rightarrow> (Inl err, w')
   | (Inr nodes, w') \<Rightarrow> (Inr (length nodes = 0), w'))"

definition Nodes_DeleteAllWait :: "('q, 'w, 'j) node_client \<Rightarrow> wait_opts \<Rightarrow> 'w \<Rightarrow> string option \<times> 'w" where
  "Nodes_DeleteAllWait N opts w = (let opts = wait_defaults 250000000 30000000000 opts in
     case Nodes_DeleteAll N w of
       (Some err, w') \<Rightarrow> (Some err, w')
     | (None, w') \<Rightarrow> PollUntilContextTimeout N (PollInterval opts) (Timeout opts) True (nodes_gone N) w')"

section \<open>pods.go\<close>

record ('q, 'w) pod_client =
  pods_Create :: "string \<Rightarrow> 'q pod \<Rightarrow> 'w \<Rightarrow> (string + 'q pod) \<times> 'w"
  pods_DeleteCollection :: "string \<Rightarrow> delete_options \<Rightarrow> 'w \<Rightarrow> string option \<times> 'w"
  NewUUID :: "'w \<Rightarrow> string \<times> 'w"

record pod_manager =
  pm_namespace :: string

definition NewPodManager :: "string \<Rightarrow> pod_manager" where
  "NewPodManager namespace = \<lparr>pm_namespace = namespace\<rparr>"

definition SchedulerName :: string where
  "SchedulerName = ''kaschnit-scheduler''"

definition PodManager_Create :: "('q, 'w) pod_client \<Rightarrow> pod_manager \<Rightarrow> 'q pod_option list \<Rightarrow> 'w \<Rightarrow> (string + 'q pod) \<times> 'w" where
  "PodManager_Create C mgr opts w =
     (let opts = [WithNamespace (pm_namespace mgr), WithSchedulerName SchedulerName] @ opts; (uuid, w') = NewUUID C w
      in pods_Create C (pm_namespace mgr) (pods_New uuid opts) w')"

definition Pods_DeleteAll :: "('q, 'w) pod_client \<Rightarrow> pod_manager \<Rightarrow> 'w \<Rightarrow> string option \<times> 'w" where
  "Pods_DeleteAll C mgr = pods_DeleteCollection C (pm_namespace mgr) delete_now"

definition WithDummyContainer :: "(string \<Rightarrow> 'q) \<Rightarrow> 'q resource_list \<Rightarrow> 'q pod_option" where
  "WithDummyContainer MustParse requests =
     (let requests = (if is_nil requests then Ptr [(''cpu'', MustParse ''1''), (''memory'', MustParse ''1Gi'')] else requests)
      in (\<lambda>p. p\<lparr>spec_containers := [\<lparr>cont_name = ''test-container'', cont_requests = requests\<rparr>]\<rparr>))"

section \<open>queues.go and pc.go\<close>

record priority_class =
  pc_name :: string
  pc_value :: int32
  pc_preemptionPolicy :: "string ptr"

definition NewPC :: "string \<Rightarrow> int32 \<Rightarrow> bool \<Rightarrow> priority_class" where
  "NewPC name value preempt = \<lparr>pc_name = name, pc_value = value,
     pc_preemptionPolicy = Ptr (if preempt then ''PreemptLowerPriority'' else ''Never'')\<rparr>"

text \<open>Objects are created in order, up to the first error.\<close>

fun create_each :: "('a \<Rightarrow> 'w \<Rightarrow> (string + 'a) \<times> 'w) \<Rightarrow> 'a list \<Rightarrow> 'a list \<Rightarrow> 'w \<Rightarrow> 'a list \<times> string option \<times> 'w" where
  "create_each create [] created w = (created, None, w)"
| "create_each create (x # xs) created w = (case create x w of
     (Inl err, w') \<Rightarrow> (created, Some err, w')
   | (Inr y, w') \<Rightarrow> create_each create xs (created @ [y]) w')"

record ('a, 'w) object_client =
  obj_Create :: "'a \<Rightarrow> 'w \<Rightarrow> (string + 'a) \<times> 'w"
  obj_DeleteCollection :: "delete_options \<Rightarrow> 'w \<Rightarrow> string option \<times> 'w"

definition QueueManager_Create :: "('q queue_obj, 'w) object_client \<Rightarrow> 'q queue_obj list \<Rightarrow> 'w \<Rightarrow> 'q queue_obj list \<times> string option \<times> 'w" where
  "QueueManager_Create C queues w = create_each (obj_Create C) queues [] w"

definition QueueManager_DeleteAll :: "('q queue_obj, 'w) object_client \<Rightarrow> 'w \<Rightarrow> string option \<times> 'w" where
  "QueueManager_DeleteAll C = obj_DeleteCollection C delete_now"

definition PCManager_Create :: "(priority_class, 'w) object_client \<Rightarrow> priority_class list \<Rightarrow> 'w \<Rightarrow> priority_class list \<times> string option \<times> 'w" where
  "PCManager_Create C pcs w = create_each (obj_Create C) pcs [] w"

definition PCManager_DeleteAll :: "(priority_class, 'w) object_client \<Rightarrow> 'w \<Rightarrow> string option \<times> 'w" where
  "PCManager_DeleteAll C = obj_DeleteCollection C delete_now"

section \<open>envtest\_context.go: cleaning up\<close>

record ('q, 'w, 'j) scheduler_context =
  sc_Namespace :: string
  sc_Pods :: "('q, 'w) pod_client"
  sc_PodMgr :: pod_manager
  sc_QMgr :: "('q queue_obj, 'w) object_client"
  sc_PCMgr :: "(priority_class, 'w) object_client"
  sc_NodeMgr :: "('q, 'w, 'j) node_client"
  sc_DeleteNamespace :: "string \<Rightarrow> delete_options \<Rightarrow> 'w \<Rightarrow> string option \<times> 'w"
  sc_InformerFactory :: "('w \<Rightarrow> 'w) ptr"
  sc_DynInformerFactory :: "('w \<Rightarrow> 'w) ptr"

text \<open>The arguments of \<^verbatim>\<open>errors.Join\<close>, evaluated in order; nil errors are discarded.\<close>

fun join_errors :: "('w \<Rightarrow> string option \<times> 'w) list \<Rightarrow> 'w \<Rightarrow> string list \<times> 'w" where
  "join_errors [] w = ([], w)"
| "join_errors (f # fs) w = (case f w of (err, w1) \<Rightarrow> (case join_errors fs w1 of (errs, w2) \<Rightarrow>
     ((case err of None \<Rightarrow> errs | Some e \<Rightarrow> e # errs), w2)))"

text \<open>An informer factory of the context is its \<^verbatim>\<open>Shutdown\<close>.\<close>

definition shut_down :: "('w \<Rightarrow> 'w) ptr \<Rightarrow> 'w \<Rightarrow> 'w" where
  "shut_down factory w = (case factory of NilP \<Rightarrow> w | Ptr shutdown \<Rightarrow> shutdown w)"

definition CleanUp :: "('q, 'w, 'j) scheduler_context \<Rightarrow> 'w \<Rightarrow> string list \<times> 'w" where
  "CleanUp tCtx w = (case join_errors
       [Pods_DeleteAll (sc_Pods tCtx) (sc_PodMgr tCtx),
        QueueManager_DeleteAll (sc_QMgr tCtx),
        PCManager_DeleteAll (sc_PCMgr tCtx),
        Nodes_DeleteAllWait (sc_NodeMgr tCtx) \<lparr>PollInterval = 0, Timeout = 0\<rparr>,
        sc_DeleteNamespace tCtx (sc_Namespace tCtx) delete_now] w of
     (errs, w1) \<Rightarrow> (errs, shut_down (sc_DynInformerFactory tCtx) (shut_down (sc_InformerFactory tCtx) w1)))"

section \<open>What the API server promises\<close>

text \<open>
  \<open>nodes_of\<close> are the nodes of the cluster. A list by label returns the nodes with that label; creating a
  node adds it, under its own name and labels, or fails; a merge patch of the taints replaces them;
  polling returns without an error only when its last call of the condition said that it holds.
\<close>

lemma filter_full: "filter P xs = xs \<longleftrightarrow> \<not> length (filter P xs) < length xs"
  by (metis filter_True less_irrefl length_filter_less)

lemma all_counted: "length (filter P xs) = length xs \<longleftrightarrow> list_all P xs"
  using filter_full [of P xs] length_filter_le [of P xs] by (auto simp: filter_id_conv list_all_iff)

definition is_kwok :: "'q k8s_node \<Rightarrow> bool" where
  "is_kwok node \<longleftrightarrow> gm_get (kn_labels node) ''type'' = Some ''kwok''"

definition set_taints :: "string \<Rightarrow> taint list \<Rightarrow> 'q k8s_node \<Rightarrow> 'q k8s_node" where
  "set_taints name taints node = (if kn_name node = name then node\<lparr>kn_taints := taints\<rparr> else node)"

definition cleared :: "'q k8s_node set \<Rightarrow> 'q k8s_node \<Rightarrow> 'q k8s_node" where
  "cleared S node = (if node \<in> S \<and> has_ready_condition node then node\<lparr>kn_taints := updatedTaints node\<rparr> else node)"

locale node_server =
  fixes N :: "('q, 'w, 'j) node_client" and nodes_of :: "'w \<Rightarrow> 'q k8s_node list"
  assumes distinct_names: "distinct (map kn_name (nodes_of w))"
    and List_nodes: "nodes_List N ''type=kwok'' w = (r, w') \<Longrightarrow>
      nodes_of w' = nodes_of w \<and> (r = Inr ns \<longrightarrow> ns = filter is_kwok (nodes_of w))"
    and Patch_taints: "json_taints N taints = Inr patch \<Longrightarrow> nodes_Patch N name patch w = (None, w') \<Longrightarrow>
      nodes_of w' = map (set_taints name taints) (nodes_of w)"
    and Create_node: "nodes_Create N node w = (Inr node', w') \<Longrightarrow>
      kn_name node' = kn_name node \<and> kn_labels node' = kn_labels node \<and> nodes_of w' = nodes_of w @ [node']"
    and Create_fails: "nodes_Create N node w = (Inl err, w') \<Longrightarrow> nodes_of w' = nodes_of w"
    and Poll_done: "PollUntilContextTimeout N i t immediate condition w = (None, w') \<Longrightarrow>
      \<exists>w0. condition w0 = (Inr True, w')"
    and Poll_immediate: "condition w = (Inr True, w') \<Longrightarrow>
      PollUntilContextTimeout N i t True condition w = (None, w')"
begin

lemma same_node: "x \<in> set (nodes_of w) \<Longrightarrow> y \<in> set (nodes_of w) \<Longrightarrow> kn_name x = kn_name y \<Longrightarrow> x = y"
  using distinct_names [of w] by (meson distinct_map inj_on_def)

lemma remove_taint_clears:
  assumes "remove_taint N node w = (None, w')" and "node \<in> set (nodes_of w)" and "has_ready_condition node"
  shows "nodes_of w' = map (cleared {node}) (nodes_of w)"
proof (cases "length (updatedTaints node) < length (kn_taints node)")
  case True
  with assms(1) obtain patch where "json_taints N (updatedTaints node) = Inr patch" "nodes_Patch N (kn_name node) patch w = (None, w')"
    by (auto simp: remove_taint_def split: sum.splits)
  from Patch_taints [OF this] show ?thesis
    using assms(2,3) same_node [of _ w node] by (auto simp: set_taints_def cleared_def)
next
  case False
  then have "updatedTaints node = kn_taints node" unfolding updatedTaints_def by (simp add: filter_full)
  with False assms show ?thesis by (auto simp: remove_taint_def cleared_def intro!: map_idI [symmetric])
qed

lemma count_ready_clears:
  assumes "count_ready N ns n w = (Inr n', w')" and "set ns \<subseteq> set (nodes_of w)" and "distinct ns"
  shows "nodes_of w' = map (cleared (set ns)) (nodes_of w) \<and> n' = n + length (filter has_ready_condition ns)"
  using assms
proof (induction ns arbitrary: n w)
  case Nil
  then show ?case by (simp add: cleared_def)
next
  case (Cons node ns)
  show ?case
  proof (cases "has_ready_condition node")
    case False
    with Cons show ?thesis by (auto simp: cleared_def)
  next
    case True
    with Cons.prems(1) obtain w1 where w1: "remove_taint N node w = (None, w1)" "count_ready N ns (Suc n) w1 = (Inr n', w')"
      by (auto split: prod.splits option.splits)
    from remove_taint_clears [OF w1(1)] True Cons.prems(2) have now: "nodes_of w1 = map (cleared {node}) (nodes_of w)" by simp
    have other: "cleared {node} x = x" if "x \<in> set ns" for x using that Cons.prems(3) by (auto simp: cleared_def)
    have "set ns \<subseteq> set (nodes_of w1)"
    proof
      fix x assume x: "x \<in> set ns"
      then have "x \<in> set (nodes_of w)" using Cons.prems(2) by auto
      then have "cleared {node} x \<in> set (nodes_of w1)" by (simp add: now)
      with other [OF x] show "x \<in> set (nodes_of w1)" by simp
    qed
    from Cons.IH [OF w1(2) this] Cons.prems(3) have "nodes_of w' = map (cleared (set ns)) (nodes_of w1)"
      "n' = Suc n + length (filter has_ready_condition ns)" by auto
    moreover have "cleared (set ns) (cleared {node} x) = cleared (set (node # ns)) x" if "x \<in> set (nodes_of w)" for x
    proof (cases "x = node")
      case True
      have "node\<lparr>kn_taints := updatedTaints node\<rparr> \<notin> set ns"
      proof
        let ?c = "node\<lparr>kn_taints := updatedTaints node\<rparr>"
        assume c: "?c \<in> set ns"
        with Cons.prems(2) have "?c = node" by (intro same_node [of _ w]) auto
        with c Cons.prems(3) show False by simp
      qed
      with True \<open>has_ready_condition node\<close> show ?thesis by (simp add: cleared_def)
    next
      case False
      then show ?thesis by (simp add: cleared_def)
    qed
    ultimately show ?thesis using True by (simp add: now)
  qed
qed

lemma nodes_ready_holds:
  assumes "nodes_ready N w = (Inr b, w')"
  shows "nodes_of w' = map (cleared (set (filter is_kwok (nodes_of w)))) (nodes_of w) \<and>
    b = list_all has_ready_condition (filter is_kwok (nodes_of w))"
proof -
  let ?ns = "filter is_kwok (nodes_of w)"
  from assms obtain ns w1 n where l: "nodes_List N ''type=kwok'' w = (Inr ns, w1)" "count_ready N ns 0 w1 = (Inr n, w')"
    "b = (n = length ns)" by (auto simp: nodes_ready_def split: prod.splits sum.splits)
  from List_nodes [OF l(1), of ns] have ns: "ns = ?ns" "nodes_of w1 = nodes_of w" by auto
  have "distinct ?ns" using distinct_names [of w] by (simp add: distinct_map)
  with count_ready_clears [OF l(2)] ns have c: "nodes_of w' = map (cleared (set ?ns)) (nodes_of w)"
    "n = length (filter has_ready_condition ?ns)" by auto
  have "length (filter has_ready_condition ?ns) = length ?ns \<longleftrightarrow> list_all has_ready_condition ?ns"
    by (rule all_counted)
  with c ns l(3) show ?thesis by simp
qed

lemma ready_nodes:
  assumes "nodes_ready N w = (Inr True, w')" and "node \<in> set (nodes_of w')" and "is_kwok node"
  shows "has_ready_condition node \<and> (\<forall>tnt \<in> set (kn_taints node). tnt_key tnt \<noteq> ''node.kubernetes.io/not-ready'')"
proof -
  note h = nodes_ready_holds [OF assms(1)]
  from h assms(2) obtain x where x: "x \<in> set (nodes_of w)" "node = cleared (set (filter is_kwok (nodes_of w))) x" by auto
  have "is_kwok x" "has_ready_condition node = has_ready_condition x"
    using x(2) assms(3) by (auto simp: cleared_def is_kwok_def has_ready_condition_def split: if_splits)
  with x h show ?thesis by (auto simp: list_all_iff cleared_def updatedTaints_def)
qed

lemma create_nodes_run:
  assumes "fold (create_node N) is (nodes, errs, w) = (nodes', errs', w')"
  shows "\<exists>new failed. nodes' = nodes @ new \<and> length errs' = length errs + failed \<and> length new + failed = length is \<and>
    nodes_of w' = nodes_of w @ new \<and> list_all is_kwok new \<and>
    (errs' = [] \<longrightarrow> map kn_name new = map worker_name is)"
  using assms
proof (induction "is" arbitrary: nodes errs w)
  case Nil
  then show ?case by simp
next
  case (Cons i "is")
  let ?node = "NewKWOKNode (worker_name i) :: 'q k8s_node"
  show ?case
  proof (cases "nodes_Create N ?node w")
    case (Pair r w1)
    show ?thesis
    proof (cases r)
      case (Inl err)
      with Pair Cons.prems have "fold (create_node N) is (nodes, errs @ [err], w1) = (nodes', errs', w')" by (simp add: create_node_def [of N i])
      from Cons.IH [OF this] obtain new failed where
        IH: "nodes' = nodes @ new" "length errs' = length (errs @ [err]) + failed" "length new + failed = length is"
          "nodes_of w' = nodes_of w1 @ new" "list_all is_kwok new" "errs' = [] \<longrightarrow> map kn_name new = map worker_name is" by blast
      with Create_fails [OF Pair [unfolded Inl]] show ?thesis by (intro exI [of _ new] exI [of _ "Suc failed"]) auto
    next
      case (Inr node')
      with Pair Cons.prems have "fold (create_node N) is (nodes @ [node'], errs, w1) = (nodes', errs', w')" by (simp add: create_node_def [of N i])
      from Cons.IH [OF this] obtain new failed where
        IH: "nodes' = (nodes @ [node']) @ new" "length errs' = length errs + failed" "length new + failed = length is"
          "nodes_of w' = nodes_of w1 @ new" "list_all is_kwok new"
          "errs' = [] \<longrightarrow> map kn_name new = map worker_name is" by blast
      from Create_node [OF Pair [unfolded Inr]] have "is_kwok node'" "kn_name node' = worker_name i"
        "nodes_of w1 = nodes_of w @ [node']" by (simp_all add: NewKWOKNode_def is_kwok_def)
      with IH show ?thesis by (intro exI [of _ "node' # new"] exI [of _ failed]) simp
    qed
  qed
qed

end

section \<open>Names of the workers\<close>

lemma digit_char:
  assumes "m < 10" and "n < 10" and "(char_of (m + 48) :: char) = char_of (n + 48)"
  shows "m = (n :: nat)"
proof -
  have "of_char (char_of (k + 48)) = k + 48" if "k < 10" for k :: nat using that by (simp add: of_char_of)
  from this [OF assms(1)] this [OF assms(2)] assms(3) show ?thesis by simp
qed

lemma digits_not_empty: "digits_of_nat n \<noteq> []"
  by (subst digits_of_nat.simps) simp

lemma digits_inject: "digits_of_nat m = digits_of_nat n \<Longrightarrow> m = n"
proof (induction m arbitrary: n rule: digits_of_nat.induct)
  case (1 m)
  note eq = "1.prems" [unfolded digits_of_nat.simps [of m] digits_of_nat.simps [of n]]
  consider (small) "m < 10" "n < 10" | (mixed) "(m < 10) \<noteq> (n < 10)" | (large) "\<not> m < 10" "\<not> n < 10" by blast
  then show ?case
  proof cases
    case small
    with eq digit_char show ?thesis by simp
  next
    case mixed
    with eq digits_not_empty [of "m div 10"] digits_not_empty [of "n div 10"] show ?thesis by (auto split: if_splits)
  next
    case large
    with eq have "digits_of_nat (m div 10) = digits_of_nat (n div 10)" "(char_of (m mod 10 + 48) :: char) = char_of (n mod 10 + 48)"
      by simp_all
    with "1.IH" [OF large(1)] digit_char [of "m mod 10" "n mod 10"] have "m div 10 = n div 10" "m mod 10 = n mod 10" by simp_all
    then show ?thesis by (metis div_mult_mod_eq)
  qed
qed

lemma inj_worker_name: "inj_on worker_name S"
  by (auto simp: inj_on_def worker_name_def digits_inject)

section \<open>A reference server\<close>

text \<open>
  A cluster is a list of nodes, of which the first of each name counts. A node is created with the taint
  for nodes that are not ready and is ready at once. Polling tries the condition once.
\<close>

fun first_of_name :: "'q k8s_node list \<Rightarrow> 'q k8s_node list" where
  "first_of_name [] = []"
| "first_of_name (x # xs) = x # filter (\<lambda>y. kn_name y \<noteq> kn_name x) (first_of_name xs)"

definition ref_created :: "'q k8s_node \<Rightarrow> 'q k8s_node" where
  "ref_created node = node\<lparr>kn_taints := [\<lparr>tnt_key = ''node.kubernetes.io/not-ready'', tnt_value = '''', tnt_effect = ''NoSchedule''\<rparr>],
     kn_conditions := [\<lparr>ncond_type = ''Ready'', ncond_status = ''True''\<rparr>]\<rparr>"

definition ref_nodes :: "('q, 'q k8s_node list, taint list) node_client" where
  "ref_nodes = \<lparr>
     nodes_Create = (\<lambda>node w. if kn_name node \<in> kn_name ` set w then (Inl ''already exists'', w)
       else (Inr (ref_created node), w @ [ref_created node])),
     nodes_List = (\<lambda>selector w. (Inr (filter is_kwok (first_of_name w)), w)),
     nodes_Patch = (\<lambda>name taints w. (None, map (set_taints name taints) w)),
     nodes_DeleteCollection = (\<lambda>opts selector w. (None, filter (\<lambda>node. \<not> is_kwok node) w)),
     json_taints = Inr,
     PollUntilContextTimeout = (\<lambda>interval timeout immediate condition w. case condition w of
         (Inl err, w') \<Rightarrow> (Some err, w')
       | (Inr True, w') \<Rightarrow> (None, w')
       | (Inr False, w') \<Rightarrow> (Some ''context deadline exceeded'', w'))\<rparr>"

lemma distinct_first_of_name: "distinct (map kn_name (first_of_name xs))"
  by (induction xs) (auto simp: distinct_map inj_on_def)

lemma first_of_name_snoc: "kn_name x \<notin> kn_name ` set xs \<Longrightarrow> first_of_name (xs @ [x]) = first_of_name xs @ [x]"
  by (induction xs) auto

lemma first_of_name_map: "(\<And>x. kn_name (f x) = kn_name x) \<Longrightarrow> first_of_name (map f xs) = map f (first_of_name xs)"
  by (induction xs) (simp_all add: filter_map comp_def)

interpretation ref_nodes: node_server ref_nodes first_of_name
proof
  show "distinct (map kn_name (first_of_name w))" for w :: "'a k8s_node list" by (rule distinct_first_of_name)
next
  show "first_of_name w' = map (set_taints name taints) (first_of_name w)"
    if "json_taints ref_nodes taints = Inr patch" "nodes_Patch ref_nodes name patch w = (None, w')" for taints patch name and w w' :: "'a k8s_node list"
    using that by (auto simp: ref_nodes_def first_of_name_map set_taints_def)
next
  show "kn_name node' = kn_name node \<and> kn_labels node' = kn_labels node \<and> first_of_name w' = first_of_name w @ [node']"
    if "nodes_Create ref_nodes node w = (Inr node', w')" for node node' and w w' :: "'a k8s_node list"
    using that by (auto simp: ref_nodes_def ref_created_def first_of_name_snoc split: if_splits)
next
  show "\<exists>w0. condition w0 = (Inr True, w')"
    if "PollUntilContextTimeout ref_nodes i t immediate condition w = (None, w')" for i t immediate condition and w w' :: "'a k8s_node list"
    using that by (intro exI [of _ w]) (auto simp: ref_nodes_def split: prod.splits sum.splits bool.splits)
qed (auto simp: ref_nodes_def split: if_splits)

section \<open>Properties\<close>

lemma wait_reads_condition:
  assumes "node_server N nodes_of" and "WaitForNodesReady N opts w = (None, w')"
  obtains w0 where "nodes_ready N w0 = (Inr True, w')"
  using node_server.Poll_done [OF assms(1)] assms(2) unfolding WaitForNodesReady_def Let_def by blast

text \<open>
  When setting the cluster up reports no error, the number of nodes asked for has been created, under
  distinct names, and every KWOK node of the cluster is ready and free of the taint that would keep
  the scheduler from it.
\<close>

theorem test_cluster_is_ready:
  assumes "node_server N nodes_of" and "CreateAndWaitForReady N n opts w = Some (nodes, [], w')"
  shows "int (length nodes) = n \<and> distinct (map kn_name nodes) \<and> list_all is_kwok nodes \<and>
    (\<forall>node \<in> set (nodes_of w'). is_kwok node \<longrightarrow> has_ready_condition node \<and>
      (\<forall>tnt \<in> set (kn_taints node). tnt_key tnt \<noteq> ''node.kubernetes.io/not-ready''))"
proof -
  from assms(2) obtain w1 where n: "\<not> n < 0" and c: "fold (create_node N) [0..<nat n] ([], [], w) = (nodes, [], w1)"
    and wt: "WaitForNodesReady N opts w1 = (None, w')"
    by (auto simp: CreateAndWaitForReady_def CreateNodes_def split: if_splits bind_splits prod.splits option.splits)
  from node_server.create_nodes_run [OF assms(1) c] obtain new failed where
    "nodes = new" "failed = 0" "length new + failed = length [0..<nat n]" "list_all is_kwok new" "map kn_name new = map worker_name [0..<nat n]"
    by auto
  with n have "int (length nodes) = n" "list_all is_kwok nodes" "distinct (map kn_name nodes)"
    by (simp_all add: distinct_map inj_worker_name)
  moreover from wait_reads_condition [OF assms(1) wt] obtain w0 where "nodes_ready N w0 = (Inr True, w')" .
  ultimately show ?thesis using node_server.ready_nodes [OF assms(1)] by blast
qed

theorem test_cluster_is_ready_witness:
  "int (length (fst (the (CreateAndWaitForReady (ref_nodes :: (int, int k8s_node list, taint list) node_client) 2
     \<lparr>PollInterval = 0, Timeout = 0\<rparr> [])))) = 2"
proof -
  have "case CreateAndWaitForReady (ref_nodes :: (int, int k8s_node list, taint list) node_client) 2
      \<lparr>PollInterval = 0, Timeout = 0\<rparr> [] of None \<Rightarrow> False | Some (nodes, errs, w') \<Rightarrow> errs = []"
    by code_simp
  then obtain nodes w' where r: "CreateAndWaitForReady (ref_nodes :: (int, int k8s_node list, taint list) node_client) 2
      \<lparr>PollInterval = 0, Timeout = 0\<rparr> [] = Some (nodes, [], w')" by (auto split: option.splits)
  show ?thesis using test_cluster_is_ready [OF ref_nodes.node_server_axioms r] r by simp
qed

text \<open>
  Conversely, where listing and patching succeed, a cluster whose KWOK nodes are all ready is accepted
  at the first look, whatever interval and timeout are given.
\<close>

lemma count_ready_returns:
  assumes "\<And>taints. \<exists>patch. json_taints N taints = Inr patch" and "\<And>name patch w. fst (nodes_Patch N name patch w) = None"
  shows "\<exists>n' w'. count_ready N ns n w = (Inr n', w')"
proof (induction ns arbitrary: n w)
  case (Cons node ns)
  have "\<exists>w'. remove_taint N node w = (None, w')"
    using assms(1) [of "updatedTaints node"] assms(2) by (auto simp: remove_taint_def prod_eq_iff)
  with Cons show ?case by auto
qed simp

theorem ready_cluster_is_accepted:
  assumes "node_server N nodes_of" and "\<And>taints. \<exists>patch. json_taints N taints = Inr patch"
    and "\<And>name patch w. fst (nodes_Patch N name patch w) = None" and "nodes_List N ''type=kwok'' w = (Inr ns, w1)"
    and "list_all has_ready_condition (filter is_kwok (nodes_of w))"
  shows "\<exists>w'. WaitForNodesReady N opts w = (None, w')"
proof -
  from count_ready_returns [OF assms(2,3)] obtain n w2 where "count_ready N ns 0 w1 = (Inr n, w2)" by blast
  then have r: "nodes_ready N w = (Inr (n = length ns), w2)" using assms(4) by (simp add: nodes_ready_def)
  with node_server.nodes_ready_holds [OF assms(1) r] assms(5) have "nodes_ready N w = (Inr True, w2)" by simp
  from node_server.Poll_immediate [OF assms(1), of "nodes_ready N", OF this] show ?thesis by (simp add: WaitForNodesReady_def Let_def)
qed

text \<open>A check of the nodes touches no taint but the one for nodes that are not ready, and no node outside KWOK.\<close>

theorem check_keeps_other_taints:
  assumes "node_server N nodes_of" and "nodes_ready N w = (Inr b, w')"
  shows "map kn_name (nodes_of w') = map kn_name (nodes_of w) \<and>
    map (\<lambda>node. filter (\<lambda>t. tnt_key t \<noteq> ''node.kubernetes.io/not-ready'') (kn_taints node)) (nodes_of w') =
    map (\<lambda>node. filter (\<lambda>t. tnt_key t \<noteq> ''node.kubernetes.io/not-ready'') (kn_taints node)) (nodes_of w) \<and>
    filter (\<lambda>node. \<not> is_kwok node) (nodes_of w') = filter (\<lambda>node. \<not> is_kwok node) (nodes_of w)"
proof -
  let ?f = "cleared (set (filter is_kwok (nodes_of w)))"
  have "nodes_of w' = map ?f (nodes_of w)" using node_server.nodes_ready_holds [OF assms] by blast
  moreover have "kn_name (?f x) = kn_name x" "filter (\<lambda>t. tnt_key t \<noteq> ''node.kubernetes.io/not-ready'') (kn_taints (?f x)) =
      filter (\<lambda>t. tnt_key t \<noteq> ''node.kubernetes.io/not-ready'') (kn_taints x)" "is_kwok (?f x) = is_kwok x" for x
    by (simp_all add: cleared_def updatedTaints_def is_kwok_def)
  moreover have "?f x = x" if "\<not> is_kwok x" for x using that by (simp add: cleared_def)
  then have "map ?f (filter (\<lambda>node. \<not> is_kwok node) xs) = filter (\<lambda>node. \<not> is_kwok node) xs" for xs by (intro map_idI) simp
  ultimately show ?thesis by (simp add: filter_map comp_def)
qed

text \<open>
  Cleaning up makes all its calls, in order, whether or not earlier ones fail, and reports no error
  exactly if none failed.
\<close>

lemma join_errors_runs_all: "snd (join_errors fs w) = fold (\<lambda>f w. snd (f w)) fs w"
  by (induction fs arbitrary: w) (auto simp: case_prod_beta)

fun all_succeed :: "('w \<Rightarrow> string option \<times> 'w) list \<Rightarrow> 'w \<Rightarrow> bool" where
  "all_succeed [] w \<longleftrightarrow> True"
| "all_succeed (f # fs) w \<longleftrightarrow> fst (f w) = None \<and> all_succeed fs (snd (f w))"

lemma join_errors_none: "fst (join_errors fs w) = [] \<longleftrightarrow> all_succeed fs w"
  by (induction fs arbitrary: w) (simp_all add: case_prod_beta split: option.split)

theorem CleanUp_makes_all_calls:
  fixes tCtx :: "('q, 'w, 'j) scheduler_context"
  defines "calls \<equiv> [Pods_DeleteAll (sc_Pods tCtx) (sc_PodMgr tCtx), QueueManager_DeleteAll (sc_QMgr tCtx),
      PCManager_DeleteAll (sc_PCMgr tCtx), Nodes_DeleteAllWait (sc_NodeMgr tCtx) \<lparr>PollInterval = 0, Timeout = 0\<rparr>,
      sc_DeleteNamespace tCtx (sc_Namespace tCtx) delete_now]"
  shows "snd (CleanUp tCtx w) = shut_down (sc_DynInformerFactory tCtx) (shut_down (sc_InformerFactory tCtx)
      (fold (\<lambda>f w. snd (f w)) calls w)) \<and>
    (fst (CleanUp tCtx w) = [] \<longleftrightarrow> all_succeed calls w)"
  unfolding CleanUp_def calls_def [symmetric]
  by (simp add: join_errors_runs_all [symmetric] join_errors_none [symmetric] split: prod.split)

text \<open>Creating objects one by one stops at the first error; what was created until then is returned.\<close>

theorem create_each_stops:
  "create_each create (xs @ x # ys) created w =
     (case create_each create xs created w of
       (created', Some err, w') \<Rightarrow> (created', Some err, w')
     | (created', None, w') \<Rightarrow> create_each create (x # ys) created' w')"
  by (induction xs arbitrary: created w) (auto split: prod.split sum.split)

end
