(* ===== verification/Registration.thy ===== *)
theory Registration
  imports Startup Clientset
begin

text \<open>
  How the program makes itself known: the plugin to the scheduler's registry and command
  (\<^verbatim>\<open>plugin.go\<close>, \<^verbatim>\<open>cmd/scheduler/main.go\<close>, \<^verbatim>\<open>newPluginRegistry\<close> of \<^verbatim>\<open>envtest_context.go\<close>), the API types to the
  schemes of the clients (\<^verbatim>\<open>register.go\<close> of \<^verbatim>\<open>apis/scheduling/v1\<close>, \<^verbatim>\<open>apis/config/v1\<close> and the clientsets), the typed
  client of queues, and the fake clientset with its object tracker.

  Registry, scheme, command, generic client and tracker are third-party: records of functions, with what
  is documented of them in the locales \<open>plugin_registry\<close> and \<open>scheme_laws\<close>. \<open>None\<close> is a panic.
\<close>

section \<open>The plugin\<close>

text \<open>
  \<open>features\<close> reads the feature gates and \<open>adapter\<close> is \<^verbatim>\<open>FactoryAdapter\<close>, which turns a constructor that takes
  the features into a factory.
\<close>

definition PluginFactory :: "('g \<Rightarrow> 'fts) \<Rightarrow> ('fts \<Rightarrow> ('fts \<Rightarrow> 'a \<Rightarrow> 'r) \<Rightarrow> 'a \<Rightarrow> 'r) \<Rightarrow> ('fts \<Rightarrow> 'a \<Rightarrow> 'r) \<Rightarrow> 'g \<Rightarrow> 'a \<Rightarrow> 'r" where
  "PluginFactory features adapter newPlugin gates configuration =
     (let fts = features gates; factory = adapter fts newPlugin in factory configuration)"

type_synonym ('f, 'e) registry_op = "string \<Rightarrow> 'f \<Rightarrow> (string, 'f) gomap \<Rightarrow> ('e option \<times> (string, 'f) gomap) option"

definition Register :: "('f, 'e) registry_op \<Rightarrow> 'f \<Rightarrow> (string, 'f) gomap \<Rightarrow> ('e option \<times> (string, 'f) gomap) option" where
  "Register registry_Register factory registry = registry_Register PluginName factory registry"

definition newPluginRegistry :: "('f, 'e) registry_op \<Rightarrow> 'f \<Rightarrow> ((string, 'f) gomap \<times> 'e option) option" where
  "newPluginRegistry registry_Register factory = do {
     (err, pluginRegistry) \<leftarrow> Register registry_Register factory gm_make;
     Some (case err of Some e \<Rightarrow> (pluginRegistry, Some e) | None \<Rightarrow> (pluginRegistry, None)) }"

text \<open>
  \<^verbatim>\<open>app.WithPlugin\<close> makes an option of a name and a factory, \<^verbatim>\<open>NewSchedulerCommand\<close> a command of the options,
  \<^verbatim>\<open>cli.Run\<close> runs it. The result of \<open>main\<close> is the status it exits with.
\<close>

definition WithPlugin :: "(string \<Rightarrow> 'f \<Rightarrow> 'opt) \<Rightarrow> 'f \<Rightarrow> 'opt" where
  "WithPlugin app_WithPlugin factory = app_WithPlugin PluginName factory"

definition main :: "(string \<Rightarrow> 'f \<Rightarrow> 'opt) \<Rightarrow> ('opt list \<Rightarrow> 'cmd) \<Rightarrow> ('cmd \<Rightarrow> int) \<Rightarrow> 'f \<Rightarrow> int" where
  "main app_WithPlugin NewSchedulerCommand cli_Run factory =
     (let command = NewSchedulerCommand [WithPlugin app_WithPlugin factory]; exitStatus = cli_Run command in exitStatus)"

definition Plugin_Name :: "('q, 's, 'm) plugin ptr \<Rightarrow> string" where
  "Plugin_Name plugin = PluginName"

text \<open>\<^verbatim>\<open>Register\<close> of the registry adds a factory, and reports a name that is taken.\<close>

locale plugin_registry =
  fixes registry_Register :: "('f, 'e) registry_op"
  assumes registers: "\<And>n f r. r \<noteq> NilP \<Longrightarrow> gm_get r n = None \<Longrightarrow>
      \<exists>r'. registry_Register n f r = Some (None, r') \<and> gm_get r' n = Some f \<and> (\<forall>k. k \<noteq> n \<longrightarrow> gm_get r' k = gm_get r k)"
    and refuses: "\<And>n f g r. gm_get r n = Some g \<Longrightarrow> \<exists>e. registry_Register n f r = Some (Some e, r)"
begin

lemma new_registry:
  "\<exists>r. newPluginRegistry registry_Register factory = Some (r, None) \<and>
    (\<forall>k. gm_get r k = (if k = PluginName then Some factory else None)) \<and>
    (\<exists>e. Register registry_Register other r = Some (Some e, r))"
proof -
  obtain r where r: "registry_Register PluginName factory gm_make = Some (None, r)" "gm_get r PluginName = Some factory"
    "\<forall>k. k \<noteq> PluginName \<longrightarrow> gm_get r k = gm_get gm_make k"
    using registers [of gm_make PluginName factory] by auto
  obtain e where "registry_Register PluginName other r = Some (Some e, r)" using refuses [OF r(2)] by blast
  then show ?thesis using r by (auto simp: newPluginRegistry_def Register_def)
qed

end

definition ref_Register :: "('f, string) registry_op" where
  "ref_Register n f r = (case gm_get r n of
     Some _ \<Rightarrow> Some (Some (''a plugin named '' @ n @ '' already exists''), r)
   | None \<Rightarrow> do { r' \<leftarrow> gm_set r n f; Some (None, r') })"

interpretation ref_registry: plugin_registry ref_Register
proof
  fix n :: string and f :: 'b and r :: "(string, 'b) gomap"
  assume "r \<noteq> NilP" "gm_get r n = None"
  then show "\<exists>r'. ref_Register n f r = Some (None, r') \<and> gm_get r' n = Some f \<and> (\<forall>k. k \<noteq> n \<longrightarrow> gm_get r' k = gm_get r k)"
    using gm_set_defined [of r n f] by (auto simp: ref_Register_def gm_get_set)
qed (simp add: ref_Register_def)

section \<open>The schemes\<close>

record 's scheme_lib =
  NewScheme :: 's
  AddKnownTypes :: "string \<times> string \<Rightarrow> string list \<Rightarrow> 's \<Rightarrow> 's option"
  AddToGroupVersion :: "string \<times> string \<Rightarrow> 's \<Rightarrow> 's option"
  SchemeBuilder_AddToScheme :: "('s \<Rightarrow> (string option \<times> 's) option) list \<Rightarrow> 's \<Rightarrow> (string option \<times> 's) option"
  Must :: "string option \<Rightarrow> unit option"

definition v1_addKnownTypes :: "'s scheme_lib \<Rightarrow> 's \<Rightarrow> (string option \<times> 's) option" where
  "v1_addKnownTypes L scheme = do {
     scheme \<leftarrow> AddKnownTypes L v1_SchemeGroupVersion [''Queue'', ''QueueList''] scheme;
     scheme \<leftarrow> AddToGroupVersion L v1_SchemeGroupVersion scheme;
     Some (None, scheme) }"

definition v1_AddToScheme :: "'s scheme_lib \<Rightarrow> 's \<Rightarrow> (string option \<times> 's) option" where
  "v1_AddToScheme L = SchemeBuilder_AddToScheme L [v1_addKnownTypes L]"

text \<open>A group resource is the group and the resource.\<close>

definition v1_Resource :: "string \<Rightarrow> string \<times> string" where
  "v1_Resource resource = (fst v1_SchemeGroupVersion, resource)"

definition config_GroupName :: string where
  "config_GroupName = ''config.scheduling.kaschnit.github.io''"

definition config_SchemeGroupVersion :: "string \<times> string" where
  "config_SchemeGroupVersion = (config_GroupName, ''v1'')"

definition config_addKnownTypes :: "'s scheme_lib \<Rightarrow> 's \<Rightarrow> (string option \<times> 's) option" where
  "config_addKnownTypes L scheme = do {
     scheme \<leftarrow> AddKnownTypes L config_SchemeGroupVersion [''QuotaAwarePreemptionArgs''] scheme;
     scheme \<leftarrow> AddToGroupVersion L config_SchemeGroupVersion scheme;
     Some (None, scheme) }"

definition config_AddToScheme :: "'s scheme_lib \<Rightarrow> 's \<Rightarrow> (string option \<times> 's) option" where
  "config_AddToScheme L = SchemeBuilder_AddToScheme L [config_addKnownTypes L]"

text \<open>The scheme of the clientset, and that of the fake clientset, after \<^verbatim>\<open>init\<close> of their packages.\<close>

definition clientset_AddToScheme :: "'s scheme_lib \<Rightarrow> 's \<Rightarrow> (string option \<times> 's) option" where
  "clientset_AddToScheme L = SchemeBuilder_AddToScheme L [v1_AddToScheme L]"

definition clientset_scheme :: "'s scheme_lib \<Rightarrow> 's option" where
  "clientset_scheme L = do {
     scheme \<leftarrow> AddToGroupVersion L ('''', ''v1'') (NewScheme L);
     (err, scheme) \<leftarrow> clientset_AddToScheme L scheme;
     _ \<leftarrow> Must L err;
     Some scheme }"

definition fake_AddToScheme :: "'s scheme_lib \<Rightarrow> 's \<Rightarrow> (string option \<times> 's) option" where
  "fake_AddToScheme L = SchemeBuilder_AddToScheme L [v1_AddToScheme L]"

definition fake_scheme :: "'s scheme_lib \<Rightarrow> 's option" where
  "fake_scheme L = do {
     scheme \<leftarrow> AddToGroupVersion L ('''', ''v1'') (NewScheme L);
     (err, scheme) \<leftarrow> fake_AddToScheme L scheme;
     _ \<leftarrow> Must L err;
     Some scheme }"

text \<open>
  \<open>known s gv kind\<close>: the scheme has a type of that kind. \<^verbatim>\<open>AddKnownTypes\<close> adds kinds that are not there yet,
  \<^verbatim>\<open>AddToGroupVersion\<close> only kinds of the meta API, \<^verbatim>\<open>AddToScheme\<close> of a builder calls its functions up to the
  first error, \<^verbatim>\<open>Must\<close> panics on one.
\<close>

locale scheme_laws =
  fixes L :: "'s scheme_lib" and known :: "'s \<Rightarrow> string \<times> string \<Rightarrow> string \<Rightarrow> bool" and meta_kinds :: "string set"
  assumes new_scheme: "\<not> known (NewScheme L) gv k"
    and known_types: "distinct ks \<Longrightarrow> (\<And>k. k \<in> set ks \<Longrightarrow> \<not> known s gv k) \<Longrightarrow>
      \<exists>s'. AddKnownTypes L gv ks s = Some s' \<and> (\<forall>g k. known s' g k \<longleftrightarrow> known s g k \<or> g = gv \<and> k \<in> set ks)"
    and group_version: "\<exists>s'. AddToGroupVersion L gv s = Some s' \<and> (\<forall>g k. known s g k \<longrightarrow> known s' g k) \<and>
      (\<forall>g k. known s' g k \<longrightarrow> known s g k \<or> k \<in> meta_kinds)"
    and builder_Nil: "SchemeBuilder_AddToScheme L [] s = Some (None, s)"
    and builder_Cons: "SchemeBuilder_AddToScheme L (f # fs) s = do {
      (err, s') \<leftarrow> f s; case err of Some e \<Rightarrow> Some (Some e, s') | None \<Rightarrow> SchemeBuilder_AddToScheme L fs s' }"
    and must: "Must L err = (case err of None \<Rightarrow> Some () | Some e \<Rightarrow> None)"
begin

text \<open>A group is added to a scheme that has none of its kinds, and nothing but it and meta kinds comes with it.\<close>

lemma add_group:
  assumes "distinct ks" "\<And>k. k \<in> set ks \<Longrightarrow> \<not> known s gv k"
  shows "\<exists>s'. do { s \<leftarrow> AddKnownTypes L gv ks s; s \<leftarrow> AddToGroupVersion L gv s; Some (None :: string option, s) } = Some (None, s') \<and>
    (\<forall>g k. known s g k \<or> g = gv \<and> k \<in> set ks \<longrightarrow> known s' g k) \<and>
    (\<forall>g k. known s' g k \<longrightarrow> known s g k \<or> k \<in> meta_kinds \<or> g = gv \<and> k \<in> set ks)"
proof -
  obtain s1 where s1: "AddKnownTypes L gv ks s = Some s1" "\<forall>g k. known s1 g k \<longleftrightarrow> known s g k \<or> g = gv \<and> k \<in> set ks"
    using known_types [OF assms] by blast
  obtain s2 where s2: "AddToGroupVersion L gv s1 = Some s2" "\<forall>g k. known s1 g k \<longrightarrow> known s2 g k"
      "\<forall>g k. known s2 g k \<longrightarrow> known s1 g k \<or> k \<in> meta_kinds"
    using group_version by blast
  have "do { s \<leftarrow> AddKnownTypes L gv ks s; s \<leftarrow> AddToGroupVersion L gv s; Some (None :: string option, s) } = Some (None, s2)"
    using s1(1) s2(1) by simp
  with s1(2) s2(2,3) show ?thesis by blast
qed

lemma builder_single: "f s = Some (None, s') \<Longrightarrow> SchemeBuilder_AddToScheme L [f] s = Some (None, s')"
  by (simp add: builder_Cons builder_Nil)

lemma clientset_scheme_known:
  assumes "''Queue'' \<notin> meta_kinds" "''QueueList'' \<notin> meta_kinds"
  shows "\<exists>s. clientset_scheme L = Some s \<and> fake_scheme L = Some s \<and>
    known s v1_SchemeGroupVersion ''Queue'' \<and> known s v1_SchemeGroupVersion ''QueueList'' \<and>
    (\<forall>g k. known s g k \<longrightarrow> k \<in> meta_kinds \<or> g = v1_SchemeGroupVersion \<and> k \<in> {''Queue'', ''QueueList''})"
proof -
  obtain s1 where s1: "AddToGroupVersion L ('''', ''v1'') (NewScheme L) = Some s1" "\<forall>g k. known s1 g k \<longrightarrow> k \<in> meta_kinds"
    using group_version [of "('''', ''v1'')" "NewScheme L"] new_scheme by blast
  have fresh: "distinct [''Queue'', ''QueueList'']" "\<And>k. k \<in> set [''Queue'', ''QueueList''] \<Longrightarrow> \<not> known s1 v1_SchemeGroupVersion k"
    using s1(2) assms by (auto simp del: split_paired_All)
  obtain s2 where s2: "v1_addKnownTypes L s1 = Some (None, s2)"
      "\<forall>g k. known s1 g k \<or> g = v1_SchemeGroupVersion \<and> k \<in> set [''Queue'', ''QueueList''] \<longrightarrow> known s2 g k"
      "\<forall>g k. known s2 g k \<longrightarrow> known s1 g k \<or> k \<in> meta_kinds \<or> g = v1_SchemeGroupVersion \<and> k \<in> set [''Queue'', ''QueueList'']"
    using add_group [of "[''Queue'', ''QueueList'']" s1 v1_SchemeGroupVersion] fresh unfolding v1_addKnownTypes_def by blast
  have "v1_AddToScheme L s1 = Some (None, s2)" unfolding v1_AddToScheme_def by (rule builder_single [of "v1_addKnownTypes L", OF s2(1)])
  then have "clientset_AddToScheme L s1 = Some (None, s2)" "fake_AddToScheme L s1 = Some (None, s2)"
    unfolding clientset_AddToScheme_def fake_AddToScheme_def by (rule builder_single)+
  then have "clientset_scheme L = Some s2 \<and> fake_scheme L = Some s2"
    using s1(1) by (simp add: clientset_scheme_def fake_scheme_def must)
  moreover have "\<forall>g k. known s2 g k \<longrightarrow> k \<in> meta_kinds \<or> g = v1_SchemeGroupVersion \<and> k \<in> {''Queue'', ''QueueList''}"
    using s2(3) s1(2) by (metis list.simps(15) list.set(1))
  ultimately show ?thesis using s2(2) by (auto simp del: split_paired_All)
qed

lemma config_scheme_known:
  assumes "\<not> known s config_SchemeGroupVersion ''QuotaAwarePreemptionArgs''"
  shows "\<exists>s'. config_AddToScheme L s = Some (None, s') \<and> known s' config_SchemeGroupVersion ''QuotaAwarePreemptionArgs'' \<and>
    (\<forall>g k. known s g k \<longrightarrow> known s' g k)"
proof -
  have fresh: "distinct [''QuotaAwarePreemptionArgs'']" "\<And>k. k \<in> set [''QuotaAwarePreemptionArgs''] \<Longrightarrow> \<not> known s config_SchemeGroupVersion k"
    using assms by auto
  obtain s' where s': "config_addKnownTypes L s = Some (None, s')"
      "\<forall>g k. known s g k \<or> g = config_SchemeGroupVersion \<and> k \<in> set [''QuotaAwarePreemptionArgs''] \<longrightarrow> known s' g k"
    using add_group [of "[''QuotaAwarePreemptionArgs'']" s config_SchemeGroupVersion] fresh unfolding config_addKnownTypes_def by blast
  then show ?thesis unfolding config_AddToScheme_def using builder_single [of "config_addKnownTypes L", OF s'(1)] s'(2) by (auto simp del: split_paired_All)
qed

end

text \<open>A scheme as the set of its kinds, in the order they were added.\<close>

definition ref_meta_kinds :: "string list" where
  "ref_meta_kinds = [''WatchEvent'', ''ListOptions'', ''GetOptions'', ''DeleteOptions'', ''CreateOptions'', ''UpdateOptions'', ''PatchOptions'']"

fun run_builders :: "('s \<Rightarrow> (string option \<times> 's) option) list \<Rightarrow> 's \<Rightarrow> (string option \<times> 's) option" where
  "run_builders [] s = Some (None, s)"
| "run_builders (f # fs) s = do { (err, s') \<leftarrow> f s; case err of Some e \<Rightarrow> Some (Some e, s') | None \<Rightarrow> run_builders fs s' }"

definition ref_scheme :: "((string \<times> string) \<times> string) list scheme_lib" where
  "ref_scheme = \<lparr>NewScheme = [],
     AddKnownTypes = (\<lambda>gv ks s. if distinct ks \<and> list_all (\<lambda>k. (gv, k) \<notin> set s) ks then Some (s @ map (Pair gv) ks) else None),
     AddToGroupVersion = (\<lambda>gv s. Some (s @ map (Pair gv) ref_meta_kinds)),
     SchemeBuilder_AddToScheme = run_builders,
     Must = (\<lambda>err. case err of None \<Rightarrow> Some () | Some e \<Rightarrow> None)\<rparr>"

lemma ref_scheme_sel:
  "NewScheme ref_scheme = []"
  "AddKnownTypes ref_scheme gv ks s = (if distinct ks \<and> list_all (\<lambda>k. (gv, k) \<notin> set s) ks then Some (s @ map (Pair gv) ks) else None)"
  "AddToGroupVersion ref_scheme gv s = Some (s @ map (Pair gv) ref_meta_kinds)"
  "SchemeBuilder_AddToScheme ref_scheme = run_builders"
  "Must ref_scheme err = (case err of None \<Rightarrow> Some () | Some e \<Rightarrow> None)"
  by (simp_all add: ref_scheme_def)

interpretation ref_scheme: scheme_laws ref_scheme "\<lambda>s gv k. (gv, k) \<in> set s" "set ref_meta_kinds"
  by unfold_locales (unfold ref_scheme_sel, auto simp: list_all_iff)

section \<open>The typed client of queues\<close>

record 'q queue_list =
  ql_listMeta :: string
  ql_items :: "'q queue_obj list"

definition zero_queue :: "'q queue_obj" where
  "zero_queue = \<lparr>qo_name = '''', qo_labels = NilP,
     qo_spec = \<lparr>spec_quota = \<lparr>qs_max = NilP\<rparr>, spec_preemption = \<lparr>ps_preempts = PreemptionNothing, ps_preemptedBy = PreemptionNothing\<rparr>\<rparr>,
     qo_status = \<lparr>qst_effectiveMax = NilP, qst_used = NilP\<rparr>\<rparr>"

definition zero_queue_list :: "'q queue_list" where
  "zero_queue_list = \<lparr>ql_listMeta = '''', ql_items = []\<rparr>"

text \<open>
  What the generic client of client-go is made of: the resource, the REST client, the codec of the
  parameters, the namespace, and new objects to decode into.
\<close>

record ('q, 'r, 'p) client_with_list =
  cl_resource :: string
  cl_client :: "'r ptr"
  cl_parameterCodec :: 'p
  cl_namespace :: string
  cl_newObject :: "'q queue_obj ptr"
  cl_newList :: "'q queue_list ptr"

definition newQueues :: "(('q, 'r, 'p) client_with_list \<Rightarrow> 'c) \<Rightarrow> 'p \<Rightarrow> 'r v1_client ptr \<Rightarrow> 'c" where
  "newQueues NewClientWithList codec c = NewClientWithList \<lparr>cl_resource = ''queues'', cl_client = v1_RESTClient c,
     cl_parameterCodec = codec, cl_namespace = '''', cl_newObject = Ptr zero_queue, cl_newList = Ptr zero_queue_list\<rparr>"

definition v1_Queues :: "(('q, 'r, 'p) client_with_list \<Rightarrow> 'c) \<Rightarrow> 'p \<Rightarrow> 'r v1_client ptr \<Rightarrow> 'c" where
  "v1_Queues NewClientWithList codec c = newQueues NewClientWithList codec c"

section \<open>The fake clientset\<close>

text \<open>
  An action of the fake client, with the options of a watch if it is one. A reaction says whether it has
  handled the action, with an interface to watch by and an error.
\<close>

record 'lo fake_action =
  act_resource :: "(string \<times> string) \<times> string"
  act_namespace :: string
  act_watch :: "'lo option"

record ('o, 't, 'lo, 'wi) tracker_lib =
  NewObjectTracker :: 't
  tracker_Add :: "'o \<Rightarrow> 't \<Rightarrow> string option \<times> 't"
  tracker_Watch :: "(string \<times> string) \<times> string \<Rightarrow> string \<Rightarrow> 'lo \<Rightarrow> 't \<Rightarrow> (string + 'wi) \<times> 't"
  zero_ListOptions :: 'lo

record ('d, 're, 'lo, 'wi, 't) fake_clientset =
  fcs_discovery :: "'d ptr"
  fcs_reactors :: "(string \<times> string \<times> 're) list"
  fcs_watchReactors :: "(string \<times> ('lo fake_action \<Rightarrow> 't \<Rightarrow> (bool \<times> 'wi option \<times> string option) \<times> 't)) list"
  fcs_tracker :: 't

definition watch_reaction :: "('o, 't, 'lo, 'wi) tracker_lib \<Rightarrow> 'lo fake_action \<Rightarrow> 't \<Rightarrow> (bool \<times> 'wi option \<times> string option) \<times> 't" where
  "watch_reaction T action o1 =
     (let opts = (case act_watch action of Some listOptions \<Rightarrow> listOptions | None \<Rightarrow> zero_ListOptions T);
        gvr = act_resource action; ns = act_namespace action
      in case tracker_Watch T gvr ns opts o1 of
        (Inl err, o2) \<Rightarrow> ((False, None, Some err), o2)
      | (Inr watch, o2) \<Rightarrow> ((True, Some watch, None), o2))"

definition add_object :: "('o, 't, 'lo, 'wi) tracker_lib \<Rightarrow> 'o \<Rightarrow> 't \<Rightarrow> 't option" where
  "add_object T obj o1 = (case tracker_Add T obj o1 of (Some err, o2) \<Rightarrow> None | (None, o2) \<Rightarrow> Some o2)"

text \<open>
  \<open>fakeDiscovery\<close> is the discovery over the clientset's \<^verbatim>\<open>Fake\<close>, \<open>object_reaction\<close> the reaction of the tracker to
  every action that is not a watch.
\<close>

definition NewSimpleClientset :: "('o, 't, 'lo, 'wi) tracker_lib \<Rightarrow> 'd \<Rightarrow> 're \<Rightarrow> 'o list \<Rightarrow> ('d, 're, 'lo, 'wi, 't) fake_clientset option" where
  "NewSimpleClientset T fakeDiscovery object_reaction objects = do {
     o1 \<leftarrow> for_each (add_object T) objects (NewObjectTracker T);
     Some \<lparr>fcs_discovery = Ptr fakeDiscovery, fcs_reactors = [(''*'', ''*'', object_reaction)], fcs_watchReactors = [(''*'', watch_reaction T)], fcs_tracker = o1\<rparr> }"

definition fake_Discovery :: "('d, 're, 'lo, 'wi, 't) fake_clientset \<Rightarrow> 'd ptr" where
  "fake_Discovery c = fcs_discovery c"

definition fake_Tracker :: "('d, 're, 'lo, 'wi, 't) fake_clientset \<Rightarrow> 't" where
  "fake_Tracker c = fcs_tracker c"

definition IsWatchListSemanticsUnSupported :: "('d, 're, 'lo, 'wi, 't) fake_clientset ptr \<Rightarrow> bool" where
  "IsWatchListSemanticsUnSupported c = True"

text \<open>
  The client of queues of a fake: what client-go's generic fake client is made of, over the \<open>'fk\<close> the
  actions go to.
\<close>

record 'fk fake_v1 =
  fv_Fake :: "'fk ptr"

record ('q, 'fk) fake_client_with_list =
  fq_Fake :: "'fk ptr"
  fq_namespace :: string
  fq_resource :: "(string \<times> string) \<times> string"
  fq_kind :: "(string \<times> string) \<times> string"
  fq_newObject :: "'q queue_obj ptr"
  fq_newList :: "'q queue_list ptr"
  fq_copyListMeta :: "'q queue_list \<Rightarrow> 'q queue_list \<Rightarrow> 'q queue_list"
  fq_getItems :: "'q queue_list \<Rightarrow> 'q queue_obj ptr list"
  fq_setItems :: "'q queue_list \<Rightarrow> 'q queue_obj ptr list \<Rightarrow> 'q queue_list"

definition newFakeQueues :: "('q queue_obj list \<Rightarrow> 'q queue_obj ptr list) \<Rightarrow> ('q queue_obj ptr list \<Rightarrow> 'q queue_obj list) \<Rightarrow> (('q, 'fk) fake_client_with_list \<Rightarrow> 'c) \<Rightarrow> 'fk fake_v1 \<Rightarrow> 'c \<times> 'fk fake_v1" where
  "newFakeQueues ToPointerSlice FromPointerSlice NewFakeClientWithList fake =
     (NewFakeClientWithList \<lparr>fq_Fake = fv_Fake fake, fq_namespace = '''',
        fq_resource = (v1_SchemeGroupVersion, ''queues''), fq_kind = (v1_SchemeGroupVersion, ''Queue''),
        fq_newObject = Ptr zero_queue, fq_newList = Ptr zero_queue_list,
        fq_copyListMeta = (\<lambda>dst src. dst\<lparr>ql_listMeta := ql_listMeta src\<rparr>),
        fq_getItems = (\<lambda>l. ToPointerSlice (ql_items l)),
        fq_setItems = (\<lambda>l items. l\<lparr>ql_items := FromPointerSlice items\<rparr>)\<rparr>, fake)"

definition fake_SchedulingV1 :: "'fk \<Rightarrow> 'fk fake_v1" where
  "fake_SchedulingV1 fake = \<lparr>fv_Fake = Ptr fake\<rparr>"

definition fake_Queues :: "('q queue_obj list \<Rightarrow> 'q queue_obj ptr list) \<Rightarrow> ('q queue_obj ptr list \<Rightarrow> 'q queue_obj list) \<Rightarrow> (('q, 'fk) fake_client_with_list \<Rightarrow> 'c) \<Rightarrow> 'fk fake_v1 \<Rightarrow> 'c \<times> 'fk fake_v1" where
  "fake_Queues ToPointerSlice FromPointerSlice NewFakeClientWithList c = newFakeQueues ToPointerSlice FromPointerSlice NewFakeClientWithList c"

definition fake_RESTClient :: "'fk fake_v1 ptr \<Rightarrow> 'r ptr" where
  "fake_RESTClient c = NilP"

section \<open>Properties\<close>

text \<open>
  The new registry has the plugin's factory under the plugin's name and nothing else, and a second
  registration is refused and changes nothing.
\<close>

theorem plugin_is_registered:
  "\<exists>r. newPluginRegistry ref_Register factory = Some (r, None) \<and>
    (\<forall>k. gm_get r k = (if k = PluginName then Some factory else None)) \<and>
    (\<exists>e. Register ref_Register other r = Some (Some e, r))"
  by (rule ref_registry.new_registry)

text \<open>
  The schemes of the clientset and of the fake clientset are set up without a panic and know the kinds of the
  queue API, and apart from them only kinds of the meta API.
\<close>

theorem schemes_know_queues:
  "\<exists>s. clientset_scheme ref_scheme = Some s \<and> fake_scheme ref_scheme = Some s \<and>
    (v1_SchemeGroupVersion, ''Queue'') \<in> set s \<and> (v1_SchemeGroupVersion, ''QueueList'') \<in> set s \<and>
    (\<forall>g k. (g, k) \<in> set s \<longrightarrow> k \<in> set ref_meta_kinds \<or> g = v1_SchemeGroupVersion \<and> k \<in> {''Queue'', ''QueueList''})"
  by (rule ref_scheme.clientset_scheme_known) (simp_all add: ref_meta_kinds_def)

text \<open>
  A fake clientset is made, without a panic, exactly when the tracker takes each object after those before it;
  it then holds what the tracker holds after all of them.
\<close>

definition track :: "('o, 't, 'lo, 'wi) tracker_lib \<Rightarrow> 'o list \<Rightarrow> 't \<Rightarrow> 't" where
  "track T objects t = fold (\<lambda>obj t. snd (tracker_Add T obj t)) objects t"

fun takes_all :: "('o, 't, 'lo, 'wi) tracker_lib \<Rightarrow> 'o list \<Rightarrow> 't \<Rightarrow> bool" where
  "takes_all T [] t \<longleftrightarrow> True"
| "takes_all T (obj # objects) t \<longleftrightarrow> fst (tracker_Add T obj t) = None \<and> takes_all T objects (snd (tracker_Add T obj t))"

lemma add_objects: "for_each (add_object T) objects t = (if takes_all T objects t then Some (track T objects t) else None)"
  by (induction objects arbitrary: t) (auto simp: add_object_def track_def split: prod.split option.split)

theorem simple_clientset:
  "NewSimpleClientset T fakeDiscovery object_reaction objects =
    (if takes_all T objects (NewObjectTracker T)
     then Some \<lparr>fcs_discovery = Ptr fakeDiscovery, fcs_reactors = [(''*'', ''*'', object_reaction)], fcs_watchReactors = [(''*'', watch_reaction T)],
       fcs_tracker = track T objects (NewObjectTracker T)\<rparr>
     else None)"
  by (simp add: NewSimpleClientset_def add_objects)

end
