(* ===== verification/TestEnvironment.thy ===== *)
theory TestEnvironment
  imports TestCluster Registration
begin

text \<open>
  \<^verbatim>\<open>internal/kubetest/envtest_context.go\<close>: how the integration tests start an API server, a KWOK controller and a
  scheduler with the plugin, and the context they work with.

  What is third-party is the record \<open>env_lib\<close> of functions over the world \<open>'w\<close>; the clients, factories,
  controllers and so on that they return are handles of a type \<open>'h\<close>. A call that returns an error has
  type \<open>io\<close>, and \<open>None\<close> is a panic.
\<close>

section \<open>Calls\<close>

type_synonym ('a, 'w) io = "'w \<Rightarrow> ((string + 'a) \<times> 'w) option"

text \<open>\<^verbatim>\<open>x, err := call; if err != nil { return nil, err }\<close>, and a call without an error.\<close>

definition attempt :: "('a, 'w) io \<Rightarrow> ('a \<Rightarrow> ('b, 'w) io) \<Rightarrow> ('b, 'w) io" where
  "attempt call rest w = do {
     (r, w') \<leftarrow> call w;
     case r of Inl err \<Rightarrow> Some (Inl err, w') | Inr x \<Rightarrow> rest x w' }"

definition perform :: "('w \<Rightarrow> 'a \<times> 'w) \<Rightarrow> ('a \<Rightarrow> ('b, 'w) io) \<Rightarrow> ('b, 'w) io" where
  "perform call rest w = (case call w of (x, w') \<Rightarrow> rest x w')"

definition finish :: "'a \<Rightarrow> ('a, 'w) io" where
  "finish x w = Some (Inr x, w)"

definition check :: "string + 'a \<Rightarrow> ('a, 'w) io" where
  "check r w = Some (r, w)"

section \<open>The KWOK controller\<close>

record 'h kwok_config =
  kw_TypedClient :: 'h
  kw_TypedKwokClient :: 'h
  kw_RESTClient :: 'h
  kw_RESTMapper :: 'h
  kw_ManageNodesWithAnnotationSelector :: string
  kw_CIDR :: string
  kw_NodeLeaseDurationSeconds :: nat
  kw_NodeIP :: string
  kw_PodPlayStageParallelism :: nat
  kw_NodePlayStageParallelism :: nat
  kw_NodeLeaseParallelism :: nat
  kw_EnablePodCache :: bool
  kw_Clock :: 'h
  kw_LocalStages :: "((string \<times> string), 'h list) gomap"

section \<open>The configuration of the scheduler\<close>

record plugin_set =
  pset_Enabled :: "string list"
  pset_Disabled :: "string list"

record v1_profile =
  v1p_SchedulerName :: "string ptr"
  v1p_MultiPoint :: "plugin_set ptr"

record 'x v1_config =
  vc_Profiles :: "v1_profile list"
  vc_other :: 'x

record api_profile =
  ap_SchedulerName :: string
  ap_MultiPoint :: "plugin_set ptr"

record api_config =
  ac_Profiles :: "api_profile list"
  ac_PercentageOfNodesToScore :: "int ptr"
  ac_PodMaxBackoffSeconds :: int
  ac_PodInitialBackoffSeconds :: int
  ac_Parallelism :: int

record ('k, 'h, 'f) scheduler_options =
  so_Client :: 'h
  so_InformerFactory :: 'h
  so_DynInformerFactory :: 'h
  so_RecorderFactory :: 'h
  so_ComponentConfigVersion :: string
  so_KubeConfig :: 'k
  so_Registry :: "(string, 'f) gomap"
  so_Profiles :: "api_profile list"
  so_PercentageOfNodesToScore :: "int ptr"
  so_PodMaxBackoffSeconds :: int
  so_PodInitialBackoffSeconds :: int
  so_PodMaxInUnschedulablePodsDuration :: int
  so_Parallelism :: int

section \<open>What is called\<close>

text \<open>
  \<open>'k\<close> is the configuration of the clients, \<open>'f\<close> a plugin factory, \<open>'x\<close> the rest of the versioned
  configuration of the scheduler, whose zero value is \<open>zero_config\<close>. \<open>StageYAML\<close> are the stages KWOK ships.
\<close>

datatype stage_yaml = DefaultNodeInit | DefaultPodReady | DefaultPodComplete | DefaultPodDelete

record ('k, 'h, 'f, 'x, 'w) env_lib =
  configv1_SchemeGroupVersion :: string
  defaultpreemption_Name :: string
  DefaultPodMaxInUnschedulablePodsDuration :: int
  RealClock :: 'h
  kubernetes_NewForConfig :: "'k \<Rightarrow> ('h, 'w) io"
  dynamic_NewForConfig :: "'k \<Rightarrow> ('h, 'w) io"
  kube_Discovery :: "'h \<Rightarrow> 'h"
  GetAPIGroupResources :: "'h \<Rightarrow> ('h, 'w) io"
  NewDiscoveryRESTMapper :: "'h \<Rightarrow> 'h"
  kwok_NewForConfig :: "'k \<Rightarrow> ('h, 'w) io"
  UnmarshalStage :: "stage_yaml \<Rightarrow> string + 'h"
  kube_RESTClient :: "'h \<Rightarrow> 'h"
  NewController :: "'h kwok_config \<Rightarrow> ('h, 'w) io"
  Controller_Start :: "'h \<Rightarrow> (unit, 'w) io"
  scheduler_NewInformerFactory :: "'h \<Rightarrow> int \<Rightarrow> 'w \<Rightarrow> 'h \<times> 'w"
  NewDynamicSharedInformerFactory :: "'h \<Rightarrow> int \<Rightarrow> 'w \<Rightarrow> 'h \<times> 'w"
  factory_Start :: "'h \<Rightarrow> 'w \<Rightarrow> unit \<times> 'w"
  factory_WaitForCacheSync :: "'h \<Rightarrow> 'w \<Rightarrow> unit \<times> 'w"
  factory_Shutdown :: "'h \<Rightarrow> 'w \<Rightarrow> 'w"
  NewRecorder :: "'h \<Rightarrow> 'w \<Rightarrow> 'h \<times> 'w"
  scheduler_New :: "('k, 'h, 'f) scheduler_options \<Rightarrow> ('h, 'w) io"
  registry_op :: "('f, string) registry_op"
  Default :: "'x v1_config sched_config \<Rightarrow> 'x v1_config sched_config"
  Convert :: "'x v1_config sched_config \<Rightarrow> api_config sched_config \<times> string option"
  zero_config :: 'x
  UnixNano :: "'w \<Rightarrow> int \<times> 'w"
  namespaces_Create :: "'h \<Rightarrow> string \<Rightarrow> (unit, 'w) io"

section \<open>envtest\_context.go: starting\<close>

text \<open>\<^verbatim>\<open>filepath.Dir\<close> of a clean path: all but the last element.\<close>

definition filepath_Dir :: "string \<Rightarrow> string" where
  "filepath_Dir path = (if CHR ''/'' \<notin> set path then ''.''
     else (let d = rev (tl (dropWhile (\<lambda>c. c \<noteq> CHR ''/'') (rev path))) in if d = [] then ''/'' else d))"

record envtest_environment =
  CRDInstallPaths :: "string list"

text \<open>\<open>caller\<close> is the file of the caller, if \<^verbatim>\<open>runtime.Caller\<close> knows it.\<close>

definition StartEnvTest :: "(envtest_environment \<Rightarrow> 'w \<Rightarrow> string option \<times> 'w) \<Rightarrow> string option \<Rightarrow> 'w \<Rightarrow> (envtest_environment ptr \<times> string option) \<times> 'w" where
  "StartEnvTest env_Start caller w = (case caller of
     None \<Rightarrow> ((NilP, Some ''failed to locate root directory''), w)
   | Some thisFile \<Rightarrow>
       let rootDir = filepath_Dir (filepath_Dir (filepath_Dir thisFile));
         testEnv = \<lparr>CRDInstallPaths = [rootDir @ ''/charts/kaschnit-scheduler/templates/scheduling.kaschnit.github.io_queues.yaml'']\<rparr>
       in case env_Start testEnv w of
         (Some err, w') \<Rightarrow> ((Ptr testEnv, Some err), w')
       | (None, w') \<Rightarrow> ((Ptr testEnv, None), w'))"

definition newKWOKContoller :: "('k, 'h, 'f, 'x, 'w) env_lib \<Rightarrow> 'h \<Rightarrow> 'h \<Rightarrow> 'h \<Rightarrow> 'h \<Rightarrow> ('h, 'w) io" where
  "newKWOKContoller E k8sClient kwokClient restMapper clk =
     attempt (check (UnmarshalStage E DefaultNodeInit)) (\<lambda>nodeInitStage.
     attempt (check (UnmarshalStage E DefaultPodReady)) (\<lambda>podReadyStage.
     attempt (check (UnmarshalStage E DefaultPodComplete)) (\<lambda>podCompleteStage.
     attempt (check (UnmarshalStage E DefaultPodDelete)) (\<lambda>podDeleteStage.
     attempt (NewController E
       \<lparr>kw_TypedClient = k8sClient, kw_TypedKwokClient = kwokClient, kw_RESTClient = kube_RESTClient E k8sClient,
        kw_RESTMapper = restMapper, kw_ManageNodesWithAnnotationSelector = ''kwok.x-k8s.io/node=fake'',
        kw_CIDR = ''10.0.0.0/24'', kw_NodeLeaseDurationSeconds = 40, kw_NodeIP = ''10.0.0.1'',
        kw_PodPlayStageParallelism = 32, kw_NodePlayStageParallelism = 32, kw_NodeLeaseParallelism = 4,
        kw_EnablePodCache = True, kw_Clock = clk,
        kw_LocalStages = Ptr [((''v1'', ''Node''), [nodeInitStage]), ((''v1'', ''Pod''), [podReadyStage, podCompleteStage, podDeleteStage])]\<rparr>)
       (\<lambda>kwokController.
     attempt (Controller_Start E kwokController) (\<lambda>_.
     finish kwokController))))))"

definition newKubeSchedulerConfig :: "('k, 'h, 'f, 'x, 'w) env_lib \<Rightarrow> api_config sched_config \<times> string option" where
  "newKubeSchedulerConfig E = ToConfigAPIWithDefaults (Default E) (Convert E) (configv1_SchemeGroupVersion E)
     \<lparr>cfg_APIVersion = configv1_SchemeGroupVersion E, cfg_Kind = ''KubeSchedulerConfiguration'',
      cfg_rest = \<lparr>vc_Profiles = [\<lparr>v1p_SchedulerName = Ptr SchedulerName,
        v1p_MultiPoint = Ptr \<lparr>pset_Enabled = [PluginName], pset_Disabled = [defaultpreemption_Name E]\<rparr>\<rparr>], vc_other = zero_config E\<rparr>\<rparr>"

text \<open>A value with an error, as a call.\<close>

definition or_error :: "'a \<times> string option \<Rightarrow> ('a, 'w) io" where
  "or_error r w = Some (case r of (x, Some err) \<Rightarrow> Inl err | (x, None) \<Rightarrow> Inr x, w)"

definition newKubeScheduler :: "('k, 'h, 'f, 'x, 'w) env_lib \<Rightarrow> 'f \<Rightarrow> 'k \<Rightarrow> 'h \<Rightarrow> 'h \<Rightarrow> 'h \<Rightarrow> ('h, 'w) io" where
  "newKubeScheduler E factory k8sConfig k8sClient infFactory dynInfFactory =
     attempt (or_error (newKubeSchedulerConfig E)) (\<lambda>kubeSchedulerConfig.
     attempt (\<lambda>w. do { r \<leftarrow> newPluginRegistry (registry_op E) factory; or_error r w }) (\<lambda>pluginRegistry.
     perform (NewRecorder E k8sClient) (\<lambda>recorder.
     attempt (scheduler_New E
       \<lparr>so_Client = k8sClient, so_InformerFactory = infFactory, so_DynInformerFactory = dynInfFactory,
        so_RecorderFactory = recorder, so_ComponentConfigVersion = ''kubescheduler.config.k8s.io/v1'', so_KubeConfig = k8sConfig,
        so_Registry = pluginRegistry, so_Profiles = ac_Profiles (cfg_rest kubeSchedulerConfig),
        so_PercentageOfNodesToScore = ac_PercentageOfNodesToScore (cfg_rest kubeSchedulerConfig),
        so_PodMaxBackoffSeconds = ac_PodMaxBackoffSeconds (cfg_rest kubeSchedulerConfig),
        so_PodInitialBackoffSeconds = ac_PodInitialBackoffSeconds (cfg_rest kubeSchedulerConfig),
        so_PodMaxInUnschedulablePodsDuration = DefaultPodMaxInUnschedulablePodsDuration E,
        so_Parallelism = ac_Parallelism (cfg_rest kubeSchedulerConfig)\<rparr>) finish)))"

text \<open>\<^verbatim>\<open>strconv.FormatInt\<close> in base 36.\<close>

fun digits36 :: "nat \<Rightarrow> string" where
  "digits36 n = (if n < 36 then [''0123456789abcdefghijklmnopqrstuvwxyz'' ! n]
     else digits36 (n div 36) @ [''0123456789abcdefghijklmnopqrstuvwxyz'' ! (n mod 36)])"

declare digits36.simps [simp del]

definition FormatInt36 :: "int \<Rightarrow> string" where
  "FormatInt36 i = (if i < 0 then ''-'' @ digits36 (nat (- i)) else digits36 (nat i))"

text \<open>The context: what \<^verbatim>\<open>CleanUp\<close> uses of it and the rest of its fields.\<close>

record ('q, 'w, 'j, 'k, 'h, 'sc) test_context = "('q, 'w, 'j) scheduler_context" +
  tc_Clock :: 'h
  tc_K8sCfg :: 'k
  tc_K8sClient :: 'h
  tc_DynClient :: 'h
  tc_SchedulingClient :: 'sc
  tc_KWOKClient :: 'h
  tc_InformerFactory :: 'h
  tc_DynInformerFactory :: 'h
  tc_RESTMapper :: 'h
  tc_Scheduler :: 'h
  tc_KWOKController :: 'h

text \<open>
  The clients of the API groups that a clientset gives: \<open>'h\<close> is that of Kubernetes, \<open>'sc\<close> that of the queues
  (\<^verbatim>\<open>Clientset_NewForConfig\<close>, whose result for the configuration is \<open>newSchedulingClient\<close>).
\<close>

record ('q, 'w, 'j, 'h, 'sc) api_clients =
  pods_of :: "'h \<Rightarrow> ('q, 'w) pod_client"
  nodes_of_client :: "'h \<Rightarrow> ('q, 'w, 'j) node_client"
  pcs_of :: "'h \<Rightarrow> (priority_class, 'w) object_client"
  queues_of :: "'sc \<Rightarrow> ('q queue_obj, 'w) object_client"
  namespaces_Delete :: "'h \<Rightarrow> string \<Rightarrow> delete_options \<Rightarrow> 'w \<Rightarrow> string option \<times> 'w"

definition NewKWOKNodeManager :: "('q, 'w, 'j) node_client \<Rightarrow> ('q, 'w, 'j) node_client" where
  "NewKWOKNodeManager nodeClient = nodeClient"

definition NewPCManager :: "(priority_class, 'w) object_client \<Rightarrow> (priority_class, 'w) object_client" where
  "NewPCManager pcClient = pcClient"

definition NewQueueManager :: "('q queue_obj, 'w) object_client \<Rightarrow> ('q queue_obj, 'w) object_client" where
  "NewQueueManager queueClient = queueClient"

definition NewSchedulerContext :: "('k, 'h, 'f, 'x, 'w) env_lib \<Rightarrow> ('q, 'w, 'j, 'h, 'sc) api_clients \<Rightarrow> ('k \<Rightarrow> (string + 'sc) option) \<Rightarrow> 'f \<Rightarrow> 'k \<Rightarrow> (('q, 'w, 'j, 'k, 'h, 'sc) test_context, 'w) io" where
  "NewSchedulerContext E A newSchedulingClient factory k8sConfig = (let clk = RealClock E in
     attempt (kubernetes_NewForConfig E k8sConfig) (\<lambda>k8sClient.
     attempt (dynamic_NewForConfig E k8sConfig) (\<lambda>dynClient.
     attempt (GetAPIGroupResources E (kube_Discovery E k8sClient)) (\<lambda>apiGroupResources.
     let restMapper = NewDiscoveryRESTMapper E apiGroupResources in
     attempt (kwok_NewForConfig E k8sConfig) (\<lambda>kwokClient.
     attempt (newKWOKContoller E k8sClient kwokClient restMapper clk) (\<lambda>kwokCtrl.
     attempt (\<lambda>w. do { r \<leftarrow> newSchedulingClient k8sConfig; check r w }) (\<lambda>schedulingClient.
     perform (scheduler_NewInformerFactory E k8sClient 0) (\<lambda>infFactory.
     perform (factory_Start E infFactory) (\<lambda>_.
     perform (factory_WaitForCacheSync E infFactory) (\<lambda>_.
     perform (NewDynamicSharedInformerFactory E dynClient 0) (\<lambda>dynInfFactory.
     perform (factory_Start E dynInfFactory) (\<lambda>_.
     perform (factory_WaitForCacheSync E dynInfFactory) (\<lambda>_.
     attempt (newKubeScheduler E factory k8sConfig k8sClient infFactory dynInfFactory) (\<lambda>kubeScheduler.
     perform (UnixNano E) (\<lambda>now. let nsName = ''test-'' @ FormatInt36 now in
     attempt (namespaces_Create E k8sClient nsName) (\<lambda>_.
     finish \<lparr>sc_Namespace = nsName, sc_Pods = pods_of A k8sClient, sc_PodMgr = NewPodManager nsName,
       sc_QMgr = NewQueueManager (queues_of A schedulingClient), sc_PCMgr = NewPCManager (pcs_of A k8sClient),
       sc_NodeMgr = NewKWOKNodeManager (nodes_of_client A k8sClient), sc_DeleteNamespace = namespaces_Delete A k8sClient,
       sc_InformerFactory = Ptr (factory_Shutdown E infFactory), sc_DynInformerFactory = Ptr (factory_Shutdown E dynInfFactory),
       tc_Clock = clk, tc_K8sCfg = k8sConfig, tc_K8sClient = k8sClient, tc_DynClient = dynClient,
       tc_SchedulingClient = schedulingClient, tc_KWOKClient = kwokClient, tc_InformerFactory = infFactory,
       tc_DynInformerFactory = dynInfFactory, tc_RESTMapper = restMapper, tc_Scheduler = kubeScheduler,
       tc_KWOKController = kwokCtrl\<rparr>))))))))))))))))"

section \<open>What the libraries promise\<close>

text \<open>
  Defaulting keeps the name of a profile and adds default plugins to those enabled for all extension
  points, except those disabled; conversion keeps the profiles.
\<close>

locale test_env = plugin_registry "registry_op E" for E :: "('k, 'h, 'f, 'x, 'w) env_lib" +
  assumes default_keeps: "p \<in> set (vc_Profiles (cfg_rest c)) \<Longrightarrow> v1p_SchedulerName p = Ptr n \<Longrightarrow> v1p_MultiPoint p = Ptr ps \<Longrightarrow>
      \<exists>p' ps'. p' \<in> set (vc_Profiles (cfg_rest (Default E c))) \<and> v1p_SchedulerName p' = Ptr n \<and> v1p_MultiPoint p' = Ptr ps' \<and>
        set (pset_Enabled ps) \<subseteq> set (pset_Enabled ps') \<and>
        set (pset_Enabled ps') \<inter> set (pset_Disabled ps) \<subseteq> set (pset_Enabled ps)"
    and convert_keeps: "Convert E c = (a, None) \<Longrightarrow> p \<in> set (vc_Profiles (cfg_rest c)) \<Longrightarrow> v1p_SchedulerName p = Ptr n \<Longrightarrow>
      \<lparr>ap_SchedulerName = n, ap_MultiPoint = v1p_MultiPoint p\<rparr> \<in> set (ac_Profiles (cfg_rest a))"
    and names_differ: "defaultpreemption_Name E \<noteq> PluginName"
begin

lemma config_has_profile:
  assumes "newKubeSchedulerConfig E = (cfg, None)"
  obtains ps where "\<lparr>ap_SchedulerName = SchedulerName, ap_MultiPoint = Ptr ps\<rparr> \<in> set (ac_Profiles (cfg_rest cfg))"
    "PluginName \<in> set (pset_Enabled ps)" "defaultpreemption_Name E \<notin> set (pset_Enabled ps)"
proof -
  define p where "p = \<lparr>v1p_SchedulerName = Ptr SchedulerName,
    v1p_MultiPoint = Ptr \<lparr>pset_Enabled = [PluginName], pset_Disabled = [defaultpreemption_Name E]\<rparr>\<rparr>"
  define c where "c = \<lparr>cfg_APIVersion = configv1_SchemeGroupVersion E, cfg_Kind = ''KubeSchedulerConfiguration'',
    cfg_rest = \<lparr>vc_Profiles = [p], vc_other = zero_config E\<rparr>\<rparr>"
  have "p \<in> set (vc_Profiles (cfg_rest c))" by (simp add: c_def)
  then obtain p' ps' where p': "p' \<in> set (vc_Profiles (cfg_rest (Default E c)))" "v1p_SchedulerName p' = Ptr SchedulerName"
      "v1p_MultiPoint p' = Ptr ps'" "PluginName \<in> set (pset_Enabled ps')" "set (pset_Enabled ps') \<inter> {defaultpreemption_Name E} \<subseteq> {PluginName}"
    using default_keeps [of p c SchedulerName "\<lparr>pset_Enabled = [PluginName], pset_Disabled = [defaultpreemption_Name E]\<rparr>"] by (auto simp: p_def)
  obtain c' a where a: "Convert E c' = (a, None)" "cfg_rest c' = cfg_rest (Default E c)" "cfg_rest cfg = cfg_rest a"
    using assms unfolding newKubeSchedulerConfig_def ToConfigAPIWithDefaults_def Let_def p_def [symmetric] c_def [symmetric]
    by (auto split: prod.splits option.splits if_splits)
  have "\<lparr>ap_SchedulerName = SchedulerName, ap_MultiPoint = Ptr ps'\<rparr> \<in> set (ac_Profiles (cfg_rest cfg))"
    using convert_keeps [OF a(1), of p' SchedulerName] p' a(2,3) by simp
  then show thesis using p'(4,5) names_differ by (intro that) auto
qed

lemma scheduler_has_plugin:
  assumes "newKubeScheduler E factory k8sConfig k8sClient infFactory dynInfFactory w = Some (Inr sched, w')"
  shows "\<exists>options w1 w2 ps. scheduler_New E options w1 = Some (Inr sched, w2) \<and> so_KubeConfig options = k8sConfig \<and>
    (\<forall>k. gm_get (so_Registry options) k = (if k = PluginName then Some factory else None)) \<and>
    \<lparr>ap_SchedulerName = SchedulerName, ap_MultiPoint = Ptr ps\<rparr> \<in> set (so_Profiles options) \<and>
    PluginName \<in> set (pset_Enabled ps) \<and> defaultpreemption_Name E \<notin> set (pset_Enabled ps)"
proof -
  obtain r where r: "newPluginRegistry (registry_op E) factory = Some (r, None)"
      "\<forall>k. gm_get r k = (if k = PluginName then Some factory else None)"
    using new_registry by blast
  obtain cfg where cfg: "newKubeSchedulerConfig E = (cfg, None)"
    using assms by (cases "newKubeSchedulerConfig E") (auto simp: newKubeScheduler_def attempt_def or_error_def split: option.splits)
  obtain recorder w1 where "NewRecorder E k8sClient w = (recorder, w1)" by fastforce
  with assms r(1) cfg obtain options w2 where o: "scheduler_New E options w1 = Some (Inr sched, w2)" "so_KubeConfig options = k8sConfig"
      "so_Registry options = r" "so_Profiles options = ac_Profiles (cfg_rest cfg)"
    by (fastforce simp: newKubeScheduler_def attempt_def perform_def or_error_def finish_def split: bind_splits sum.splits)
  obtain ps where "\<lparr>ap_SchedulerName = SchedulerName, ap_MultiPoint = Ptr ps\<rparr> \<in> set (ac_Profiles (cfg_rest cfg))"
    "PluginName \<in> set (pset_Enabled ps)" "defaultpreemption_Name E \<notin> set (pset_Enabled ps)"
    by (rule config_has_profile [OF cfg])
  then show ?thesis using o(1,2) r(2) unfolding o(3,4) [symmetric] by blast
qed

end

section \<open>A reference environment\<close>










section \<open>Properties\<close>









text \<open>\<^verbatim>\<open>NewSchedulerContext\<close> itself does not panic: it returns a context or an error if what it calls returns.\<close>

definition calls_return :: "('k, 'h, 'f, 'x, 'w) env_lib \<Rightarrow> bool" where
  "calls_return E \<longleftrightarrow> (\<forall>k w. kubernetes_NewForConfig E k w \<noteq> None \<and> dynamic_NewForConfig E k w \<noteq> None \<and> kwok_NewForConfig E k w \<noteq> None) \<and>
     (\<forall>h w. GetAPIGroupResources E h w \<noteq> None \<and> Controller_Start E h w \<noteq> None) \<and>
     (\<forall>c w. NewController E c w \<noteq> None) \<and> (\<forall>options w. scheduler_New E options w \<noteq> None) \<and>
     (\<forall>h ns w. namespaces_Create E h ns w \<noteq> None)"

lemma attempt_returns: "(\<And>w. call w \<noteq> None) \<Longrightarrow> (\<And>x w. rest x w \<noteq> None) \<Longrightarrow> attempt call rest w \<noteq> None"
  by (fastforce simp: attempt_def split: bind_splits sum.splits)

lemma perform_returns: "(\<And>x w. rest x w \<noteq> None) \<Longrightarrow> perform call rest w \<noteq> None"
  by (auto simp: perform_def split: prod.splits)

theorem context_never_panics:
  assumes "test_env E" "calls_return E" "newSchedulingClient k8sConfig \<noteq> None"
  shows "NewSchedulerContext E A newSchedulingClient factory k8sConfig w \<noteq> None"
proof -
  obtain r where "newPluginRegistry (registry_op E) factory = Some (r, None)"
    using plugin_registry.new_registry [OF test_env.axioms(1) [OF assms(1)], of factory factory] by blast
  then show ?thesis using assms(2,3)
    unfolding NewSchedulerContext_def newKWOKContoller_def newKubeScheduler_def Let_def calls_return_def
    by (intro attempt_returns perform_returns) (auto simp: check_def or_error_def finish_def)
qed

text \<open>
  The environment installs the queue definition of the repository its own source is in, whatever directory
  that is.
\<close>

lemma Dir_append: "d \<noteq> [] \<Longrightarrow> CHR ''/'' \<notin> set name \<Longrightarrow> filepath_Dir (d @ CHR ''/'' # name) = d"
proof -
  assume d: "d \<noteq> []" "CHR ''/'' \<notin> set name"
  have "dropWhile (\<lambda>c. c \<noteq> CHR ''/'') (rev name @ CHR ''/'' # rev d) = CHR ''/'' # rev d"
    using d(2) by (subst dropWhile_append2) auto
  then show ?thesis using d(1) by (simp add: filepath_Dir_def Let_def)
qed

theorem envtest_installs_queue_crd:
  assumes "repo \<noteq> []"
  shows "fst (fst (StartEnvTest env_Start (Some (repo @ ''/internal/kubetest/envtest_context.go'')) w)) =
    Ptr \<lparr>CRDInstallPaths = [repo @ ''/charts/kaschnit-scheduler/templates/scheduling.kaschnit.github.io_queues.yaml'']\<rparr>"
proof -
  have "filepath_Dir (repo @ ''/internal/kubetest/envtest_context.go'') = repo @ ''/internal/kubetest''"
    using Dir_append [of "repo @ ''/internal/kubetest''" "''envtest_context.go''"] by simp
  moreover have "filepath_Dir (repo @ ''/internal/kubetest'') = repo @ ''/internal''"
    using Dir_append [of "repo @ ''/internal''" "''kubetest''"] by simp
  moreover have "filepath_Dir (repo @ ''/internal'') = repo"
    using Dir_append [OF assms, of "''internal''"] by simp
  ultimately show ?thesis by (simp add: StartEnvTest_def Let_def split: prod.split option.split)
qed

text \<open>Contexts made at different times have different namespaces.\<close>

lemma digits36_not_empty: "digits36 n \<noteq> []"
  by (subst digits36.simps) simp

lemma digit36_inject:
  assumes "m < 36" "n < 36" "''0123456789abcdefghijklmnopqrstuvwxyz'' ! m = ''0123456789abcdefghijklmnopqrstuvwxyz'' ! n"
  shows "m = n"
  using assms nth_eq_iff_index_eq [of "''0123456789abcdefghijklmnopqrstuvwxyz''" m n] by simp

lemma digits36_inject: "digits36 m = digits36 n \<Longrightarrow> m = n"
proof (induction m arbitrary: n rule: digits36.induct)
  case (1 m)
  note eq = "1.prems" [unfolded digits36.simps [of m] digits36.simps [of n]]
  consider (small) "m < 36" "n < 36" | (mixed) "(m < 36) \<noteq> (n < 36)" | (large) "\<not> m < 36" "\<not> n < 36" by blast
  then show ?case
  proof cases
    case small
    with eq digit36_inject show ?thesis by simp
  next
    case mixed
    with eq digits36_not_empty [of "m div 36"] digits36_not_empty [of "n div 36"] show ?thesis by (auto split: if_splits)
  next
    case large
    with eq have "digits36 (m div 36) = digits36 (n div 36)"
      "''0123456789abcdefghijklmnopqrstuvwxyz'' ! (m mod 36) = ''0123456789abcdefghijklmnopqrstuvwxyz'' ! (n mod 36)"
      by simp_all
    with "1.IH" [OF large(1)] digit36_inject [of "m mod 36" "n mod 36"] have "m div 36 = n div 36" "m mod 36 = n mod 36" by simp_all
    then show ?thesis by (metis div_mult_mod_eq)
  qed
qed

theorem namespaces_differ: "0 \<le> i \<Longrightarrow> 0 \<le> j \<Longrightarrow> i \<noteq> j \<Longrightarrow> ''test-'' @ FormatInt36 i \<noteq> ''test-'' @ FormatInt36 j"
  using digits36_inject [of "nat i" "nat j"] by (auto simp: FormatInt36_def)

end
