(* ===== verification/Spec2Isabelle.thy ===== *)
theory Spec2Isabelle
  imports Startup ConcurrentClone Locking GeneratedCopies Clientset QueueInformer Assertions TestEnvironment
begin

text \<open>
  A verification of kaschnit-scheduler, a kube-scheduler plugin that gives every pod a queue, every
  queue a quota, and lets pods preempt others within the quotas and the queues' preemption rules.

  \<^bold>\<open>The program.\<close> The plugin (\<^verbatim>\<open>internal/plugin/quotaawarepreempt\<close>) is called by the scheduler at its
  extension points. It keeps a queue manager (\<^verbatim>\<open>internal/queue/manager.go\<close>): a map from names to
  queues (\<^verbatim>\<open>queue.go\<close>), each with a quota (\<^verbatim>\<open>quota.go\<close>: a maximum, the resources in use and the pods
  counted) and preemption rules (\<^verbatim>\<open>preemption.go\<close>). A synchronizer (\<^verbatim>\<open>synchronizer.go\<close>) feeds the manager
  from the informers of queues and pods and publishes each queue's status; a tracker
  (\<^verbatim>\<open>internal/alloc/cluster_tracker.go\<close>, \<^verbatim>\<open>node_aggregator.go\<close>) sums the resources of the nodes. In a
  scheduling cycle PreFilter puts a snapshot of the manager into the cycle state and decides on the
  quota; if the pod does not fit, PostFilter hands the preemptor (\<^verbatim>\<open>preemption.go\<close> of the plugin) to
  the framework's evaluator, which asks it whether the pod may preempt and which victims it takes on
  a node. Reserve and Unreserve count the pod in the live manager.

  \<^bold>\<open>How it is modelled.\<close> A Go pointer is a value of type \<open>ptr\<close> (\<open>NilP\<close> or \<open>Ptr x\<close>), a Go map a \<open>gomap\<close>:
  a possibly nil association list, in iteration order. An operation that may panic (a nil
  dereference, a write to a nil map) has type \<open>option\<close> with \<open>None\<close> for the panic; an error is the left
  of a sum or a component of the result. Mutation is state passing. \<^verbatim>\<open>int32\<close> is a 32-bit word read
  as signed. A loop is a recursion over the list it ranges over (\<open>for_each\<close> of \<open>Prelude\<close> and its
  relatives), so there is no fuel and every definition is total. An operation is one atomic step
  and a queue a value in the manager's map; concurrency is the interleaving of steps in \<open>sys_step\<close>
  below. That the code's locks and pointers amount to this is not assumed: \<open>Store\<close> models managers,
  queues, quotas and their maps of resources as cells behind addresses, \<open>StoreRefine\<close> shows that the operations on cells refine
  those on values and that a snapshot shares no cell with the live manager (C6),
  \<open>Concurrency\<close> interleaves the sections that hold a lock (C5), and
  \<open>ConcurrentClone\<close> takes a snapshot among them (C7), and \<open>Locking\<close> shows that the locks
  themselves, with Go's preference for waiting writers, do not deadlock (C8).

  Code outside the repository is a parameter: the record \<open>kube\<close> of \<open>KubeApi\<close> holds what is used of
  apimachinery, component-helpers and the immutable map (quantities, selectors, requests, priorities),
  the record \<open>handle\<close> of \<open>Framework\<close> what is used of the scheduling framework (cycle state, node infos,
  the runners of the extensions and filters). Their documented behaviour is in locales: \<open>quantity\<close>,
  \<open>immut_map\<close>, \<open>pod_requests\<close>, \<open>pod_importance\<close>, \<open>label_selectors\<close>, and \<open>kube_laws\<close> that joins
  three of them; \<open>cycle_state\<close> and \<open>framework\<close>. \<open>RefKube\<close> and \<open>RefFramework\<close> interpret all of them on executable
  instances, on which the witnesses evaluate. Locales of the development's own are \<open>ledger\<close> (a store
  of counted items with a running total), interpreted by the quota and the node aggregator;
  \<open>queue_store\<close> (what the clients of the manager rely on), interpreted by the manager; and \<open>reprieval\<close>
  (the loop that gives victims back), interpreted by the preemptor's simulation; and \<open>deep_copy\<close> (a
  copy that shares no cell), interpreted by the generated copies of the API types, over
  \<open>machinery_laws\<close> (the copies of apimachinery's own types), with its reference instance there.

  \<^bold>\<open>Theories.\<close>
  \<^item> \<open>Prelude\<close>: pointers, maps, early-exit loops, signed words, \<^verbatim>\<open>slices.SortFunc\<close>.
  \<^item> \<open>KubeApi\<close>, \<open>RefKube\<close>: the Kubernetes objects and the library parameter, with its reference instance.
  \<^item> \<open>Resources\<close> (\<^verbatim>\<open>internal/alloc/resource.go\<close>): resource vectors. C38, \<open>TakeMinExisting_is_min\<close>
    and C39 say which vector each operation computes, including where that is not
    what its comment says.
  \<^item> \<open>QueueApi\<close> (\<^verbatim>\<open>apis/scheduling\<close>): the Queue resource and what informer handlers receive.
  \<^item> \<open>Pods\<close> (\<^verbatim>\<open>internal/pods\<close>): builder, importance, conditions, phases.
  \<^item> \<open>Preemption\<close> (\<^verbatim>\<open>internal/match\<close>, the second half of \<^verbatim>\<open>internal/queue/preemption.go\<close>): rules from
    specs, either side of which matches nothing when its selector is invalid (C34).
  \<^item> \<open>Ledger\<close>, \<open>Quota\<close> (\<^verbatim>\<open>quota.go\<close>): after any history in which pods keep their requests the used resources are the
    sum over the counted pods (C17), the check of the maximum is exact (C19), deletion by
    predicate (C35).
  \<^item> \<open>Queues\<close> (\<^verbatim>\<open>queue.go\<close>), \<open>Manager\<close> (\<^verbatim>\<open>manager.go\<close>): counting a pod changes its queue only.
  \<^item> \<open>Store\<close>, \<open>StoreRefine\<close>, \<open>Concurrency\<close>, \<open>ConcurrentClone\<close>, \<open>Locking\<close> (\<^verbatim>\<open>manager.go\<close>, \<^verbatim>\<open>queue.go\<close>, \<^verbatim>\<open>quota.go\<close>
    again): pointers and locks, as above. Locks are taken in the order informer factory, nodes, manager, queue,
    quota; the number of steps a schedule can have is what \<open>work\<close> computes, so that no fuel is needed. What \<^verbatim>\<open>Max\<close> and
    \<^verbatim>\<open>Used\<close> return is there the pointer to the quota's own map (\<open>h_Quota_Used\<close>), which changes under its reader
    (\<open>Used_hands_out_the_live_map\<close>); in \<open>Quota\<close> it is the value at the time of the call.
  \<^item> \<open>PreemptionEval\<close> (the first half of \<^verbatim>\<open>preemption.go\<close>): who may preempt whom (C14),
    and that preemption cannot go in circles (C28).
  \<^item> \<open>NodeAggregator\<close> (\<^verbatim>\<open>node_aggregator.go\<close>, \<^verbatim>\<open>cluster_tracker.go\<close>): the total is the sum over the nodes as
    long as their resources stay (C18), and how it goes stale when they change
    (\<open>updateNode_misses_changed_quantity\<close>).
  \<^item> \<open>Synchronizer\<close> (\<^verbatim>\<open>synchronizer.go\<close>): the handlers refine an abstract account of the pods each
    queue counts (C13, C40), and the published status is
    right (C27).
  \<^item> \<open>PdbEval\<close> (\<^verbatim>\<open>internal/pdbeval\<close>): the split by disruption budgets, against a specification of when a
    budget covers a pod (C16).
  \<^item> \<open>Framework\<close>, \<open>CycleState\<close> (\<^verbatim>\<open>internal/kubesched\<close>, \<^verbatim>\<open>state.go\<close>), \<open>RefFramework\<close>: the framework and the snapshot.
  \<^item> \<open>Plugin\<close> (\<^verbatim>\<open>plugin.go\<close>), \<open>Eligibility\<close> and \<open>VictimSelection\<close> (\<^verbatim>\<open>preemption.go\<close> of the plugin): the extension
    points and the preemptor. \<open>VictimSpec\<close> refines the selection to a greedy specification.
  \<^item> \<open>PluginProps\<close>: the decision of PreFilter (C3), eligibility
    (C15), round trips (C25, C26), bounds (C37) and a
    missing snapshot (C36).
  \<^item> \<open>VictimProps\<close>: victims free enough quota (C9), may be preempted
    (C10), are those of the greedy pass (C11), are minimal
    (C12), sorted (C30), and the selection returns (C29).
  \<^item> \<open>Scheduling\<close>: the scheduling loop as a step relation of PreFilter, Reserve, Unreserve and informer
    events. No queue exceeds its maximum (C2), and a preemption makes room for its
    preemptor as long as no newcomer takes it (C4).
  \<^item> \<open>InformerFactory\<close> (\<^verbatim>\<open>client/informers/externalversions/factory.go\<close>): every informer is started once
    (C31). \<open>QueueInformer\<close> (\<^verbatim>\<open>externalversions/scheduling\<close>, \<^verbatim>\<open>client/listers\<close>): the accessors
    down to the queue informer and its requests.
  \<^item> \<open>Clientset\<close> (\<^verbatim>\<open>client/clientset/scheduling\<close>): building the clients (C32), and where
    that is not as documented (\<open>NewForConfig_not_as_documented\<close>).
  \<^item> \<open>DeepCopy\<close>, \<open>GeneratedCopies\<close> (the \<^verbatim>\<open>zz_generated.deepcopy.go\<close> of \<^verbatim>\<open>apis/scheduling/v1\<close> and
    \<^verbatim>\<open>apis/config/v1\<close>): copies on a heap are well typed (C23) and share nothing
    with their originals (C22).
  \<^item> \<open>Assertions\<close> (\<^verbatim>\<open>internal/kassert\<close>): what the assertions of the integration tests accept.
  \<^item> \<open>TestCluster\<close> (\<^verbatim>\<open>internal/kubetest\<close>): the managers of the tests' nodes, pods, queues and priority classes over
    a client of the API server, with its contract as the locale \<open>node_server\<close> and a reference server.
    A cluster set up without an error has distinct, ready, schedulable nodes; cleaning up makes all its calls.
  \<^item> \<open>Registration\<close> (\<^verbatim>\<open>plugin.go\<close>, \<^verbatim>\<open>cmd/scheduler/main.go\<close>, the \<^verbatim>\<open>register.go\<close> files, the typed client and the fake
    clientset): the plugin in the scheduler's registry, the API types in the schemes. Its contracts are the
    locales \<open>plugin_registry\<close> and \<open>scheme_laws\<close>, each with a reference instance.
  \<^item> \<open>TestEnvironment\<close> (\<^verbatim>\<open>internal/kubetest/envtest_context.go\<close>): starting the environment of the integration tests;
    the pods they create are scheduled by a profile that runs the plugin (C33). What is
    started is the record \<open>env_lib\<close> with the contract \<open>test_env\<close>.
  \<^item> \<open>Startup\<close> (the constructors of \<^verbatim>\<open>plugin.go\<close>, \<^verbatim>\<open>synchronizer.go\<close> and \<^verbatim>\<open>cluster_tracker.go\<close>,
    \<^verbatim>\<open>kube_scheduler_config.go\<close>): which pods are counted after start-up (C21) and
    over the life of a pod (C20).
  \<^item> This theory: the running system as a step relation over informer events, Reserve and Unreserve,
    the invariant of all its reachable states (C1), and that \<^verbatim>\<open>NewPlugin\<close> starts it
    in its initial state, fails, or panics on a nil configuration (C24).

  \<^bold>\<open>Hypotheses.\<close> The accounting theorems assume that the requests of a pod and the resources of a
  node do not change while they are counted (\<open>pod_ok\<close>, \<open>node_event_ok\<close>); the code subtracts what it
  is given, so without this they are false, as \<open>Put_keeps_stale_total\<close> shows for nodes. The loop of
  \<open>Scheduling\<close> assumes in \<open>quiet_event\<close> that queues do not change between PreFilter and Reserve of a
  pod: the code does not lock them for that long, and a queue created or lowered in between can be
  overrun by the pod that has passed.

  \<^bold>\<open>Not modelled.\<close> Logging and metrics; blocking waits, of which only what comes before and after is there;
  the interface type \<^verbatim>\<open>ReadOnlySet\<close> (\<^verbatim>\<open>internal/setutil\<close>), interfaces and assertions of the compiler that have no code;
  cancellation of contexts, except in the status loop. Third-party code is not modelled anywhere: API servers,
  caches, generic clients, schemes, the scheduler and KWOK are parameters. The framework's evaluator that
  calls the preemptor is a parameter of \<open>PostFilter\<close>, client-go's filtering of events one of
  \<open>handle_raw\<close> with the contract \<open>filtering_handler\<close>.
\<close>

section \<open>The running scheduler\<close>

text \<open>
  The state that lives as long as the plugin: its queue manager, which the synchronizer and the
  reservation of pods share, and the tracker of the cluster's resources. Each handler holds the
  locks of what it changes, so the handlers interleave as whole steps, in any order.
\<close>

record ('q, 's, 'm) system =
  sys_plugin :: "('q, 's, 'm) plugin"
  sys_tracker :: "'q node_aggregator"

datatype 'q sys_event =
    SyncEvent "'q sync_event"
  | NodeEvent "'q node_event"
  | ReserveEvent "'q pod"
  | UnreserveEvent "'q pod"

definition init_system :: "bool \<Rightarrow> int32 ptr \<Rightarrow> ('q, 's, 'm) system" where
  "init_system async mx = \<lparr>sys_plugin = \<lparr>plugin_queueMgr = NewManager, plugin_EnableAsyncPreemption = async,
     plugin_MaxCandidateNodes = mx\<rparr>, sys_tracker = new_aggregator\<rparr>"

fun sys_event_ok :: "('q, 's, 'm) kube \<Rightarrow> (string \<Rightarrow> 'q resource_list) \<Rightarrow> (string \<Rightarrow> 'q resource_list) \<Rightarrow> 'q sys_event \<Rightarrow> bool" where
  "sys_event_ok K reqs alloc (SyncEvent ev) = sync_event_ok K reqs ev"
| "sys_event_ok K reqs alloc (NodeEvent ev) = node_event_ok alloc ev"
| "sys_event_ok K reqs alloc (ReserveEvent pod) = pod_ok K reqs pod"
| "sys_event_ok K reqs alloc (UnreserveEvent pod) = pod_ok K reqs pod"

inductive sys_step :: "('q, 's, 'm) kube \<Rightarrow> ('q, 's, 'm) system \<Rightarrow> 'q sys_event \<Rightarrow> ('q, 's, 'm) system \<Rightarrow> bool" for K where
  step_sync: "sync_step K ev (plugin_queueMgr (sys_plugin s)) = Some qm \<Longrightarrow>
    sys_step K s (SyncEvent ev) (s\<lparr>sys_plugin := (sys_plugin s)\<lparr>plugin_queueMgr := qm\<rparr>\<rparr>)"
| step_node: "tracker_step K ev (sys_tracker s) = Some tr \<Longrightarrow> sys_step K s (NodeEvent ev) (s\<lparr>sys_tracker := tr\<rparr>)"
| step_reserve: "Reserve K pod (sys_plugin s) = Some (P, st) \<Longrightarrow> sys_step K s (ReserveEvent pod) (s\<lparr>sys_plugin := P\<rparr>)"
| step_unreserve: "Unreserve K pod (sys_plugin s) = Some P \<Longrightarrow> sys_step K s (UnreserveEvent pod) (s\<lparr>sys_plugin := P\<rparr>)"

inductive_cases step_syncE: "sys_step K s (SyncEvent ev) s'"
inductive_cases step_nodeE: "sys_step K s (NodeEvent ev) s'"
inductive_cases step_reserveE: "sys_step K s (ReserveEvent pod) s'"
inductive_cases step_unreserveE: "sys_step K s (UnreserveEvent pod) s'"

inductive reachable :: "('q, 's, 'm) kube \<Rightarrow> (string \<Rightarrow> 'q resource_list) \<Rightarrow> (string \<Rightarrow> 'q resource_list) \<Rightarrow> ('q, 's, 'm) system \<Rightarrow> bool" for K reqs alloc where
  reach_init: "reachable K reqs alloc (init_system async mx)"
| reach_step: "reachable K reqs alloc s \<Longrightarrow> sys_event_ok K reqs alloc ev \<Longrightarrow> sys_step K s ev s' \<Longrightarrow> reachable K reqs alloc s'"

section \<open>Invariant\<close>

definition sys_inv :: "('q, 's, 'm) kube \<Rightarrow> ('q \<Rightarrow> rat) \<Rightarrow> (string \<Rightarrow> 'q resource_list) \<Rightarrow> (string \<Rightarrow> 'q resource_list) \<Rightarrow> ('q, 's, 'm) system \<Rightarrow> bool" where
  "sys_inv K amount reqs alloc s \<longleftrightarrow> mgr_balanced K amount reqs (plugin_queueMgr (sys_plugin s)) \<and> na_invar (sys_tracker s) \<and>
     balanced (na_tracked (sys_tracker s)) (gm_dom (na_total (sys_tracker s))) (res_amount amount (na_total (sys_tracker s)))
       (\<lambda>u. res_amount amount (FromResourceList K (alloc u))) (\<lambda>u. gm_dom (FromResourceList K (alloc u)))"

context kube_laws
begin

lemma sys_inv_init: "sys_inv K amount reqs alloc (init_system async mx)"
  by (simp add: sys_inv_def init_system_def mgr_balanced_new na_invar_new new_aggregator_empty balanced_def)

text \<open>Every handler can run in every state of the invariant, and keeps it.\<close>

lemma sys_inv_progress:
  assumes "sys_inv K amount reqs alloc s" and "sys_event_ok K reqs alloc ev" and "\<And>u. gm_wf (alloc u)"
  shows "\<exists>s'. sys_step K s ev s'"
proof (cases ev)
  case (SyncEvent e)
  then show ?thesis
    using sync_step_refines [of reqs "plugin_queueMgr (sys_plugin s)" e] assms by (auto simp: sys_inv_def intro: step_sync)
next
  case (NodeEvent e)
  then show ?thesis
    using tracker_step_balanced [of alloc e "sys_tracker s"] assms by (auto simp: sys_inv_def intro: step_node)
next
  case (ReserveEvent pod)
  then show ?thesis
    using Manager_AddPod_result [of reqs "plugin_queueMgr (sys_plugin s)" pod] assms
    by (fastforce simp: sys_inv_def Reserve_def intro: step_reserve)
next
  case (UnreserveEvent pod)
  then show ?thesis
    using Manager_DeletePod_result [of reqs "plugin_queueMgr (sys_plugin s)" pod] assms
    by (fastforce simp: sys_inv_def Unreserve_def intro: step_unreserve)
qed

lemma sys_inv_step:
  assumes "sys_step K s ev s'" and "sys_inv K amount reqs alloc s" and "sys_event_ok K reqs alloc ev"
    and "\<And>u. gm_wf (alloc u)"
  shows "sys_inv K amount reqs alloc s'"
proof (cases ev)
  case (SyncEvent e)
  with assms(1) show ?thesis
    using sync_step_refines [of reqs "plugin_queueMgr (sys_plugin s)" e] assms(2,3)
    by (auto simp: sys_inv_def elim!: step_syncE)
next
  case (NodeEvent e)
  with assms(1) show ?thesis
    using tracker_step_balanced [of alloc e "sys_tracker s"] assms(2-4) by (auto simp: sys_inv_def elim!: step_nodeE)
next
  case (ReserveEvent pod)
  with assms(1) show ?thesis
    using Manager_AddPod_result [of reqs "plugin_queueMgr (sys_plugin s)" pod] assms(2,3)
    by (auto simp: sys_inv_def Reserve_def elim!: step_reserveE)
next
  case (UnreserveEvent pod)
  with assms(1) show ?thesis
    using Manager_DeletePod_result [of reqs "plugin_queueMgr (sys_plugin s)" pod] assms(2,3)
    by (auto simp: sys_inv_def Unreserve_def elim!: step_unreserveE)
qed

lemma reachable_inv:
  assumes "reachable K reqs alloc s" and "\<And>u. gm_wf (alloc u)"
  shows "sys_inv K amount reqs alloc s"
  using assms(1)
proof induction
  case (reach_init async mx)
  show ?case by (rule sys_inv_init)
next
  case (reach_step s ev s')
  then show ?case using sys_inv_step assms(2) by blast
qed

end

section \<open>Properties\<close>

text \<open>
  C1. In every state the running scheduler can reach from its start by queue, pod and node events and by
  reserving and unreserving pods, in any order, under the provisos of \<open>sys_event_ok\<close>: every pod with one
  identifier shows the same requests, every node with one identifier shows the same allocatable
  resources, and the queue and node informers hand over queues and nodes, no tombstones. Then the usage of
  every queue is exactly the sum of the requests of the pods counted in it, the cluster's total is exactly the
  sum of the allocatable resources of the nodes counted, and every further event that meets the provisos
  can be handled without a panic. Without them the sums go wrong: a pod is released by the requests shown at
  its deletion, and a node's changed resources are not noticed or are added to stale ones.
\<close>

theorem accounting_is_exact:
  assumes "kube_laws K amount" and "reachable K reqs alloc s" and "\<forall>u. gm_wf (alloc u)"
  shows "(\<forall>n r. mgr_used amount (plugin_queueMgr (sys_plugin s)) n r =
      (\<Sum>u \<in> mgr_tracked K (plugin_queueMgr (sys_plugin s)) n. uid_req amount reqs u r)) \<and>
    (\<forall>r. res_amount amount (tracker_GetTotal K (sys_tracker s)) r =
      (\<Sum>u \<in> na_tracked (sys_tracker s). res_amount amount (alloc u) r)) \<and>
    (\<forall>ev. sys_event_ok K reqs alloc ev \<longrightarrow> (\<exists>s'. sys_step K s ev s'))"
proof -
  have q: "quantity K amount" using assms(1) by (rule kube_laws.axioms(1))
  have inv: "sys_inv K amount reqs alloc s" using kube_laws.reachable_inv [OF assms(1,2)] assms(3) by blast
  have "res_amount amount (FromResourceList K (alloc u)) r = res_amount amount (alloc u) r" for u r
    using quantity.get_FromResourceList [OF q] assms(3) by (simp add: res_amount_def)
  then have "res_amount amount (tracker_GetTotal K (sys_tracker s)) r =
      (\<Sum>u \<in> na_tracked (sys_tracker s). res_amount amount (alloc u) r)" for r
    using inv quantity.Clone_eq [OF q]
    by (simp add: sys_inv_def balanced_def na_invar_def tracker_GetTotal_def NodeAggregator_GetTotal_def)
  moreover have "\<exists>s'. sys_step K s ev s'" if "sys_event_ok K reqs alloc ev" for ev
    using kube_laws.sys_inv_progress [OF assms(1) inv that] assms(3) by blast
  ultimately show ?thesis
    using kube_laws.mgr_used_sum [OF assms(1)] inv by (simp add: sys_inv_def)
qed

text \<open>A queue, a pod the informer reports and one that is reserved, and a node.\<close>

fun sys_exec :: "('q, 's, 'm) kube \<Rightarrow> 'q sys_event \<Rightarrow> ('q, 's, 'm) system \<Rightarrow> ('q, 's, 'm) system option" where
  "sys_exec K (SyncEvent ev) s = do {
     qm \<leftarrow> sync_step K ev (plugin_queueMgr (sys_plugin s)); Some (s\<lparr>sys_plugin := (sys_plugin s)\<lparr>plugin_queueMgr := qm\<rparr>\<rparr>) }"
| "sys_exec K (NodeEvent ev) s = do { tr \<leftarrow> tracker_step K ev (sys_tracker s); Some (s\<lparr>sys_tracker := tr\<rparr>) }"
| "sys_exec K (ReserveEvent pod) s = do { (P, st) \<leftarrow> Reserve K pod (sys_plugin s); Some (s\<lparr>sys_plugin := P\<rparr>) }"
| "sys_exec K (UnreserveEvent pod) s = do { P \<leftarrow> Unreserve K pod (sys_plugin s); Some (s\<lparr>sys_plugin := P\<rparr>) }"

lemma sys_exec_reachable:
  "for_each (sys_exec K) evs s = Some s' \<Longrightarrow> reachable K reqs alloc s \<Longrightarrow> list_all (sys_event_ok K reqs alloc) evs \<Longrightarrow> reachable K reqs alloc s'"
proof (induction evs arbitrary: s)
  case (Cons ev evs)
  then obtain s1 where s1: "sys_exec K ev s = Some s1" "for_each (sys_exec K) evs s1 = Some s'" by (auto split: bind_splits)
  have "sys_step K s ev s1" using s1(1) by (cases ev) (auto split: bind_splits intro: sys_step.intros)
  with Cons s1(2) show ?case by (auto intro: reach_step)
qed simp

definition ex_events :: "int sys_event list" where
  "ex_events = [SyncEvent (QueueAdded (AnyQueue (Ptr (ref_queue ''a'' 3000)))), SyncEvent (PodAdded (AnyPod (Ptr (ref_pod ''p1'' ''a'' 1 1000)))),
     ReserveEvent (ref_pod ''p2'' ''a'' 1 1000),
     NodeEvent (NodeAdded (AnyNode (Ptr \<lparr>node_name = ''n'', node_uid = ''n1'', node_allocatable = Ptr [(''cpu'', 4000)]\<rparr>)))]"

lemma ex_events_result:
  "map_option (\<lambda>s. (Quota_Used (Queue_Quota (Manager_GetByName (plugin_queueMgr (sys_plugin s)) ''a'')), tracker_GetTotal ref_kube (sys_tracker s)))
     (for_each (sys_exec ref_kube) ex_events (init_system False NilP)) = Some (Ptr [(''cpu'', 2000), (''pods'', 2000)], Ptr [(''cpu'', 4000)])"
  by code_simp

theorem accounting_is_exact_witness:
  "\<exists>s. reachable ref_kube ref_reqs (\<lambda>u. Ptr [(''cpu'', 4000)]) s \<and>
    mgr_used ref_amount (plugin_queueMgr (sys_plugin s)) ''a'' ''cpu'' = 2 \<and>
    (\<Sum>u \<in> mgr_tracked ref_kube (plugin_queueMgr (sys_plugin s)) ''a''. uid_req ref_amount ref_reqs u ''cpu'') = 2 \<and>
    res_amount ref_amount (tracker_GetTotal ref_kube (sys_tracker s)) ''cpu'' = 4 \<and>
    (\<Sum>u \<in> na_tracked (sys_tracker s). res_amount ref_amount (Ptr [(''cpu'', 4000)]) ''cpu'') = 4"
proof -
  let ?alloc = "\<lambda>u :: string. Ptr [(''cpu'', 4000)] :: int resource_list"
  obtain s where s: "for_each (sys_exec ref_kube) ex_events (init_system False NilP) = Some s"
    "Quota_Used (Queue_Quota (Manager_GetByName (plugin_queueMgr (sys_plugin s)) ''a'')) = Ptr [(''cpu'', 2000), (''pods'', 2000)]"
    "tracker_GetTotal ref_kube (sys_tracker s) = Ptr [(''cpu'', 4000)]"
    using ex_events_result by (auto simp del: for_each.simps)
  have "list_all (sys_event_ok ref_kube ref_reqs ?alloc) ex_events"
    by (simp add: ex_events_def queue_obj_ok_def is_nil_def ref_pod_ok)
  with sys_exec_reachable [OF s(1) reach_init] have reach: "reachable ref_kube ref_reqs ?alloc s" by blast
  have "mgr_used ref_amount (plugin_queueMgr (sys_plugin s)) ''a'' ''cpu'' = 2"
    "res_amount ref_amount (tracker_GetTotal ref_kube (sys_tracker s)) ''cpu'' = 4"
    using s(2,3) by (simp_all add: mgr_used_def res_amount_def ref_amount_def)
  with reach accounting_is_exact [OF ref_laws.kube_laws_axioms reach] show ?thesis
    by (intro exI [of _ s]) (simp add: gm_wf_Ptr)
qed

text \<open>
  C24. The plugin comes up empty and in order, or not at all. Its construction panics exactly when the
  arguments decode and the framework has no configuration for a client (\<^verbatim>\<open>fh.KubeConfig()\<close> is nil, which
  \<^verbatim>\<open>NewForConfig\<close> dereferences). It fails with an error exactly when the arguments cannot be decoded, no
  client can be built from the configuration or a handler cannot be registered, with that error, and
  with the last registration it made the one that failed. Otherwise it registers the queue handlers and
  waits for the queues before it registers the pod handlers, the queue informer runs once, and plugin and
  tracker are in the initial state of the system.
\<close>

theorem NewPlugin_result:
  fixes api :: "('i, 'f) informer_api" and newInformer :: "('r, 'd) clientset \<Rightarrow> int \<Rightarrow> string ptr \<Rightarrow> 'w ptr \<Rightarrow> 'i"
    and L :: "('l, 'n, 'o, 'h, 'r, 'd) rest_lib"
  shows "case NewPlugin K L api newInformer addErr DecodeInto kubeConfig async rawArgs of
      None \<Rightarrow> kubeConfig = NilP \<and> (\<exists>args. DecodeInto rawArgs = Inr args)
    | Some (calls, Inl err) \<Rightarrow> calls = [] \<and> DecodeInto rawArgs = Inl err \<or>
        (\<exists>args c. DecodeInto rawArgs = Inr args \<and> kubeConfig = Ptr c \<and>
          (calls = [] \<and> Clientset_NewForConfig L (Ptr c) = Some (Inl err) \<or>
           (\<exists>name client. Clientset_NewForConfig L (Ptr c) = Some (Inr client) \<and> addErr name = Some err \<and>
             calls = takeWhile (\<lambda>c. c \<noteq> AddEventHandler name) startup_order @ [AddEventHandler name])))
    | Some (calls, Inr (P, tracker, f)) \<Rightarrow> calls = startup_order \<and> sif_wg f = [QueueType] \<and>
        (\<exists>args c client. DecodeInto rawArgs = Inr args \<and> kubeConfig = Ptr c \<and> Clientset_NewForConfig L (Ptr c) = Some (Inr client) \<and>
          \<lparr>sys_plugin = P, sys_tracker = tracker\<rparr> = init_system async (args_MaxCandidateNodes args)) \<and>
        addErr ''queues'' = None \<and> addErr ''pods'' = None \<and> addErr ''nodes'' = None"
proof (cases "DecodeInto rawArgs")
  case (Inr args)
  note args = Inr
  show ?thesis
  proof (cases kubeConfig)
    case NilP
    then show ?thesis using args by (simp add: NewPlugin_def Clientset_NewForConfig_def)
  next
    case (Ptr c)
    obtain res where res: "Clientset_NewForConfig L (Ptr c) = Some res" using NewForConfig_defined by blast
    show ?thesis
    proof (cases res)
      case (Inr client)
      obtain f :: "(('r, 'd) clientset, 'i, 'w, 'f) shared_informer_factory" where f: "NewSharedInformerFactory client 0 = Some f"
        by (simp add: NewSharedInformerFactory_def NewSharedInformerFactoryWithOptions_def)
      obtain calls r where "NewSynchronizer K api newInformer addErr f = Some (calls, r)"
        "case r of
           Inl err \<Rightarrow> calls = takeWhile (\<lambda>c. c \<noteq> last calls) startup_order @ [last calls] \<and>
             (\<exists>name. last calls = AddEventHandler name \<and> addErr name = Some err)
         | Inr (tracker, f') \<Rightarrow> calls = startup_order \<and> tracker = new_aggregator \<and> sif_wg f' = [QueueType] \<and>
             addErr ''queues'' = None \<and> addErr ''pods'' = None \<and> addErr ''nodes'' = None"
        using NewSynchronizer_result [OF f, of K api newInformer addErr] by blast
      with args Ptr res Inr f show ?thesis
        by (cases r) (auto simp: NewPlugin_def Clientset_SchedulingV1_def init_system_def)
    qed (use args Ptr res in \<open>simp add: NewPlugin_def\<close>)
  qed
qed (simp add: NewPlugin_def)

end
